(* ===== verification/Prelude.thy ===== *)
theory Prelude
  imports Main "HOL-Library.Word" "HOL-Library.Char_ord" "HOL-Library.List_Lexorder"
    "HOL-Library.Monad_Syntax"
begin

text \<open>
  Shared vocabulary of the development: machine types, the C++ standard-library conversions
  the sources use (decimal printing and parsing, casts between integer widths, byte and
  character strings), first-match searches over sequences, and the two generic interfaces
  (invariant-preserving machines and fixed-width byte codecs) that components interpret.

  An uncaught C++ exception, an abort or undefined behaviour is the value \<^const>\<open>None\<close> of an
  \<open>option\<close> result; \<open>do\<close> blocks sequence such computations.
\<close>

named_theorems word_casts \<open>conversions between integer widths\<close>
named_theorems str_conv \<open>decimal and byte/character string conversions\<close>
named_theorems search_simps \<open>first-match searches\<close>

type_synonym byte = "8 word"
type_synonym bytes = "byte list"
type_synonym u32 = "32 word"
type_synonym u64 = "64 word"

section \<open>Casts between integer types\<close>

text \<open>\<open>static_cast<int>\<close> of a \<open>size_t\<close>: the low 32 bits, read as two's complement.\<close>

definition cast_int :: "u64 \<Rightarrow> int" where
  "cast_int w = sint (ucast w :: u32)"

text \<open>The usual arithmetic conversion of an \<open>int\<close> operand to \<open>size_t\<close>.\<close>

definition int_to_size :: "int \<Rightarrow> u64" where
  "int_to_size i = word_of_int i"

lemma cast_int_small [word_casts]:
  assumes "unat w < 2 ^ 31"
  shows "cast_int w = int (unat w)"
proof -
  have u: "uint w < 2 ^ 31"
    using assms by (metis of_nat_less_iff of_nat_numeral of_nat_power uint_nat)
  have "uint (ucast w :: u32) = take_bit 32 (uint w)"
    by (simp add: unsigned_ucast_eq)
  also have "\<dots> = uint w"
    using u by (intro take_bit_int_eq_self) auto
  finally have c: "uint (ucast w :: u32) = uint w" .
  have "sint (ucast w :: u32) = signed_take_bit 31 (uint (ucast w :: u32))"
    by (simp add: sint_uint)
  also have "\<dots> = uint w"
    unfolding c using u uint_ge_0 [of w] by (intro signed_take_bit_int_eq_self) linarith+
  finally show ?thesis by (simp add: cast_int_def)
qed

lemma u64_of_nat [word_casts]: "n < 2 ^ 63 \<Longrightarrow> unat (word_of_nat n :: u64) = n"
  by (simp add: unat_of_nat take_bit_nat_eq_self)

lemma unat_plus_of_nat: "unat h + n < 2 ^ 64 \<Longrightarrow> unat (h + of_nat n :: u64) = unat h + n"
  using unat_of_nat [where 'a = 64, of "unat h + n"] by (simp add: take_bit_nat_eq_self)

lemma u64_of_nat_zero_iff [word_casts]: "n < 2 ^ 63 \<Longrightarrow> (word_of_nat n :: u64) = 0 \<longleftrightarrow> n = 0"
proof
  assume "n < 2 ^ 63" "(word_of_nat n :: u64) = 0"
  then have "unat (0 :: u64) = n" using u64_of_nat [of n] by (simp only:)
  then show "n = 0" by simp
qed simp

section \<open>Bytes and characters\<close>

definition byte_to_char :: "byte \<Rightarrow> char" where
  "byte_to_char b = char_of (unat b)"

definition char_to_byte :: "char \<Rightarrow> byte" where
  "char_to_byte c = word_of_nat (of_char c)"

lemma byte_char_byte [simp]: "char_to_byte (byte_to_char b) = b"
proof -
  have "unat b < 256" using unsigned_less [of b] by simp
  then show ?thesis by (simp add: byte_to_char_def char_to_byte_def)
qed

lemma char_byte_char [simp]: "byte_to_char (char_to_byte c) = c"
proof -
  have "of_char c < (256::nat)" by simp
  then have "unat (word_of_nat (of_char c) :: byte) = of_char c"
    by (simp add: unat_of_nat take_bit_nat_eq_self)
  then show ?thesis by (simp add: byte_to_char_def char_to_byte_def)
qed

section \<open>Decimal printing (\<open>std::to_string\<close>) and parsing (\<open>std::stoll\<close>, \<open>std::stoi\<close>)\<close>

definition digit_char :: "nat \<Rightarrow> char" where
  "digit_char d = char_of (48 + d)"

definition digit_val :: "char \<Rightarrow> nat" where
  "digit_val c = of_char c - 48"

definition is_digit :: "char \<Rightarrow> bool" where
  "is_digit c \<longleftrightarrow> 48 \<le> (of_char c :: nat) \<and> (of_char c :: nat) \<le> 57"

definition is_space :: "char \<Rightarrow> bool" where
  "is_space c \<longleftrightarrow> (of_char c :: nat) = 32 \<or> 9 \<le> (of_char c :: nat) \<and> (of_char c :: nat) \<le> 13"

fun to_string :: "nat \<Rightarrow> string" where
  "to_string n = (if n < 10 then [digit_char n] else to_string (n div 10) @ [digit_char (n mod 10)])"

declare to_string.simps [simp del]

definition digits_val :: "string \<Rightarrow> nat" where
  "digits_val ds = foldl (\<lambda>a c. a * 10 + digit_val c) 0 ds"

text \<open>
  \<open>strtoll\<close>/\<open>strtol\<close> skip white space, take an optional sign and the longest run of digits;
  \<open>std::stoll\<close> and \<open>std::stoi\<close> throw when there is no digit or the value does not fit.
\<close>

definition parse_dec :: "string \<Rightarrow> int option" where
  "parse_dec s =
     (let s1 = dropWhile is_space s;
          (neg, s2) = (case s1 of [] \<Rightarrow> (False, [])
                       | c # cs \<Rightarrow> if c = CHR ''-'' then (True, cs)
                                  else if c = CHR ''+'' then (False, cs) else (False, c # cs));
          ds = takeWhile is_digit s2
      in if ds = [] then None
         else Some (if neg then - int (digits_val ds) else int (digits_val ds)))"

definition stoll :: "string \<Rightarrow> int option" where
  "stoll s = (case parse_dec s of None \<Rightarrow> None
              | Some v \<Rightarrow> if - (2 ^ 63) \<le> v \<and> v < 2 ^ 63 then Some v else None)"

definition stoi :: "string \<Rightarrow> int option" where
  "stoi s = (case parse_dec s of None \<Rightarrow> None
             | Some v \<Rightarrow> if - (2 ^ 31) \<le> v \<and> v < 2 ^ 31 then Some v else None)"

lemma digit_char_props [simp]:
  assumes "d < 10"
  shows "is_digit (digit_char d)" "digit_val (digit_char d) = d"
    "\<not> is_space (digit_char d)" "digit_char d \<noteq> CHR ''-''" "digit_char d \<noteq> CHR ''+''"
proof -
  have *: "(of_char (digit_char d) :: nat) = 48 + d"
    using assms by (simp add: digit_char_def)
  show "is_digit (digit_char d)" "digit_val (digit_char d) = d" "\<not> is_space (digit_char d)"
    using * assms by (simp_all add: is_digit_def digit_val_def is_space_def)
  have "(of_char (digit_char d) :: nat) \<noteq> of_char (CHR ''-'')"
       "(of_char (digit_char d) :: nat) \<noteq> of_char (CHR ''+'')"
    using * by simp_all
  then show "digit_char d \<noteq> CHR ''-''" "digit_char d \<noteq> CHR ''+''" by metis+
qed

lemma to_string_digits [str_conv]: "c \<in> set (to_string n) \<Longrightarrow> \<exists>d<10. c = digit_char d"
proof (induction n rule: to_string.induct)
  case (1 n)
  have "n mod 10 < 10" by simp
  with "1" show ?case
    by (cases "n < 10") (auto simp: to_string.simps [of n] simp del: mod_less_divisor)
qed

lemma to_string_nonempty [simp]: "to_string n \<noteq> []"
  by (subst to_string.simps) simp

lemma digits_val_snoc: "digits_val (xs @ [c]) = digits_val xs * 10 + digit_val c"
  by (simp add: digits_val_def)

lemma digits_val_to_string [simp]: "digits_val (to_string n) = n"
proof (induction n rule: to_string.induct)
  case (1 n)
  show ?case
  proof (cases "n < 10")
    case True
    then show ?thesis by (simp add: to_string.simps [of n] digits_val_def)
  next
    case False
    with "1.IH" show ?thesis
      by (simp add: to_string.simps [of n] digits_val_snoc)
  qed
qed

lemma parse_dec_to_string [str_conv]: "parse_dec (to_string n) = Some (int n)"
proof -
  obtain c cs where s: "to_string n = c # cs" by (cases "to_string n") auto
  have all: "\<forall>x \<in> set (to_string n). is_digit x"
    by (auto dest: to_string_digits)
  moreover have "\<exists>d<10. c = digit_char d"
    using to_string_digits [of c n] s by simp
  ultimately have "dropWhile is_space (to_string n) = to_string n" "c \<noteq> CHR ''-''" "c \<noteq> CHR ''+''"
    using s by auto
  moreover have "takeWhile is_digit (to_string n) = to_string n"
    using all by (simp add: takeWhile_eq_all_conv)
  ultimately show ?thesis
    using s digits_val_to_string [of n] by (simp add: parse_dec_def)
qed

lemma stoll_to_string [str_conv]: "n < 2 ^ 63 \<Longrightarrow> stoll (to_string n) = Some (int n)"
  by (simp add: stoll_def parse_dec_to_string)

lemma stoi_to_string [str_conv]: "n < 2 ^ 31 \<Longrightarrow> stoi (to_string n) = Some (int n)"
  by (simp add: stoi_def parse_dec_to_string)

lemma to_string_inj [simp]: "to_string m = to_string n \<longleftrightarrow> m = n"
  by (metis digits_val_to_string)

section \<open>First-match searches\<close>

text \<open>The position of the first element that satisfies a condition (\<open>std::find_if\<close>).\<close>

fun find_index :: "('a \<Rightarrow> bool) \<Rightarrow> 'a list \<Rightarrow> nat option" where
  "find_index P [] = None"
| "find_index P (x # xs) = (if P x then Some 0 else map_option Suc (find_index P xs))"

text \<open>Change the first element that satisfies a condition.\<close>

fun update_first :: "('a \<Rightarrow> bool) \<Rightarrow> ('a \<Rightarrow> 'a) \<Rightarrow> 'a list \<Rightarrow> 'a list" where
  "update_first P f [] = []"
| "update_first P f (x # xs) = (if P x then f x # xs else x # update_first P f xs)"

text \<open>Remove the first element that satisfies a condition.\<close>

fun remove_first :: "('a \<Rightarrow> bool) \<Rightarrow> 'a list \<Rightarrow> 'a list" where
  "remove_first P [] = []"
| "remove_first P (x # xs) = (if P x then xs else x # remove_first P xs)"

lemma find_index_None [search_simps]: "find_index P xs = None \<longleftrightarrow> (\<forall>x \<in> set xs. \<not> P x)"
  by (induction xs) auto

lemma find_index_Some:
  "find_index P xs = Some i \<Longrightarrow> i < length xs \<and> P (xs ! i) \<and> (\<forall>j<i. \<not> P (xs ! j))"
proof (induction xs arbitrary: i)
  case Nil
  then show ?case by simp
next
  case (Cons x xs)
  show ?case
  proof (cases "P x")
    case True
    with Cons.prems show ?thesis by simp
  next
    case False
    with Cons.prems obtain k where k: "find_index P xs = Some k" "i = Suc k" by auto
    with Cons.IH [OF k(1)] False show ?thesis
      by (auto simp: less_Suc_eq_0_disj)
  qed
qed

lemma length_update_first [simp]: "length (update_first P f xs) = length xs"
  by (induction xs) auto

lemma map_update_first [simp]:
  "(\<And>x. P x \<Longrightarrow> g (f x) = g x) \<Longrightarrow> map g (update_first P f xs) = map g xs"
  by (induction xs) auto

lemma find_update_first [search_simps]:
  "(\<And>x. P x \<Longrightarrow> P (f x)) \<Longrightarrow> find P (update_first P f xs) = map_option f (find P xs)"
  by (induction xs) auto

lemma find_update_first_other [search_simps]:
  "(\<And>x. P x \<Longrightarrow> \<not> Q x) \<Longrightarrow> (\<And>x. P x \<Longrightarrow> \<not> Q (f x)) \<Longrightarrow>
     find Q (update_first P f xs) = find Q xs"
  by (induction xs) auto

lemma find_remove_first_other [search_simps]:
  "(\<And>x. P x \<Longrightarrow> \<not> Q x) \<Longrightarrow> find Q (remove_first P xs) = find Q xs"
  by (induction xs) auto

lemma find_append [search_simps]:
  "find P (xs @ ys) = (case find P xs of None \<Rightarrow> find P ys | Some x \<Rightarrow> Some x)"
  by (induction xs) auto

lemma find_SomeD: "find P xs = Some x \<Longrightarrow> P x \<and> x \<in> set xs"
  by (induction xs) (auto split: if_splits)

lemma set_remove_first_subset: "set (remove_first P xs) \<subseteq> set xs"
  by (induction xs) auto

lemma length_remove_first:
  "length (remove_first P xs) = (if \<exists>x \<in> set xs. P x then length xs - 1 else length xs)"
  by (induction xs) (auto simp: Suc_diff_1 dest: length_pos_if_in_set)

section \<open>Loops that may fail\<close>

text \<open>A \<open>for\<close> loop over a sequence whose body may throw.\<close>

fun fold_opt :: "('a \<Rightarrow> 's \<Rightarrow> 's option) \<Rightarrow> 'a list \<Rightarrow> 's \<Rightarrow> 's option" where
  "fold_opt f [] s = Some s"
| "fold_opt f (x # xs) s = do { s' \<leftarrow> f x s; fold_opt f xs s' }"

lemma fold_opt_append: "fold_opt f (xs @ ys) s = Option.bind (fold_opt f xs s) (fold_opt f ys)"
proof (induction xs arbitrary: s)
  case (Cons x xs)
  then show ?case by (cases "f x s") auto
qed simp

lemma fold_opt_invariant:
  assumes "fold_opt f xs s = Some s'" "I s" "\<And>x s s'. x \<in> set xs \<Longrightarrow> I s \<Longrightarrow> f x s = Some s' \<Longrightarrow> I s'"
  shows "I s'"
  using assms
proof (induction xs arbitrary: s)
  case (Cons x xs)
  from Cons.prems(1) obtain t where t: "f x s = Some t" "fold_opt f xs t = Some s'"
    by (auto split: Option.bind_splits)
  have "I t" using Cons.prems(3) [OF _ Cons.prems(2) t(1)] by simp
  then show ?case using Cons.IH [OF t(2)] Cons.prems(3) by (meson list.set_intros(2))
qed simp

text \<open>The same with the prefix that led to each step.\<close>

lemma fold_opt_prefix_invariant:
  assumes "fold_opt f xs s = Some s'" "I s"
    "\<And>ys x zs s1 s2. xs = ys @ x # zs \<Longrightarrow> fold_opt f ys s = Some s1 \<Longrightarrow> I s1 \<Longrightarrow> f x s1 = Some s2 \<Longrightarrow> I s2"
  shows "I s'"
  using assms
proof (induction xs arbitrary: s' rule: rev_induct)
  case (snoc x xs)
  obtain t where t: "fold_opt f xs s = Some t" "f x t = Some s'"
    using snoc.prems(1) by (auto simp: fold_opt_append bind_eq_Some_conv)
  have "I t" using snoc.prems(3) by (intro snoc.IH [OF t(1) snoc.prems(2)]) auto
  then show ?case using snoc.prems(3) [of xs x "[]"] t by simp
qed simp

lemma fold_opt_total:
  assumes "I s" "\<And>x s. x \<in> set xs \<Longrightarrow> I s \<Longrightarrow> \<exists>s'. f x s = Some s' \<and> I s'"
  shows "\<exists>s'. fold_opt f xs s = Some s' \<and> I s'"
  using assms
proof (induction xs arbitrary: s)
  case (Cons x xs)
  obtain t where "f x s = Some t" "I t" using Cons.prems(2) [of x s] Cons.prems(1) by auto
  with Cons.IH [of t] Cons.prems(2) show ?case by simp
qed simp

section \<open>Interfaces\<close>

text \<open>A component whose operations, given as events, all keep an invariant.\<close>

locale invariant_machine =
  fixes step :: "'e \<Rightarrow> 's \<Rightarrow> 's" and inv :: "'s \<Rightarrow> bool"
  assumes step_keeps: "inv s \<Longrightarrow> inv (step e s)"
begin

lemma run_keeps: "inv s \<Longrightarrow> inv (fold step es s)"
  by (induction es arbitrary: s) (auto intro: step_keeps)

end

text \<open>An encoding of values into a fixed number of bytes that can be read back.\<close>

locale fixed_codec =
  fixes enc :: "'a \<Rightarrow> bytes" and dec :: "bytes \<Rightarrow> 'a" and width :: nat and dom_ok :: "'a \<Rightarrow> bool"
  assumes enc_length: "length (enc x) = width"
    and dec_enc: "dom_ok x \<Longrightarrow> dec (enc x) = x"
begin

lemma dec_take_enc: "dom_ok x \<Longrightarrow> dec (take width (enc x @ rest)) = x"
  by (simp add: enc_length dec_enc)

lemma drop_enc: "drop width (enc x @ rest) = rest"
  by (simp add: enc_length)

lemma enc_inj: "dom_ok x \<Longrightarrow> dom_ok y \<Longrightarrow> enc x = enc y \<Longrightarrow> x = y"
  by (metis dec_enc)

lemma enc_append_inj:
  "dom_ok x \<Longrightarrow> dom_ok y \<Longrightarrow> enc x @ r = enc y @ s \<Longrightarrow> x = y \<and> r = s"
  by (metis append_eq_append_conv enc_length enc_inj)

end

end
