(* ===== verification/Chain_Types.thy ===== *)
theory Chain_Types
  imports Prelude
begin

text \<open>
  The data types of \<open>src/chain/types.hpp\<close>, \<open>src/chain/message.hpp\<close>,
  \<open>src/chain/signature.hpp\<close>, \<open>src/chain/signer.hpp\<close> and the constants of
  \<open>src/config/config.hpp\<close>. An \<open>enum class\<close> with an explicit \<open>uint8_t\<close> representation can hold any
  byte after a \<open>static_cast\<close>, so those types have one more constructor for the bytes that
  are not enumerators.
\<close>

section \<open>Identifiers and sizes\<close>

type_synonym hash_t = bytes
type_synonym timestamp_t = u64
type_synonym tx_id_type = bytes
type_synonym localchain_id_type = bytes
type_synonym block_height_type = u64
type_synonym block_id_type = bytes
type_synonym signature_type = bytes
type_synonym id_type = bytes
type_synonym merger_id_type = bytes
type_synonym signer_id_type = bytes
type_synonym content_type = string
type_synonym block_layer_t = "string list"

definition TRANSACTION_ID_TYPE_SIZE :: nat where "TRANSACTION_ID_TYPE_SIZE = 32"
definition CHAIN_ID_TYPE_SIZE :: nat where "CHAIN_ID_TYPE_SIZE = 8"

section \<open>Enumerations\<close>

datatype BpStatus = IN_BOOT_WAIT | IDLE | PRIMARY | SECONDARY | ERROR_ON_SIGNERS | BP_UNKNOWN

datatype TransactionType = DIGESTS | CERTIFICATES | IMMORTALSMS | TX_UNKNOWN

definition TXTYPE_CERTIFICATES :: string where "TXTYPE_CERTIFICATES = ''CERTIFICATES''"
definition TXTYPE_DIGESTS :: string where "TXTYPE_DIGESTS = ''DIGESTS''"
definition TXTYPE_IMMORTALSMS :: string where "TXTYPE_IMMORTALSMS = ''IMMORTALSMS''"

fun TX_TYPE_TO_STRING :: "TransactionType \<Rightarrow> string" where
  "TX_TYPE_TO_STRING DIGESTS = TXTYPE_DIGESTS"
| "TX_TYPE_TO_STRING CERTIFICATES = TXTYPE_CERTIFICATES"
| "TX_TYPE_TO_STRING IMMORTALSMS = TXTYPE_IMMORTALSMS"
| "TX_TYPE_TO_STRING TX_UNKNOWN = ''UNKNOWN''"

datatype MessageType =
    MSG_NULL | MSG_UP | MSG_PING | MSG_REQ_BLOCK | MSG_WELCOME | MSG_REQ_STATUS | MSG_RES_STATUS
  | MSG_JOIN | MSG_CHALLENGE | MSG_RESPONSE_1 | MSG_RESPONSE_2 | MSG_SUCCESS | MSG_ACCEPT | MSG_LEAVE
  | MSG_JOIN_MERGER | MSG_NETWORK_INFO | MSG_CHAIN_INFO
  | MSG_TX | MSG_REQ_SSIG | MSG_SSIG | MSG_BLOCK | MSG_HEADER | MSG_ERROR
  | MSG_REQ_CHECK | MSG_REQ_HEADER | MSG_RES_CHECK
  | MSG_RAW byte

definition msg_codes :: "(byte \<times> MessageType) list" where
  "msg_codes =
    [(0x00, MSG_NULL), (0x30, MSG_UP), (0x31, MSG_PING), (0x32, MSG_REQ_BLOCK),
     (0x35, MSG_WELCOME), (0x33, MSG_REQ_STATUS), (0x34, MSG_RES_STATUS), (0x54, MSG_JOIN),
     (0x55, MSG_CHALLENGE), (0x56, MSG_RESPONSE_1), (0x57, MSG_RESPONSE_2), (0x58, MSG_SUCCESS),
     (0x59, MSG_ACCEPT), (0x5B, MSG_LEAVE), (0x70, MSG_JOIN_MERGER), (0x71, MSG_NETWORK_INFO),
     (0x72, MSG_CHAIN_INFO), (0xB1, MSG_TX), (0xB2, MSG_REQ_SSIG), (0xB3, MSG_SSIG),
     (0xB4, MSG_BLOCK), (0xB5, MSG_HEADER), (0xFF, MSG_ERROR), (0xC0, MSG_REQ_CHECK),
     (0xE0, MSG_REQ_HEADER), (0xC1, MSG_RES_CHECK)]"

definition msg_of_byte :: "byte \<Rightarrow> MessageType" where
  "msg_of_byte b = (case map_of msg_codes b of Some t \<Rightarrow> t | None \<Rightarrow> MSG_RAW b)"

fun msg_to_byte :: "MessageType \<Rightarrow> byte" where
  "msg_to_byte MSG_NULL = 0x00" | "msg_to_byte MSG_UP = 0x30" | "msg_to_byte MSG_PING = 0x31"
| "msg_to_byte MSG_REQ_BLOCK = 0x32" | "msg_to_byte MSG_WELCOME = 0x35"
| "msg_to_byte MSG_REQ_STATUS = 0x33" | "msg_to_byte MSG_RES_STATUS = 0x34"
| "msg_to_byte MSG_JOIN = 0x54" | "msg_to_byte MSG_CHALLENGE = 0x55"
| "msg_to_byte MSG_RESPONSE_1 = 0x56" | "msg_to_byte MSG_RESPONSE_2 = 0x57"
| "msg_to_byte MSG_SUCCESS = 0x58" | "msg_to_byte MSG_ACCEPT = 0x59" | "msg_to_byte MSG_LEAVE = 0x5B"
| "msg_to_byte MSG_JOIN_MERGER = 0x70" | "msg_to_byte MSG_NETWORK_INFO = 0x71"
| "msg_to_byte MSG_CHAIN_INFO = 0x72" | "msg_to_byte MSG_TX = 0xB1" | "msg_to_byte MSG_REQ_SSIG = 0xB2"
| "msg_to_byte MSG_SSIG = 0xB3" | "msg_to_byte MSG_BLOCK = 0xB4" | "msg_to_byte MSG_HEADER = 0xB5"
| "msg_to_byte MSG_ERROR = 0xFF" | "msg_to_byte MSG_REQ_CHECK = 0xC0"
| "msg_to_byte MSG_REQ_HEADER = 0xE0" | "msg_to_byte MSG_RES_CHECK = 0xC1"
| "msg_to_byte (MSG_RAW b) = b"

datatype MACAlgorithmType =
    MAC_RSA | MAC_ECDSA | MAC_EdDSA | MAC_Schnorr | MAC_RSA_PKCS115 | MAC_HMAC | MAC_NONE | MAC_RAW byte

definition mac_codes :: "(byte \<times> MACAlgorithmType) list" where
  "mac_codes = [(0x00, MAC_RSA), (0x01, MAC_ECDSA), (0x02, MAC_EdDSA), (0x03, MAC_Schnorr),
     (0x10, MAC_RSA_PKCS115), (0xF1, MAC_HMAC), (0xFF, MAC_NONE)]"

definition mac_of_byte :: "byte \<Rightarrow> MACAlgorithmType" where
  "mac_of_byte b = (case map_of mac_codes b of Some t \<Rightarrow> t | None \<Rightarrow> MAC_RAW b)"

fun mac_to_byte :: "MACAlgorithmType \<Rightarrow> byte" where
  "mac_to_byte MAC_RSA = 0x00" | "mac_to_byte MAC_ECDSA = 0x01" | "mac_to_byte MAC_EdDSA = 0x02"
| "mac_to_byte MAC_Schnorr = 0x03" | "mac_to_byte MAC_RSA_PKCS115 = 0x10"
| "mac_to_byte MAC_HMAC = 0xF1" | "mac_to_byte MAC_NONE = 0xFF" | "mac_to_byte (MAC_RAW b) = b"

datatype CompressionAlgorithmType = COMP_LZ4 | COMP_MessagePack | COMP_CBOR | COMP_NONE | COMP_RAW byte

definition comp_codes :: "(byte \<times> CompressionAlgorithmType) list" where
  "comp_codes = [(0x04, COMP_LZ4), (0x05, COMP_MessagePack), (0x06, COMP_CBOR), (0xFF, COMP_NONE)]"

definition comp_of_byte :: "byte \<Rightarrow> CompressionAlgorithmType" where
  "comp_of_byte b = (case map_of comp_codes b of Some t \<Rightarrow> t | None \<Rightarrow> COMP_RAW b)"

fun comp_to_byte :: "CompressionAlgorithmType \<Rightarrow> byte" where
  "comp_to_byte COMP_LZ4 = 0x04" | "comp_to_byte COMP_MessagePack = 0x05"
| "comp_to_byte COMP_CBOR = 0x06" | "comp_to_byte COMP_NONE = 0xFF" | "comp_to_byte (COMP_RAW b) = b"

datatype ErrorMsgType =
    ERR_UNKNOWN | MERGER_BOOTSTRAP | ECDH_ILLEGAL_ACCESS | ECDH_MAX_SIGNER_POOL | ECDH_TIMEOUT
  | ECDH_INVALID_SIG | ECDH_INVALID_PK | TIME_SYNC | BSYNC_NO_BLOCK | NO_SUCH_BLOCK

fun error_code :: "ErrorMsgType \<Rightarrow> nat" where
  "error_code ERR_UNKNOWN = 0" | "error_code MERGER_BOOTSTRAP = 11"
| "error_code ECDH_ILLEGAL_ACCESS = 21" | "error_code ECDH_MAX_SIGNER_POOL = 22"
| "error_code ECDH_TIMEOUT = 23" | "error_code ECDH_INVALID_SIG = 24"
| "error_code ECDH_INVALID_PK = 25" | "error_code TIME_SYNC = 61"
| "error_code BSYNC_NO_BLOCK = 88" | "error_code NO_SUCH_BLOCK = 89"

datatype SignerStatus = SIGNER_UNKNOWN | TEMPORARY | SIGNER_ERROR | GOOD

datatype DBType = BLOCK_HEADER | BLOCK_HEIGHT | BLOCK_RAW | BLOCK_LATEST | TRANSACTION | LEDGER | BLOCK_BACKUP

datatype ExitCode =
    EXIT_NORMAL | ERROR_ABORT | ERROR_COMMON | ERROR_SYNC_ALONE | ERROR_SYNC_FAIL
  | ERROR_SKIP_STAGE | BLOCK_HEALTH_SKIP | ERROR_BLOCK_HEALTH_SKIP

section \<open>Structures\<close>

record proof_type =
  proof_block_id_b64 :: string
  siblings :: "(bool \<times> string) list"

record nth_link_type =
  link_id :: block_id_type
  link_prev_id :: block_id_type
  link_hash :: hash_t
  link_prev_hash :: hash_t
  link_height :: block_height_type
  link_time :: timestamp_t

record unblk_push_result_type =
  res_linked :: bool
  res_duplicated :: bool
  res_height :: block_height_type
  res_block_layer :: block_layer_t

record Signature =
  sig_signer_id :: signer_id_type
  sig_signer_signature :: signature_type
  sig_height :: block_height_type

record Signer =
  user_id :: signer_id_type
  pk_cert :: string
  hmac_key :: bytes
  last_update :: timestamp_t
  signer_status :: SignerStatus

section \<open>Configuration\<close>

definition DEFAULT_VERSION :: u32 where "DEFAULT_VERSION = 1"
definition MAX_SIGNER_NUM :: nat where "MAX_SIGNER_NUM = 200"
definition AVAILABLE_INPUT_SIZE :: nat where "AVAILABLE_INPUT_SIZE = 1000"
definition MAX_MERKLE_LEAVES :: nat where "MAX_MERKLE_LEAVES = 4096"
definition MAX_COLLECT_TRANSACTION_SIZE :: nat where "MAX_COLLECT_TRANSACTION_SIZE = 4096"
definition BLOCK_CONFIRM_LEVEL :: nat where "BLOCK_CONFIRM_LEVEL = 3"
definition MIN_SIGNATURE_COLLECT_SIZE :: nat where "MIN_SIGNATURE_COLLECT_SIZE = 1"
definition MAX_SIGNATURE_COLLECT_SIZE :: nat where "MAX_SIGNATURE_COLLECT_SIZE = 20"
definition MAX_UNICAST_MISSING_BLOCK :: nat where "MAX_UNICAST_MISSING_BLOCK = 4"
definition BP_INTERVAL :: u64 where "BP_INTERVAL = 10"
definition BROC_PROCESSOR_REQ_WAIT :: u64 where "BROC_PROCESSOR_REQ_WAIT = 3"
definition JOIN_TIMEOUT_SEC :: u64 where "JOIN_TIMEOUT_SEC = 10"
definition TIME_MAX_DIFF_SEC :: u64 where "TIME_MAX_DIFF_SEC = 3"
definition DEFAULT_PORT_NUM :: string where "DEFAULT_PORT_NUM = ''50051''"
definition GENESIS_BLOCK_PREV_HASH_B64 :: string where
  "GENESIS_BLOCK_PREV_HASH_B64 = ''AAAAAAAAAAAAAAAAAAAAAAAAAAAAAAAAAAAAAAAAAAA=''"
definition GENESIS_BLOCK_PREV_ID_B64 :: string where
  "GENESIS_BLOCK_PREV_ID_B64 = ''AAAAAAAAAAAAAAAAAAAAAAAAAAAAAAAAAAAAAAAAAAA=''"

section \<open>Codes read back\<close>

text \<open>The codes are pairwise different, so writing an enumerator to a header byte and casting
  the byte back gives the enumerator.\<close>

lemma msg_of_to_byte: "(\<nexists>b. t = MSG_RAW b) \<Longrightarrow> msg_of_byte (msg_to_byte t) = t"
  by (cases t) (simp_all add: msg_of_byte_def msg_codes_def)

lemma mac_of_to_byte: "(\<nexists>b. t = MAC_RAW b) \<Longrightarrow> mac_of_byte (mac_to_byte t) = t"
  by (cases t) (simp_all add: mac_of_byte_def mac_codes_def)

lemma comp_of_to_byte: "(\<nexists>b. t = COMP_RAW b) \<Longrightarrow> comp_of_byte (comp_to_byte t) = t"
  by (cases t) (simp_all add: comp_of_byte_def comp_codes_def)

lemma error_code_inj: "error_code a = error_code b \<Longrightarrow> a = b"
  by (cases a; cases b) simp_all

lemma TX_TYPE_TO_STRING_inj: "TX_TYPE_TO_STRING a = TX_TYPE_TO_STRING b \<Longrightarrow> a = b"
  by (cases a; cases b) (simp_all add: TXTYPE_CERTIFICATES_def TXTYPE_DIGESTS_def TXTYPE_IMMORTALSMS_def)

end
