(* ===== verification/Json.thy ===== *)
theory Json
  imports Chain_Types
begin

text \<open>
  JSON values as the sources use \<open>nlohmann::json\<close>, and the third-party routines the program
  only calls. An object is a \<open>std::map\<close>, so its members are kept in key order. The operations
  modelled are those the sources call; where the library throws, the result is \<^const>\<open>None\<close>.

  The serialisers (\<open>dump\<close>, \<open>parse\<close>, \<open>to_cbor\<close>, \<open>from_cbor\<close>), Botan (Base64, SHA-256, ECDSA, X.509,
  HMAC) and LZ4 are parameters: the fields of the record \<open>ext\<close>, passed to every definition that
  uses them. The documented laws a theorem relies on are the named predicates below.
\<close>

section \<open>Values\<close>

datatype json =
    JNull
  | JBool bool
  | JNum int
  | JStr string
  | JArr "json list"
  | JObj "(string \<times> json) list"

fun is_array :: "json \<Rightarrow> bool" where
  "is_array (JArr _) = True" | "is_array _ = False"

fun is_string :: "json \<Rightarrow> bool" where
  "is_string (JStr _) = True" | "is_string _ = False"

fun is_boolean :: "json \<Rightarrow> bool" where
  "is_boolean (JBool _) = True" | "is_boolean _ = False"

text \<open>\<open>empty()\<close> holds of null and of containers without elements; a scalar is never empty.\<close>

fun json_empty :: "json \<Rightarrow> bool" where
  "json_empty JNull = True"
| "json_empty (JArr xs) = (xs = [])"
| "json_empty (JObj kvs) = (kvs = [])"
| "json_empty _ = False"

fun json_size :: "json \<Rightarrow> nat" where
  "json_size JNull = 0"
| "json_size (JArr xs) = length xs"
| "json_size (JObj kvs) = length kvs"
| "json_size _ = 1"

text \<open>The elements a range-based \<open>for\<close> visits.\<close>

fun json_elems :: "json \<Rightarrow> json list" where
  "json_elems JNull = []"
| "json_elems (JArr xs) = xs"
| "json_elems (JObj kvs) = map snd kvs"
| "json_elems j = [j]"

text \<open>\<open>find(key)\<close>: on anything but an object the end iterator.\<close>

fun json_find :: "json \<Rightarrow> string \<Rightarrow> json option" where
  "json_find (JObj kvs) k = map_of kvs k"
| "json_find _ k = None"

text \<open>The non-const \<open>operator[]\<close> with a key: null becomes an object, a missing member is added
  as null, and any other kind of value throws. The value read is modelled by \<open>json_at\<close>.\<close>

fun json_at :: "json \<Rightarrow> string \<Rightarrow> json option" where
  "json_at JNull k = Some JNull"
| "json_at (JObj kvs) k = Some (case map_of kvs k of None \<Rightarrow> JNull | Some v \<Rightarrow> v)"
| "json_at _ k = None"

fun ins_member :: "string \<Rightarrow> 'a \<Rightarrow> (string \<times> 'a) list \<Rightarrow> (string \<times> 'a) list" where
  "ins_member k v [] = [(k, v)]"
| "ins_member k v ((k', v') # kvs) =
     (if k = k' then (k, v) # kvs
      else if k < k' then (k, v) # (k', v') # kvs
      else (k', v') # ins_member k v kvs)"

text \<open>An object written from a list of assignments \<open>j[k] = v\<close>, in order.\<close>

definition json_obj :: "(string \<times> json) list \<Rightarrow> json" where
  "json_obj kvs = JObj (fold (\<lambda>(k, v). ins_member k v) kvs [])"

fun json_erase :: "string \<Rightarrow> json \<Rightarrow> json" where
  "json_erase k (JObj kvs) = JObj (filter (\<lambda>(k', _). k' \<noteq> k) kvs)"
| "json_erase k j = j"

text \<open>\<open>erase(key)\<close> throws on anything but an object.\<close>

fun json_erase_key :: "string \<Rightarrow> json \<Rightarrow> json option" where
  "json_erase_key k (JObj kvs) = Some (json_erase k (JObj kvs))"
| "json_erase_key k _ = None"

text \<open>\<open>get<std::string>()\<close> throws on anything but a string.\<close>

fun get_string :: "json \<Rightarrow> string option" where
  "get_string (JStr s) = Some s" | "get_string _ = None"

lemma map_of_ins_member [simp]: "map_of (ins_member k v kvs) k' = (if k' = k then Some v else map_of kvs k')"
  by (induction kvs) auto

lemma map_of_fold_ins:
  "map_of (fold (\<lambda>(k, v). ins_member k v) kvs acc) k =
     (case map_of (rev kvs) k of Some v \<Rightarrow> Some v | None \<Rightarrow> map_of acc k)"
  by (induction kvs arbitrary: acc) (auto simp: map_add_def split: option.splits)

text \<open>Reading a member of a freshly written object gives the last value assigned to it.\<close>

lemma json_find_obj [simp]: "json_find (json_obj kvs) k = map_of (rev kvs) k"
  by (simp add: json_obj_def map_of_fold_ins split: option.splits)

lemma json_at_obj [simp]:
  "json_at (json_obj kvs) k = Some (case map_of (rev kvs) k of None \<Rightarrow> JNull | Some v \<Rightarrow> v)"
  by (simp add: json_obj_def map_of_fold_ins split: option.splits)

lemma ins_member_keys: "set (map fst (ins_member k v kvs)) = insert k (set (map fst kvs))"
  by (induction k v kvs rule: ins_member.induct) (simp_all add: insert_commute)

lemma ins_member_subset: "set (ins_member k v kvs) \<subseteq> insert (k, v) (set kvs)"
  by (induction k v kvs rule: ins_member.induct) auto

text \<open>Looking up the key of an element of a list whose elements have different keys.\<close>

lemma map_of_keyed:
  assumes "x \<in> set xs" "\<And>y. y \<in> set xs \<Longrightarrow> f y = f x \<Longrightarrow> y = x"
  shows "map_of (map (\<lambda>x. (f x, g x)) xs) (f x) = Some (g x)"
  using assms by (induction xs) (auto, metis)

lemma map_of_keyed_rev:
  assumes "x \<in> set xs" "inj_on f (set xs)"
  shows "map_of (rev (map (\<lambda>x. (f x, g x)) xs)) (f x) = Some (g x)"
  unfolding rev_map using assms by (intro map_of_keyed) (auto dest: inj_onD)

lemma ins_member_sorted:
  "sorted_wrt (<) (map fst kvs) \<Longrightarrow> sorted_wrt (<) (map fst (ins_member k v kvs))"
proof (induction kvs)
  case Nil
  then show ?case by simp
next
  case (Cons x kvs)
  obtain k' v' where x: "x = (k', v')" by (cases x)
  consider "k = k'" | "k < k'" | "k' < k" by (meson linorder_less_linear)
  then show ?case
  proof cases
    case 3
    with Cons x have "sorted_wrt (<) (map fst (ins_member k v kvs))" by simp
    moreover have "\<forall>y \<in> set (map fst (ins_member k v kvs)). k' < y"
      using Cons.prems 3 x ins_member_keys [of k v kvs] by auto
    ultimately show ?thesis using 3 x by auto
  qed (use Cons.prems x in \<open>auto intro: less_trans\<close>)
qed

lemma ins_member_same: "sorted_wrt (<) (map fst kvs) \<Longrightarrow> map_of kvs k = Some v \<Longrightarrow> ins_member k v kvs = kvs"
proof (induction kvs)
  case (Cons x kvs)
  obtain k' v' where x: "x = (k', v')" by (cases x)
  show ?case
  proof (cases "k = k'")
    case False
    then have kv: "map_of kvs k = Some v" using Cons.prems(2) x by simp
    then have "k' < k" using Cons.prems(1) x by (auto dest!: map_of_SomeD)
    then show ?thesis using Cons.IH [OF _ kv] Cons.prems(1) x False by (auto simp: less_not_sym)
  qed (use Cons.prems x in simp)
qed simp

text \<open>Members are kept in strictly increasing key order, as in \<open>std::map\<close>.\<close>

lemma json_obj_sorted: "json_obj kvs = JObj ms \<Longrightarrow> sorted_wrt (<) (map fst ms)"
proof -
  have "sorted_wrt (<) (map fst acc) \<Longrightarrow>
      sorted_wrt (<) (map fst (fold (\<lambda>(k, v). ins_member k v) kvs acc))" for acc
    by (induction kvs arbitrary: acc) (auto simp: ins_member_sorted)
  from this [of "[]"] show "json_obj kvs = JObj ms \<Longrightarrow> sorted_wrt (<) (map fst ms)"
    by (auto simp: json_obj_def)
qed

section \<open>Third-party routines\<close>

record x509 =
  not_before :: u64
  not_after :: u64
  serial_number :: bytes

record ext =
  base64_encode :: "bytes \<Rightarrow> string"
  base64_decode :: "string \<Rightarrow> bytes option"
  sha256 :: "bytes \<Rightarrow> bytes"
  ecdsa_sign :: "string \<Rightarrow> string \<Rightarrow> bytes \<Rightarrow> bytes option"
  ecdsa_verify :: "string \<Rightarrow> bytes \<Rightarrow> bytes \<Rightarrow> bool option"
  hmac_sha256 :: "bytes \<Rightarrow> bytes \<Rightarrow> bytes"
  x509_parse :: "string \<Rightarrow> x509 option"
  json_dump :: "json \<Rightarrow> string"
  json_parse :: "string \<Rightarrow> json option"
  to_cbor :: "json \<Rightarrow> bytes"
  from_cbor :: "bytes \<Rightarrow> json option"
  to_msgpack :: "json \<Rightarrow> bytes"
  from_msgpack :: "bytes \<Rightarrow> json option"
  lz4_compress :: "bytes \<Rightarrow> bytes"
  lz4_decompress_safe :: "bytes \<Rightarrow> nat \<Rightarrow> int \<times> bytes"

text \<open>Base64: decoding inverts encoding, and only the empty sequence encodes to the empty string.\<close>

definition base64_law :: "ext \<Rightarrow> bool" where
  "base64_law E \<longleftrightarrow>
     (\<forall>b. base64_decode E (base64_encode E b) = Some b) \<and> base64_encode E [] = []"

text \<open>The CBOR and text serialisers of \<open>nlohmann::json\<close> read back what they wrote. The laws idealise them: \<open>dump\<close> throws on a
  string that is not UTF-8, which no function of this type shows. The values the sources dump have strings that are Base64, decimal
  numbers, addresses and certificates, and what other nodes sent as JSON text.\<close>

definition cbor_law :: "ext \<Rightarrow> bool" where
  "cbor_law E \<longleftrightarrow> (\<forall>j. from_cbor E (to_cbor E j) = Some j \<and> to_cbor E j \<noteq> [])"

definition dump_law :: "ext \<Rightarrow> bool" where
  "dump_law E \<longleftrightarrow> (\<forall>j. json_parse E (json_dump E j) = Some j \<and> json_dump E j \<noteq> [])"

text \<open>A signature made with a secret key verifies under the certificate of the matching public
  key; \<open>key_pair\<close> relates a secret key and its pass phrase to a certificate.\<close>

definition key_pair :: "ext \<Rightarrow> string \<Rightarrow> string \<Rightarrow> string \<Rightarrow> bool" where
  "key_pair E sk pass pk \<longleftrightarrow>
     (\<forall>m. \<exists>sig. ecdsa_sign E sk pass m = Some sig \<and> sig \<noteq> [] \<and> ecdsa_verify E pk m sig = Some True)"

text \<open>SHA-256 digests have 32 bytes.\<close>

definition sha_law :: "ext \<Rightarrow> bool" where
  "sha_law E \<longleftrightarrow> (\<forall>m. length (sha256 E m) = 32)"

text \<open>\<open>LZ4_decompress_safe\<close> gives the number of bytes written and the destination buffer: the
  source when the destination can hold it, and a negative number otherwise.\<close>

definition lz4_law :: "ext \<Rightarrow> bool" where
  "lz4_law E \<longleftrightarrow>
     (\<forall>m cap. case lz4_decompress_safe E (lz4_compress E m) cap of (n, dest) \<Rightarrow>
        if length m \<le> cap then n = int (length m) \<and> take (length m) dest = m else n < 0)"

lemma base64_inj: "base64_law E \<Longrightarrow> base64_encode E a = base64_encode E b \<longleftrightarrow> a = b"
  by (metis base64_law_def option.inject)

lemma base64_empty_iff: "base64_law E \<Longrightarrow> base64_encode E b = [] \<longleftrightarrow> b = []"
  by (metis base64_inj base64_law_def)

end
