(* ===== verification/Utils.thy ===== *)
theory Utils
  imports Json
begin

text \<open>
  The helper classes of \<open>src/utils\<close>: \<open>TypeConverter\<close>, \<open>BytesBuilder\<close>, \<open>Safe\<close>, \<open>Compressor\<close> and the
  verification entry point of \<open>ECDSA\<close>. The lemmas show that the three big-endian integer
  encoders of the sources agree, that a builder in auto-append mode is concatenation, and that
  a fixed-length builder never writes past its length.
\<close>

unbundle bit_operations_syntax

section \<open>\<open>TypeConverter\<close>\<close>

text \<open>\<open>integerToBytes\<close>: eight times push the low byte and shift right, then reverse.\<close>

fun int_to_bytes_loop :: "nat \<Rightarrow> u64 \<Rightarrow> bytes \<Rightarrow> bytes" where
  "int_to_bytes_loop 0 input v = v"
| "int_to_bytes_loop (Suc n) input v =
     int_to_bytes_loop n (drop_bit 8 input) (v @ [ucast (input AND 0xFF)])"

definition integerToBytes :: "u64 \<Rightarrow> bytes" where
  "integerToBytes input = rev (int_to_bytes_loop 8 input [])"

text \<open>
  \<open>bytesToArray<S>\<close> copies at most \<open>S\<close> bytes into an array that is not initialised: the bytes
  that are not copied keep what the memory held (\<open>uninit\<close>).
\<close>

definition bytesToArray :: "nat \<Rightarrow> bytes \<Rightarrow> bytes \<Rightarrow> bytes" where
  "bytesToArray S uninit b =
     (let len = (if S \<le> length b then S else length b)
      in take len b @ drop len (take S uninit))"

definition decodeBase64 :: "ext \<Rightarrow> string \<Rightarrow> bytes" where
  "decodeBase64 E s = (case base64_decode E s of Some b \<Rightarrow> b | None \<Rightarrow> [])"

definition encodeBase64 :: "ext \<Rightarrow> bytes \<Rightarrow> string" where
  "encodeBase64 E b = base64_encode E b"

definition base64ToArray :: "ext \<Rightarrow> nat \<Rightarrow> bytes \<Rightarrow> string \<Rightarrow> bytes" where
  "base64ToArray E S uninit s =
     (let decoded_bytes = decodeBase64 E s;
          len = (if S \<le> length decoded_bytes then S else length decoded_bytes)
      in take len decoded_bytes @ drop len (take S uninit))"

definition bytesToString :: "bytes \<Rightarrow> string" where
  "bytesToString b = map byte_to_char b"

definition stringToBytes :: "string \<Rightarrow> bytes" where
  "stringToBytes s = map char_to_byte s"

text \<open>\<open>decimalToBytes\<close>: bytes are written from index 7 downwards while the number is not zero.\<close>

function dec_to_bytes_loop :: "nat \<Rightarrow> u64 \<Rightarrow> bytes \<Rightarrow> bytes" where
  "dec_to_bytes_loop idx t b =
     (if t = 0 then b
      else dec_to_bytes_loop (idx - 1) (drop_bit 8 t) (b[idx := ucast (t AND 0xFF)]))"
  by pat_completeness auto

lemma drop_bit_8_less: "t \<noteq> 0 \<Longrightarrow> unat (drop_bit 8 t) < unat (t :: u64)"
proof -
  assume "t \<noteq> 0"
  then have "0 < unat t" by (simp add: unat_gt_0)
  then show ?thesis by (simp add: drop_bit_eq_div unat_div)
qed

termination dec_to_bytes_loop
  by (relation "measure (\<lambda>(idx, t, b). unat t)") (auto simp: drop_bit_8_less)

declare dec_to_bytes_loop.simps [simp del]

definition decimalToBytes :: "string \<Rightarrow> bytes option" where
  "decimalToBytes str =
     (if str = [] then Some (dec_to_bytes_loop 7 0 (replicate 8 0))
      else do { v \<leftarrow> stoll str; Some (dec_to_bytes_loop 7 (word_of_int v) (replicate 8 0)) })"

section \<open>\<open>BytesBuilder\<close>\<close>

record BytesBuilder =
  m_bytes :: bytes
  m_filled_len :: nat
  m_auto_append :: bool

definition bb_new :: BytesBuilder where
  "bb_new = \<lparr>m_bytes = [], m_filled_len = 0, m_auto_append = True\<rparr>"

definition bb_new_len :: "nat \<Rightarrow> BytesBuilder" where
  "bb_new_len len = \<lparr>m_bytes = replicate len 0, m_filled_len = 0, m_auto_append = False\<rparr>"

definition append_vec_n :: "bytes \<Rightarrow> int \<Rightarrow> BytesBuilder \<Rightarrow> BytesBuilder" where
  "append_vec_n bytes_val len0 bb =
     (let len = (if len0 < 0 \<or> int (length bytes_val) < len0 then length bytes_val else nat len0)
      in if len = 0 then bb
         else if m_auto_append bb then bb\<lparr>m_bytes := m_bytes bb @ take len bytes_val\<rparr>
         else if length (m_bytes bb) \<le> m_filled_len bb then bb
         else if length (m_bytes bb) < m_filled_len bb + len then bb
         else bb\<lparr>m_bytes := take (m_filled_len bb) (m_bytes bb) @ take len bytes_val
                           @ drop (m_filled_len bb + len) (m_bytes bb),
                 m_filled_len := m_filled_len bb + len\<rparr>)"

abbreviation append_vec :: "bytes \<Rightarrow> BytesBuilder \<Rightarrow> BytesBuilder" where
  "append_vec b \<equiv> append_vec_n b (-1)"

text \<open>The loop of \<open>append(uint64_t, len)\<close>: byte \<open>len - i\<close> is bits \<open>8(i-1)..\<close> of the value, for
  \<open>i\<close> from \<open>len\<close> down to 1.\<close>

fun be_bytes :: "nat \<Rightarrow> u64 \<Rightarrow> bytes" where
  "be_bytes 0 w = []"
| "be_bytes (Suc i) w = ucast (drop_bit (8 * i) w AND 0xFF) # be_bytes i w"

definition append_u64_n :: "u64 \<Rightarrow> nat \<Rightarrow> BytesBuilder \<Rightarrow> BytesBuilder" where
  "append_u64_n int_val len0 bb =
     (let len = (if 8 < len0 then 8 else len0)
      in if len = 0 then bb else append_vec (be_bytes len int_val) bb)"

abbreviation append_u64 :: "u64 \<Rightarrow> BytesBuilder \<Rightarrow> BytesBuilder" where
  "append_u64 v \<equiv> append_u64_n v 8"

definition append_u32_n :: "u32 \<Rightarrow> nat \<Rightarrow> BytesBuilder \<Rightarrow> BytesBuilder" where
  "append_u32_n int_val len bb = append_u64_n (ucast int_val) len bb"

definition append_byte :: "byte \<Rightarrow> BytesBuilder \<Rightarrow> BytesBuilder" where
  "append_byte b bb = append_vec [b] bb"

definition append_str_n :: "string \<Rightarrow> int \<Rightarrow> BytesBuilder \<Rightarrow> BytesBuilder" where
  "append_str_n str_val len0 bb =
     (let len = (if len0 < 0 \<or> int (length str_val) < len0 then length str_val else nat len0)
      in if len = 0 then bb else append_vec (stringToBytes (take len str_val)) bb)"

abbreviation append_str :: "string \<Rightarrow> BytesBuilder \<Rightarrow> BytesBuilder" where
  "append_str s \<equiv> append_str_n s (-1)"

definition xdigit_val :: "char \<Rightarrow> nat option" where
  "xdigit_val c = (let n = of_char c :: nat in
     if 48 \<le> n \<and> n \<le> 57 then Some (n - 48)
     else if 65 \<le> n \<and> n \<le> 70 then Some (n - 55)
     else if 97 \<le> n \<and> n \<le> 102 then Some (n - 87) else None)"

definition is_xdigit :: "char \<Rightarrow> bool" where
  "is_xdigit c \<longleftrightarrow> xdigit_val c \<noteq> None"

text \<open>\<open>strtol(s, nullptr, 16)\<close> on the at most two characters \<open>appendHex\<close> passes: white space, a
  sign, then hexadecimal digits; 0 when there is none.\<close>

definition strtol16 :: "string \<Rightarrow> int" where
  "strtol16 s =
     (let s1 = dropWhile is_space s;
          (neg, s2) = (case s1 of [] \<Rightarrow> (False, [])
                       | c # cs \<Rightarrow> if c = CHR ''-'' then (True, cs)
                                  else if c = CHR ''+'' then (False, cs) else (False, c # cs));
          v = foldl (\<lambda>a c. a * 16 + int (the (xdigit_val c))) 0 (takeWhile is_xdigit s2)
      in if neg then - v else v)"

text \<open>\<open>substr(2i, 2)\<close> throws when \<open>2i\<close> is past the end of the string.\<close>

definition hex_bytes :: "string \<Rightarrow> nat \<Rightarrow> bytes option" where
  "hex_bytes s len =
     (if \<forall>i<len. i * 2 \<le> length s
      then Some (map (\<lambda>i. word_of_int (strtol16 (take 2 (drop (i * 2) s)))) [0..<len])
      else None)"

definition appendHex_n :: "string \<Rightarrow> int \<Rightarrow> BytesBuilder \<Rightarrow> BytesBuilder option" where
  "appendHex_n s len0 bb =
     (let len = (if len0 < 0 then length s div 2 else nat len0)
      in if len = 0 then Some bb
         else do { b \<leftarrow> hex_bytes s len; Some (append_vec b bb) })"

abbreviation appendHex :: "string \<Rightarrow> BytesBuilder \<Rightarrow> BytesBuilder option" where
  "appendHex s \<equiv> appendHex_n s (-1)"

text \<open>\<open>(size_t)len\<close> of the default \<open>-1\<close> is clipped to 8 by \<open>append(uint64_t, len)\<close>.\<close>

definition appendDec :: "string \<Rightarrow> BytesBuilder \<Rightarrow> BytesBuilder option" where
  "appendDec s bb = do { v \<leftarrow> stoi s; Some (append_u64_n (word_of_int v) (2 ^ 64 - 1) bb) }"

definition appendB64 :: "ext \<Rightarrow> string \<Rightarrow> BytesBuilder \<Rightarrow> BytesBuilder" where
  "appendB64 E s bb = append_vec (decodeBase64 E s) bb"

definition getBytes :: "BytesBuilder \<Rightarrow> bytes" where
  "getBytes bb =
     (if m_auto_append bb \<or> m_filled_len bb = length (m_bytes bb) then m_bytes bb
      else take (m_filled_len bb) (m_bytes bb))"

definition bb_getString :: "BytesBuilder \<Rightarrow> string" where
  "bb_getString bb =
     (if m_auto_append bb then bytesToString (m_bytes bb)
      else bytesToString (take (m_filled_len bb) (m_bytes bb)))"

definition bb_clear :: "BytesBuilder \<Rightarrow> BytesBuilder" where
  "bb_clear bb = \<lparr>m_bytes = [], m_filled_len = 0, m_auto_append = True\<rparr>"

text \<open>\<open>std::vector::resize\<close> truncates or pads with zero bytes.\<close>

definition bb_setLength :: "nat \<Rightarrow> BytesBuilder \<Rightarrow> BytesBuilder" where
  "bb_setLength len bb =
     bb\<lparr>m_bytes := take len (m_bytes bb) @ replicate (len - length (m_bytes bb)) 0,
        m_auto_append := False\<rparr>"

section \<open>\<open>Safe\<close>\<close>

definition parseJson :: "ext \<Rightarrow> string \<Rightarrow> json" where
  "parseJson E s = (if s = [] then JNull else case json_parse E s of Some j \<Rightarrow> j | None \<Rightarrow> JNull)"

definition parseJsonAsArray :: "ext \<Rightarrow> string \<Rightarrow> json" where
  "parseJsonAsArray E s = (let j = parseJson E s in if is_array j then j else JArr [])"

definition getString :: "json \<Rightarrow> string" where
  "getString j = (if json_empty j then [] else case get_string j of Some s \<Rightarrow> s | None \<Rightarrow> [])"

definition getStringK :: "json \<Rightarrow> string \<Rightarrow> string" where
  "getStringK j key = (case json_find j key of None \<Rightarrow> [] | Some v \<Rightarrow> getString v)"

fun getStringI :: "json \<Rightarrow> nat \<Rightarrow> string" where
  "getStringI (JArr xs) idx =
     (if xs \<noteq> [] \<and> idx + 1 \<le> length xs
      then case get_string (xs ! idx) of Some s \<Rightarrow> s | None \<Rightarrow> [] else [])"
| "getStringI _ idx = []"

definition getSize :: "string \<Rightarrow> u64 option" where
  "getSize s =
     (case s of [] \<Rightarrow> Some 0
      | c # _ \<Rightarrow> if c = CHR ''-'' then Some 0 else map_option word_of_int (stoll s))"

definition getInt :: "json \<Rightarrow> string \<Rightarrow> u64 option" where
  "getInt j key =
     (let dec_str = getStringK j key
      in if dec_str = [] then Some 0 else map_option word_of_int (stoll dec_str))"

definition getTimeS :: "string \<Rightarrow> timestamp_t option" where
  "getTimeS s = (if s = [] then Some 0 else map_option word_of_int (stoll s))"

definition getTime :: "json \<Rightarrow> string \<Rightarrow> timestamp_t option" where
  "getTime j key = getTimeS (getStringK j key)"

definition getBoolean :: "json \<Rightarrow> string \<Rightarrow> bool" where
  "getBoolean j key = (case json_find j key of Some (JBool b) \<Rightarrow> b | _ \<Rightarrow> False)"

definition getBytesFromB64 :: "ext \<Rightarrow> json \<Rightarrow> string \<Rightarrow> bytes" where
  "getBytesFromB64 E j key =
     (let s = getStringK j key in if s = [] then [] else decodeBase64 E s)"

section \<open>\<open>Compressor\<close> and \<open>ECDSA\<close>\<close>

definition compressData :: "ext \<Rightarrow> bytes \<Rightarrow> bytes" where
  "compressData E src = lz4_compress E src"

text \<open>The destination holds three times the compressed size. After a failure (a negative
  length) \<open>substr(0, length)\<close> returns the whole destination buffer.\<close>

definition decompressData :: "ext \<Rightarrow> bytes \<Rightarrow> bytes" where
  "decompressData E src =
     (let compressed_size = length src;
          dest_capacity = compressed_size * 3;
          (dest_length, dest) = lz4_decompress_safe E src dest_capacity
      in if 0 \<le> dest_length then take (nat dest_length) dest else dest)"

definition doSign :: "ext \<Rightarrow> string \<Rightarrow> bytes \<Rightarrow> string \<Rightarrow> bytes" where
  "doSign E ecdsa_sk_pem data pass =
     (case ecdsa_sign E ecdsa_sk_pem pass data of Some sig \<Rightarrow> sig | None \<Rightarrow> [])"

definition doVerify :: "ext \<Rightarrow> string \<Rightarrow> bytes \<Rightarrow> bytes \<Rightarrow> bool" where
  "doVerify E ecdsa_pk data sig =
     (case ecdsa_verify E ecdsa_pk data sig of Some ok \<Rightarrow> ok | None \<Rightarrow> False)"

section \<open>Big-endian integers\<close>

text \<open>The number a big-endian byte sequence denotes.\<close>

definition be_nat :: "bytes \<Rightarrow> nat" where
  "be_nat bs = foldl (\<lambda>a b. a * 256 + unat b) 0 bs"

lemma be_nat_foldl: "foldl (\<lambda>a b. a * 256 + unat b) acc bs = acc * 256 ^ length bs + be_nat bs"
proof (induction bs arbitrary: acc)
  case Nil
  then show ?case by (simp add: be_nat_def)
next
  case (Cons b bs)
  show ?case
    using Cons [of "acc * 256 + unat b"] Cons [of "unat b"]
    by (simp add: be_nat_def algebra_simps)
qed

lemma be_nat_Cons: "be_nat (b # bs) = unat b * 256 ^ length bs + be_nat bs"
  using be_nat_foldl [of "unat b" bs] by (simp add: be_nat_def)

lemma be_nat_Nil [simp]: "be_nat [] = 0"
  by (simp add: be_nat_def)

lemma be_nat_less: "be_nat bs < 256 ^ length bs"
proof (induction bs)
  case (Cons b bs)
  have "unat b < 256" using unsigned_less [of b] by simp
  then have "unat b * 256 ^ length bs + 256 ^ length bs \<le> 256 * 256 ^ length bs"
    by (metis Suc_leI add.commute mult_Suc mult_le_mono1)
  with Cons show ?case by (simp only: be_nat_Cons list.size(4) add_0_right add_Suc_right power_Suc)
qed simp

lemma length_be_bytes [simp]: "length (be_bytes n w) = n"
  by (induction n) auto

lemma ucast_low_byte: "unat (ucast (w AND 0xFF) :: byte) = unat (w :: u64) mod 256"
proof -
  have "w AND 0xFF = take_bit 8 w"
    by (simp add: take_bit_eq_mask mask_eq_exp_minus_1)
  then have "unat (w AND 0xFF) = unat w mod 256"
    by (simp add: take_bit_eq_mod unat_mod)
  then show ?thesis
    by (simp add: unsigned_ucast_eq take_bit_eq_mod)
qed

lemma be_nat_be_bytes: "be_nat (be_bytes n w) = unat w mod 256 ^ n"
proof (induction n)
  case (Suc n)
  have "unat (drop_bit (8 * n) w) = drop_bit (8 * n) (unat w)"
    by (rule unat_drop_bit_eq)
  also have "\<dots> = unat w div 256 ^ n"
    by (simp add: drop_bit_eq_div power_mult)
  finally have "unat (ucast (drop_bit (8 * n) w AND 0xFF) :: byte) = unat w div 256 ^ n mod 256"
    by (simp only: ucast_low_byte)
  then show ?case
    using Suc mod_mult2_eq [of "unat w" "256 ^ n" 256]
    by (simp add: be_nat_Cons algebra_simps)
qed simp

interpretation u64_codec: fixed_codec "be_bytes 8" "\<lambda>bs. word_of_nat (be_nat bs)" 8 "\<lambda>_. True"
proof
  fix w :: u64
  have "unat w < 2 ^ 64" using unsigned_less [of w] by simp
  then show "word_of_nat (be_nat (be_bytes 8 w)) = w"
    by (simp add: be_nat_be_bytes)
qed simp

lemma be_bytes_snoc: "be_bytes (Suc n) w = be_bytes n (drop_bit 8 w) @ [ucast (w AND 0xFF)]"
proof (induction n)
  case (Suc n)
  have "drop_bit (8 * n) (drop_bit 8 w) = drop_bit (8 * Suc n) w"
    by (simp only: drop_bit_drop_bit mult_Suc_right add.commute)
  then show ?case using Suc by simp
qed simp

lemma int_to_bytes_loop_eq: "int_to_bytes_loop n w v = v @ rev (be_bytes n w)"
proof (induction n arbitrary: w v)
  case (Suc n)
  show ?case by (simp only: int_to_bytes_loop.simps Suc.IH be_bytes_snoc) simp
qed simp

text \<open>\<open>integerToBytes\<close> and the builder's \<open>append(uint64_t)\<close> write the same eight bytes.\<close>

lemma integerToBytes_be: "integerToBytes w = be_bytes 8 w"
  by (simp only: integerToBytes_def int_to_bytes_loop_eq) simp

lemma be_bytes_0: "be_bytes n 0 = replicate n 0"
  by (induction n) (simp_all add: replicate_app_Cons_same)

lemma dec_to_bytes_loop_eq:
  assumes "idx < length b" "unat t < 256 ^ Suc idx" "take (Suc idx) b = replicate (Suc idx) 0"
  shows "dec_to_bytes_loop idx t b = be_bytes (Suc idx) t @ drop (Suc idx) b"
  using assms
proof (induction idx arbitrary: t b)
  case 0
  have "unat (drop_bit 8 t) = unat t div 256"
    by (simp only: unat_drop_bit_eq) (simp add: drop_bit_eq_div)
  with 0 have z: "drop_bit 8 t = 0" by (metis One_nat_def div_less power_one_right unat_eq_zero)
  obtain c cs where b: "b = c # cs" using 0(1) by (cases b) auto
  show ?case
  proof (cases "t = 0")
    case True
    then show ?thesis using 0(3) b by (simp add: dec_to_bytes_loop.simps)
  next
    case False
    have "dec_to_bytes_loop 0 t b = dec_to_bytes_loop 0 0 (b[0 := ucast (t AND 0xFF)])"
      using False z by (simp only: dec_to_bytes_loop.simps [of 0 t]) simp
    then show ?thesis by (simp add: dec_to_bytes_loop.simps b)
  qed
next
  case (Suc k)
  show ?case
  proof (cases "t = 0")
    case True
    then show ?thesis
      using Suc.prems(3) by (metis append_take_drop_id be_bytes_0 dec_to_bytes_loop.simps)
  next
    case False
    let ?b = "b[Suc k := ucast (t AND 0xFF)]"
    have u: "unat (drop_bit 8 t) = unat t div 256"
      by (simp only: unat_drop_bit_eq) (simp add: drop_bit_eq_div)
    have "unat t div 256 < 256 ^ Suc k"
      using Suc.prems(2) by (simp add: less_mult_imp_div_less mult.commute)
    moreover have "take (Suc k) ?b = replicate (Suc k) 0"
      using Suc.prems(3) by (metis lessI take_update_cancel order_refl take_replicate take_take
          min.absorb1 le_SucI)
    ultimately have "dec_to_bytes_loop k (drop_bit 8 t) ?b
        = be_bytes (Suc k) (drop_bit 8 t) @ drop (Suc k) ?b"
      using Suc.prems(1) u by (intro Suc.IH) simp_all
    moreover have "drop (Suc k) ?b = ucast (t AND 0xFF) # drop (Suc (Suc k)) b"
      using Suc.prems(1) by (simp add: Cons_nth_drop_Suc [symmetric])
    ultimately show ?thesis
      using False by (simp only: dec_to_bytes_loop.simps [of "Suc k" t] be_bytes_snoc [of "Suc k"]) simp
  qed
qed

lemma decimalToBytes_to_string:
  assumes "n < 2 ^ 63"
  shows "decimalToBytes (to_string n) = Some (be_bytes 8 (word_of_nat n))"
proof -
  have "unat (word_of_nat n :: u64) = n"
    using assms by (simp add: unat_of_nat take_bit_nat_eq_self)
  then have "dec_to_bytes_loop 7 (word_of_nat n) (replicate 8 0) = be_bytes (Suc 7) (word_of_nat n)"
    using assms dec_to_bytes_loop_eq [of 7 "replicate 8 0" "word_of_nat n"] by simp
  then show ?thesis
    using assms by (simp add: decimalToBytes_def stoll_to_string)
qed

section \<open>Builders\<close>

lemma string_bytes_string [simp]: "bytesToString (stringToBytes s) = s"
  by (simp add: bytesToString_def stringToBytes_def comp_def)

lemma bytes_string_bytes [simp]: "stringToBytes (bytesToString b) = b"
  by (simp add: bytesToString_def stringToBytes_def comp_def)

named_theorems builder_simps \<open>auto-append builders are concatenation\<close>

lemma append_vec_auto [builder_simps]:
  "m_auto_append bb \<Longrightarrow> append_vec b bb = bb\<lparr>m_bytes := m_bytes bb @ b\<rparr>"
  by (simp add: append_vec_n_def Let_def)

lemma append_u64_auto [builder_simps]:
  "m_auto_append bb \<Longrightarrow> append_u64 w bb = bb\<lparr>m_bytes := m_bytes bb @ be_bytes 8 w\<rparr>"
  by (simp add: append_u64_n_def append_vec_auto)

lemma append_u32_auto [builder_simps]:
  "m_auto_append bb \<Longrightarrow> append_u32_n w 4 bb = bb\<lparr>m_bytes := m_bytes bb @ be_bytes 4 (ucast w)\<rparr>"
  by (simp add: append_u32_n_def append_u64_n_def append_vec_auto)

lemma append_byte_auto [builder_simps]:
  "m_auto_append bb \<Longrightarrow> append_byte b bb = bb\<lparr>m_bytes := m_bytes bb @ [b]\<rparr>"
  by (simp add: append_byte_def append_vec_auto)

lemma append_str_auto [builder_simps]:
  "m_auto_append bb \<Longrightarrow> append_str s bb = bb\<lparr>m_bytes := m_bytes bb @ stringToBytes s\<rparr>"
  by (simp add: append_str_n_def append_vec_auto Let_def stringToBytes_def)

lemma fold_append_str_auto [builder_simps]:
  "m_auto_append bb \<Longrightarrow>
     fold append_str ss bb = bb\<lparr>m_bytes := m_bytes bb @ concat (map stringToBytes ss)\<rparr>"
  by (induction ss arbitrary: bb) (simp_all add: append_str_auto)

lemma getBytes_auto [builder_simps]: "m_auto_append bb \<Longrightarrow> getBytes bb = m_bytes bb"
  by (simp add: getBytes_def)

lemma bb_new_fields [simp, builder_simps]:
  "m_auto_append bb_new" "m_bytes bb_new = []" "m_filled_len bb_new = 0"
  by (simp_all add: bb_new_def)

text \<open>A fixed-length builder: what is filled stays within the buffer, whose length never changes.\<close>

definition bb_fixed_inv :: "nat \<Rightarrow> BytesBuilder \<Rightarrow> bool" where
  "bb_fixed_inv len bb \<longleftrightarrow>
     \<not> m_auto_append bb \<and> length (m_bytes bb) = len \<and> m_filled_len bb \<le> len"

lemma append_vec_fixed_inv: "bb_fixed_inv len bb \<Longrightarrow> bb_fixed_inv len (append_vec_n b n bb)"
  by (auto simp: bb_fixed_inv_def append_vec_n_def Let_def)

text \<open>What fits is appended after what was filled; what does not fit leaves the builder alone.\<close>

lemma append_vec_fixed:
  assumes "bb_fixed_inv len bb"
  shows "getBytes (append_vec b bb) =
    (if m_filled_len bb + length b \<le> len then getBytes bb @ b else getBytes bb)"
  using assms by (auto simp: bb_fixed_inv_def append_vec_n_def getBytes_def Let_def)

interpretation bb_fixed: invariant_machine "\<lambda>(b, n). append_vec_n b n" "bb_fixed_inv len" for len
  by unfold_locales (auto intro: append_vec_fixed_inv)

section \<open>Reading written members\<close>

lemma getString_JStr [simp]: "getString (JStr s) = s"
  by (simp add: getString_def)

lemma getStringK_obj [simp]:
  "getStringK (json_obj kvs) k = (case map_of (rev kvs) k of None \<Rightarrow> [] | Some v \<Rightarrow> getString v)"
  by (simp add: getStringK_def)

lemma getBytesFromB64_written:
  assumes "base64_law E" "getStringK j k = encodeBase64 E b"
  shows "getBytesFromB64 E j k = b"
  using assms base64_empty_iff [OF assms(1), of b]
  by (auto simp: getBytesFromB64_def encodeBase64_def decodeBase64_def base64_law_def Let_def)

lemma decode_encode: "base64_law E \<Longrightarrow> decodeBase64 E (encodeBase64 E b) = b"
  by (simp add: decodeBase64_def encodeBase64_def base64_law_def)

lemma getInt_written:
  assumes "getStringK j k = to_string n" "n < 2 ^ 63"
  shows "getInt j k = Some (word_of_nat n)"
  using assms by (simp add: getInt_def Let_def stoll_to_string)

lemma getTime_written:
  assumes "getStringK j k = to_string n" "n < 2 ^ 63"
  shows "getTime j k = Some (word_of_nat n)"
  using assms by (simp add: getTime_def getTimeS_def stoll_to_string)

text \<open>Decompression restores the source exactly up to a compression ratio of three to one.\<close>

lemma decompress_compress:
  assumes "lz4_law E" "length m \<le> 3 * length (compressData E m)"
  shows "decompressData E (compressData E m) = m"
  using assms unfolding lz4_law_def compressData_def decompressData_def
  by (auto simp: Let_def mult.commute split: prod.splits dest!: spec [of _ m] spec [of _ "3 * length (lz4_compress E m)"])

end
