(* ===== verification/Json_Schema.thy ===== *)
theory Json_Schema
  imports Utils
begin

text \<open>
  The schemas of incoming messages (\<open>src/modules/communication/msg_schema.hpp\<close>) and their check
  (\<open>JsonValidator\<close> in \<open>src/modules/communication/grpc_util.cpp\<close>). The draft-4 validator
  (\<open>include/json-validator.cpp\<close>) is modelled for the keywords these schemas use: \<open>type\<close>,
  \<open>properties\<close>, \<open>required\<close> and \<open>items\<close> with one schema. The lemma \<open>schemas_keywords\<close> shows that every
  other keyword of the schemas is one the validator ignores. An exception is \<^const>\<open>False\<close>.
\<close>

section \<open>The validator\<close>

definition validate_type :: "json \<Rightarrow> string \<Rightarrow> bool" where
  "validate_type schema expected_type =
     (case json_find schema ''type'' of
        None \<Rightarrow> True
      | Some (JArr ts) \<Rightarrow> JStr expected_type \<in> set ts \<or> (expected_type = ''integer'' \<and> JStr ''number'' \<in> set ts)
      | Some t \<Rightarrow> t = JStr expected_type \<or> (t = JStr ''number'' \<and> expected_type = ''integer''))"

text \<open>A keyword that is absent reads as null.\<close>

definition keyword :: "json \<Rightarrow> string \<Rightarrow> json" where
  "keyword schema k = (case json_find schema k of None \<Rightarrow> JNull | Some v \<Rightarrow> v)"

definition has_member :: "json \<Rightarrow> json \<Rightarrow> bool" where
  "has_member inst element =
     (case get_string element of None \<Rightarrow> False | Some k \<Rightarrow> json_find inst k \<noteq> None)"

text \<open>The keyword \<open>items\<close> applies to the elements only when it is an object.\<close>

fun is_object :: "json \<Rightarrow> bool" where
  "is_object (JObj _) = True" | "is_object _ = False"

fun validate :: "json \<Rightarrow> json \<Rightarrow> bool" where
  "validate (JObj kvs) schema \<longleftrightarrow>
     validate_type schema ''object'' \<and>
     list_all (\<lambda>kv. case json_find (keyword schema ''properties'') (fst kv) of
        None \<Rightarrow> True | Some s \<Rightarrow> validate (snd kv) s) kvs \<and>
     list_all (has_member (JObj kvs)) (json_elems (keyword schema ''required''))"
| "validate (JArr xs) schema \<longleftrightarrow>
     validate_type schema ''array'' \<and>
     (is_object (keyword schema ''items'') \<longrightarrow> list_all (\<lambda>x. validate x (keyword schema ''items'')) xs)"
| "validate (JStr s) schema \<longleftrightarrow> validate_type schema ''string''"
| "validate (JNum n) schema \<longleftrightarrow> validate_type schema ''integer''"
| "validate (JBool b) schema \<longleftrightarrow> validate_type schema ''boolean''"
| "validate JNull schema \<longleftrightarrow> validate_type schema ''null''"

section \<open>The schemas\<close>

definition str_t :: json where "str_t = json_obj [(''type'', JStr ''string'')]"
definition bool_t :: json where "bool_t = json_obj [(''type'', JStr ''boolean'')]"
definition described :: "string \<Rightarrow> json" where
  "described d = json_obj [(''description'', JStr d), (''type'', JStr ''string'')]"

definition strs :: "string list \<Rightarrow> (string \<times> json) list" where
  "strs ks = map (\<lambda>k. (k, str_t)) ks"

definition object_t :: "(string \<times> json) list \<Rightarrow> string list \<Rightarrow> json" where
  "object_t props req = json_obj [(''type'', JStr ''object''), (''properties'', json_obj props), (''required'', JArr (map JStr req))]"

definition array_t :: "json \<Rightarrow> json" where
  "array_t items = json_obj [(''type'', JStr ''array''), (''items'', items)]"

definition titled :: "string \<Rightarrow> (string \<times> json) list \<Rightarrow> string list \<Rightarrow> json" where
  "titled title props req = json_obj [(''title'', JStr title), (''type'', JStr ''object''),
     (''properties'', json_obj props), (''required'', JArr (map JStr req))]"

definition SCHEMA_UP :: json where
  "SCHEMA_UP = titled ''Up'' (strs [''mID'', ''time'', ''ver'', ''cID'', ''ip'', ''port'', ''mCert''])
     [''mID'', ''time'', ''ver'', ''cID'', ''ip'', ''port'', ''mCert'']"

definition SCHEMA_PING :: json where
  "SCHEMA_PING = titled ''Ping'' (strs [''mID'', ''cID'', ''time'', ''sCnt'', ''stat''])
     [''mID'', ''time'', ''sCnt'', ''stat'']"

definition SCHEMA_REQ_BLOCK :: json where
  "SCHEMA_REQ_BLOCK = titled ''block request''
     (strs [''mID'', ''time'', ''mCert'', ''hgt'', ''prevHash'', ''hash'', ''mSig''])
     [''mID'', ''time'', ''mCert'', ''hgt'', ''mSig'']"

definition SCHEMA_WELCOME :: json where
  "SCHEMA_WELCOME = titled ''welcome''
     (strs [''mID'', ''cID'', ''time''] @
      [(''val'', bool_t),
       (''merger'', array_t (object_t (strs [''mID'', ''ip'', ''port'', ''mCert'']) [''mID'', ''ip'', ''port'', ''mCert''])),
       (''se'', array_t (object_t (strs [''seID'', ''ip'', ''port'', ''seCert'']) [''seID'', ''ip'', ''port'', ''seCert'']))])
     [''mID'', ''cID'', ''time'', ''val'', ''merger'', ''se'']"

text \<open>The type of the contents is under the key \<open>item\<close>, which the validator ignores.\<close>

definition tx_props :: "(string \<times> json) list" where
  "tx_props = strs [''txid'', ''time'', ''rID'', ''type''] @
     [(''content'', json_obj [(''type'', JStr ''array''), (''item'', str_t)])] @ strs [''rSig'']"

definition tx_required :: "string list" where
  "tx_required = [''txid'', ''time'', ''rID'', ''type'', ''content'', ''rSig'']"

definition SCHEMA_BLOCK :: json where
  "SCHEMA_BLOCK = titled ''Block''
     (strs [''mID'', ''blockraw''] @ [(''tx'', array_t (object_t tx_props tx_required))]) [''blockraw'', ''tx'']"

definition SCHEMA_JOIN :: json where
  "SCHEMA_JOIN = titled ''Join'' (strs [''sID'', ''time'', ''ver'', ''cID'']) [''sID'', ''time'', ''ver'', ''cID'']"

definition SCHEMA_RESPONSE_FIRST :: json where
  "SCHEMA_RESPONSE_FIRST = titled ''Response 1 to Challenge''
     (strs [''sID'', ''time'', ''cert'', ''sN'', ''dhx'', ''dhy'', ''sig''])
     [''sID'', ''time'', ''cert'', ''sN'', ''dhx'', ''dhy'', ''sig'']"

definition SCHEMA_SUCCESS :: json where
  "SCHEMA_SUCCESS = titled ''Success in Key Exchange'' (strs [''sID'', ''time''] @ [(''val'', bool_t)])
     [''sID'', ''time'', ''val'']"

definition SCHEMA_REQ_SSIG :: json where
  "SCHEMA_REQ_SSIG = titled ''Partial Block'' (strs [''time'', ''mID'', ''cID'', ''hgt'', ''txrt''])
     [''time'', ''mID'', ''cID'', ''hgt'', ''txrt'']"

definition SCHEMA_SSIG :: json where
  "SCHEMA_SSIG = titled ''Signer's Signature'' (strs [''sID'', ''time'', ''sig'']) [''sID'', ''time'', ''sig'']"

definition SCHEMA_ERROR :: json where
  "SCHEMA_ERROR = titled ''Error'' (strs [''sender'', ''time'', ''code'', ''info'']) [''sender'', ''time'', ''type'']"

definition SCHEMA_TX :: json where
  "SCHEMA_TX = titled ''Transaction'' tx_props tx_required"

definition SCHEMA_REQ_CHECK :: json where
  "SCHEMA_REQ_CHECK = titled ''Request Check'' (strs [''sender'', ''time'', ''dID'', ''txid''])
     [''sender'', ''time'', ''dID'', ''txid'']"

text \<open>The description of \<open>time\<close> is a Korean phrase, written here in English.\<close>

definition SCHEMA_REQ_HEADER_CHECK :: json where
  "SCHEMA_REQ_HEADER_CHECK = titled ''Request Block Header''
     [(''rID'', described ''requestor's ID''), (''time'', described ''time of request''),
      (''rCert'', described ''requestor's certificate''), (''hgt'', described ''block height''),
      (''rSig'', described ''requestor's signature'')]
     [''rID'', ''time'', ''rCert'', ''hgt'', ''rSig'']"

definition SCHEMA_REQ_STATUS :: json where
  "SCHEMA_REQ_STATUS = titled ''Request Status'' (strs [''mID'', ''time'']) [''mID'', ''time'']"

definition SCHEMA_RES_STATUS :: json where
  "SCHEMA_RES_STATUS = titled ''Response Status'' (strs [''mID'', ''time'', ''mCert'', ''hgt'', ''hash'', ''mSig''])
     [''mID'', ''time'', ''mCert'', ''hgt'', ''hash'', ''mSig'']"

definition MSG_SCHEMA_MAP :: "(MessageType \<times> json) list" where
  "MSG_SCHEMA_MAP =
     [(MSG_UP, SCHEMA_UP), (MSG_PING, SCHEMA_PING), (MSG_WELCOME, SCHEMA_WELCOME),
      (MSG_REQ_BLOCK, SCHEMA_REQ_BLOCK), (MSG_BLOCK, SCHEMA_BLOCK), (MSG_JOIN, SCHEMA_JOIN),
      (MSG_RESPONSE_1, SCHEMA_RESPONSE_FIRST), (MSG_SUCCESS, SCHEMA_SUCCESS), (MSG_REQ_SSIG, SCHEMA_REQ_SSIG),
      (MSG_SSIG, SCHEMA_SSIG), (MSG_ERROR, SCHEMA_ERROR), (MSG_TX, SCHEMA_TX),
      (MSG_REQ_CHECK, SCHEMA_REQ_CHECK), (MSG_REQ_HEADER, SCHEMA_REQ_HEADER_CHECK),
      (MSG_REQ_STATUS, SCHEMA_REQ_STATUS), (MSG_RES_STATUS, SCHEMA_RES_STATUS)]"

text \<open>A type without a schema gets the empty object, which accepts every value.\<close>

definition getSchema :: "MessageType \<Rightarrow> json" where
  "getSchema msg_type = (case map_of MSG_SCHEMA_MAP msg_type of None \<Rightarrow> JObj [] | Some s \<Rightarrow> s)"

definition validateSchema :: "json \<Rightarrow> MessageType \<Rightarrow> bool" where
  "validateSchema json_object msg_type = validate json_object (getSchema msg_type)"

section \<open>What a schema promises\<close>

text \<open>The keywords at the schema positions of a schema.\<close>

definition KEYWORDS :: "string list" where
  "KEYWORDS = [''title'', ''description'', ''type'', ''properties'', ''required'', ''items'', ''item'']"

fun keywords_ok :: "json \<Rightarrow> bool" where
  "keywords_ok (JObj kvs) =
     list_all (\<lambda>kv. fst kv \<in> set KEYWORDS \<and>
       (if fst kv = ''properties'' then (case snd kv of JObj ps \<Rightarrow> list_all (\<lambda>p. keywords_ok (snd p)) ps | _ \<Rightarrow> False)
        else if fst kv = ''items'' then keywords_ok (snd kv) else True)) kvs"
| "keywords_ok _ = False"

lemmas schema_defs = SCHEMA_UP_def SCHEMA_PING_def SCHEMA_REQ_BLOCK_def SCHEMA_WELCOME_def SCHEMA_BLOCK_def
  SCHEMA_JOIN_def SCHEMA_RESPONSE_FIRST_def SCHEMA_SUCCESS_def SCHEMA_REQ_SSIG_def SCHEMA_SSIG_def SCHEMA_ERROR_def
  SCHEMA_TX_def SCHEMA_REQ_CHECK_def SCHEMA_REQ_HEADER_CHECK_def SCHEMA_REQ_STATUS_def SCHEMA_RES_STATUS_def

lemma schemas_keywords: "list_all (keywords_ok \<circ> snd) MSG_SCHEMA_MAP"
  by code_simp

lemma schemas_titled: "(t, S) \<in> set MSG_SCHEMA_MAP \<Longrightarrow> \<exists>title props req. S = titled title props req"
  by (auto simp: MSG_SCHEMA_MAP_def schema_defs)

text \<open>The type a schema declares for a member, and the values of a type.\<close>

definition declared_type :: "json \<Rightarrow> string \<Rightarrow> string option" where
  "declared_type S k = do {
     s \<leftarrow> json_find (keyword S ''properties'') k;
     ty \<leftarrow> json_find s ''type'';
     get_string ty }"

definition has_type :: "string \<Rightarrow> json \<Rightarrow> bool" where
  "has_type ty v \<longleftrightarrow>
     (case v of JObj _ \<Rightarrow> ty = ''object'' | JArr _ \<Rightarrow> ty = ''array'' | JStr _ \<Rightarrow> ty = ''string''
      | JNum _ \<Rightarrow> ty = ''integer'' \<or> ty = ''number'' | JBool _ \<Rightarrow> ty = ''boolean'' | JNull \<Rightarrow> ty = ''null'')"

lemma validate_has_type: "validate v s \<Longrightarrow> json_find s ''type'' = Some (JStr ty) \<Longrightarrow> has_type ty v"
  by (cases v) (auto simp: has_type_def validate_type_def)

lemma validate_member:
  assumes "validate (JObj kvs) S" "(k, v) \<in> set kvs" "declared_type S k = Some ty"
  shows "has_type ty v"
proof -
  obtain s where s: "json_find (keyword S ''properties'') k = Some s" "json_find s ''type'' = Some (JStr ty)"
    using assms(3) by (auto simp: declared_type_def bind_eq_Some_conv elim: get_string.elims)
  from assms(1,2) s(1) have "validate v s" by (force simp: list_all_iff)
  then show ?thesis by (rule validate_has_type [OF _ s(2)])
qed

section \<open>Properties\<close>

text \<open>C34. A message body that passes the check of its type is an object that has every member its schema
  requires, and every member with a declared type is of that type.\<close>

theorem validated_message_members:
  assumes "validateSchema j t" "map_of MSG_SCHEMA_MAP t = Some S"
  shows "\<exists>kvs. j = JObj kvs \<and>
    (\<forall>k. JStr k \<in> set (json_elems (keyword S ''required'')) \<longrightarrow> map_of kvs k \<noteq> None) \<and>
    (\<forall>k v ty. (k, v) \<in> set kvs \<longrightarrow> declared_type S k = Some ty \<longrightarrow> has_type ty v)"
proof -
  have v: "validate j S" using assms by (simp add: validateSchema_def getSchema_def)
  obtain title props req where "S = titled title props req"
    using schemas_titled [OF map_of_SomeD [OF assms(2)]] by blast
  then have "has_type ''object'' j" using validate_has_type [OF v] by (simp add: titled_def)
  then obtain kvs where j: "j = JObj kvs" by (auto simp: has_type_def split: json.splits)
  have "\<forall>k. JStr k \<in> set (json_elems (keyword S ''required'')) \<longrightarrow> map_of kvs k \<noteq> None"
    using v by (force simp: j list_all_iff has_member_def)
  with validate_member v j show ?thesis by blast
qed

section \<open>Witnesses\<close>

theorem validated_message_members_witness:
  "\<exists>kvs. json_obj [(''sID'', JStr ''s''), (''time'', JStr ''1''), (''sig'', JStr ''x'')] = JObj kvs \<and>
    (\<forall>k. JStr k \<in> set (json_elems (keyword SCHEMA_SSIG ''required'')) \<longrightarrow> map_of kvs k \<noteq> None) \<and>
    (\<forall>k v ty. (k, v) \<in> set kvs \<longrightarrow> declared_type SCHEMA_SSIG k = Some ty \<longrightarrow> has_type ty v)"
proof (rule validated_message_members)
  show "validateSchema (json_obj [(''sID'', JStr ''s''), (''time'', JStr ''1''), (''sig'', JStr ''x'')]) MSG_SSIG"
    by code_simp
  show "map_of MSG_SCHEMA_MAP MSG_SSIG = Some SCHEMA_SSIG" by (simp add: MSG_SCHEMA_MAP_def)
qed

end
