(* ===== verification/Merkle_Tree.thy ===== *)
theory Merkle_Tree
  imports Utils
begin

text \<open>
  The Merkle tree of \<open>src/chain/merkle_tree.hpp\<close>: a vector of \<open>2N - 1\<close> nodes, the \<open>N\<close> leaves first
  and each parent at position \<open>N + k\<close> for the children \<open>2k\<close> and \<open>2k + 1\<close>. The number of leaves is an
  argument of the loops, instantiated by \<open>MAX_MERKLE_LEAVES\<close> as in the source.

  The lemmas show that \<open>generate\<close> computes exactly this parent relation, whatever the vector
  held before, and that walking from a leaf to the root by parents gives a chain of siblings
  that \<open>isValidSiblings\<close> accepts.
\<close>

section \<open>Model\<close>

definition HASH_LOOKUP_B64 :: "(string \<times> string) list" where
  "HASH_LOOKUP_B64 =
    [(''AAAAAAAAAAAAAAAAAAAAAAAAAAAAAAAAAAAAAAAAAAAAAAAAAAAAAAAAAAAAAAAAAAAAAAAAAAAAAAAAAAAAAA=='',
      ''9aX9QtFqIDAnmO9u0wmXm0MAPSMg2fDo6pgxqSdZ+0s=''),
     (''9aX9QtFqIDAnmO9u0wmXm0MAPSMg2fDo6pgxqSdZ+0v1pf1C0WogMCeY727TCZebQwA9IyDZ8OjqmDGpJ1n7Sw=='',
      ''21YRTgD91MH4XIkr81rJqJKJquyx69CpbN5ganSLXXE=''),
     (''21YRTgD91MH4XIkr81rJqJKJquyx69CpbN5ganSLXXHbVhFOAP3UwfhciSvzWsmokomq7LHr0Kls3mBqdItdcQ=='',
      ''x4AJ/fB/xWoR8SI3BlijU6qlQu1j5ExLwV/0zRBaszw=''),
     (''x4AJ/fB/xWoR8SI3BlijU6qlQu1j5ExLwV/0zRBaszzHgAn98H/FahHxIjcGWKNTqqVC7WPkTEvBX/TNEFqzPA=='',
      ''U22Yg38t0WWlXV7q6RSFlURy1W8kbfJWvzyuGTUqEjw=''),
     (''U22Yg38t0WWlXV7q6RSFlURy1W8kbfJWvzyuGTUqEjxTbZiDfy3RZaVdXurpFIWVRHLVbyRt8la/PK4ZNSoSPA=='',
      ''nv3gUqoVQp+uBbrU0LHXxk2mTQPXoYVKWIwsuEMMDTA=''),
     (''nv3gUqoVQp+uBbrU0LHXxk2mTQPXoYVKWIwsuEMMDTCe/eBSqhVCn64FutTQsdfGTaZNA9ehhUpYjCy4QwwNMA=='',
      ''2I3f7tQAqHVVlrIZQsFJfhFMMC5hGCkPkeZ3KXYEH6E=''),
     (''2I3f7tQAqHVVlrIZQsFJfhFMMC5hGCkPkeZ3KXYEH6HYjd/u1ACodVWWshlCwUl+EUwwLmEYKQ+R5ncpdgQfoQ=='',
      ''h+sN26V+NfbShmc4AqSvWXXiJQbHz0xku2vl7hFSfyw=''),
     (''h+sN26V+NfbShmc4AqSvWXXiJQbHz0xku2vl7hFSfyyH6w3bpX419tKGZzgCpK9ZdeIlBsfPTGS7a+XuEVJ/LA=='',
      ''JoRkdv1fxUpdQzhRZ8lRRPJkP1M8yFu50Wt4L419sZM=''),
     (''JoRkdv1fxUpdQzhRZ8lRRPJkP1M8yFu50Wt4L419sZMmhGR2/V/FSl1DOFFnyVFE8mQ/UzzIW7nRa3gvjX2xkw=='',
      ''UG2GWC0lJAW4QAGHksrSvxJZ8e9apfiH4Tyy8AlPUeE=''),
     (''UG2GWC0lJAW4QAGHksrSvxJZ8e9apfiH4Tyy8AlPUeFQbYZYLSUkBbhAAYeSytK/Elnx71ql+IfhPLLwCU9R4Q=='',
      ''//8K1+ZZdy+VNMGVyBXvxAFO8eHa7UQEwGOF0RGS6Ss=''),
     (''//8K1+ZZdy+VNMGVyBXvxAFO8eHa7UQEwGOF0RGS6Sv//wrX5ll3L5U0wZXIFe/EAU7x4drtRATAY4XREZLpKw=='',
      ''bPBBJ9sFRBzYMxB6Ur6FKGiJDkMX5qAqtHaDqnWWQiA='')]"

text \<open>\<open>prepareLookUpTable\<close> decodes the table into \<open>HASH_LOOKUP\<close>, visiting the entries in key order;
  \<open>emplace\<close> keeps the first entry of a key.\<close>

definition HASH_LOOKUP :: "ext \<Rightarrow> (bytes \<times> hash_t) list" where
  "HASH_LOOKUP E = map (\<lambda>(k, v). (decodeBase64 E k, decodeBase64 E v)) (sort_key fst HASH_LOOKUP_B64)"

definition makeParent :: "ext \<Rightarrow> hash_t \<Rightarrow> hash_t \<Rightarrow> hash_t" where
  "makeParent E left right =
     (case map_of (HASH_LOOKUP E) (left @ right) of
        Some h \<Rightarrow> h
      | None \<Rightarrow> sha256 E (left @ right))"

definition dummy_leaf :: bytes where
  "dummy_leaf = replicate 32 0"

definition set_leaves :: "nat \<Rightarrow> hash_t list \<Rightarrow> hash_t list \<Rightarrow> hash_t list" where
  "set_leaves N tx_digests tree =
     (let min_addable_size = min N (length tx_digests);
          tree1 = fold (\<lambda>i t. t[i := tx_digests ! i]) [0..<min_addable_size] tree
      in fold (\<lambda>i t. t[i := dummy_leaf]) [min_addable_size..<N] tree1)"

definition set_parents :: "ext \<Rightarrow> nat \<Rightarrow> nat \<Rightarrow> hash_t list \<Rightarrow> hash_t list" where
  "set_parents E N steps tree =
     fold (\<lambda>k t. t[N + k := makeParent E (t ! (2 * k)) (t ! (2 * k + 1))]) [0..<steps] tree"

definition generate_n :: "ext \<Rightarrow> nat \<Rightarrow> hash_t list \<Rightarrow> hash_t list \<Rightarrow> hash_t list" where
  "generate_n E N tx_digests tree = set_parents E N (N - 1) (set_leaves N tx_digests tree)"

text \<open>The constructor sizes the vector; \<open>generate\<close> overwrites every node.\<close>

definition new_tree :: "nat \<Rightarrow> hash_t list" where
  "new_tree N = replicate (N * 2 - 1) []"

definition generate :: "ext \<Rightarrow> hash_t list \<Rightarrow> hash_t list \<Rightarrow> hash_t list" where
  "generate E tx_digests tree = generate_n E MAX_MERKLE_LEAVES tx_digests tree"

fun fold_siblings :: "ext \<Rightarrow> (bool \<times> bytes) list \<Rightarrow> hash_t \<Rightarrow> hash_t" where
  "fold_siblings E [] mtree_root = mtree_root"
| "fold_siblings E ((right, s) # rest) mtree_root =
     fold_siblings E rest (sha256 E (if right then mtree_root @ s else s @ mtree_root))"

definition isValidSiblings_bytes :: "ext \<Rightarrow> (bool \<times> bytes) list \<Rightarrow> bytes \<Rightarrow> bytes \<Rightarrow> bool" where
  "isValidSiblings_bytes E sibs my_val root_val =
     (if sibs = [] \<or> my_val = [] \<or> root_val = [] then False
      else if snd (sibs ! 0) \<noteq> my_val then False
      else root_val = fold_siblings E (tl sibs) (snd (sibs ! 0)))"

definition isValidSiblings :: "ext \<Rightarrow> (bool \<times> string) list \<Rightarrow> string \<Rightarrow> string \<Rightarrow> bool" where
  "isValidSiblings E siblings_b64 my_val_b64 root_val_b64 =
     (if siblings_b64 = [] \<or> my_val_b64 = [] \<or> root_val_b64 = [] then False
      else if snd (siblings_b64 ! 0) \<noteq> my_val_b64 then False
      else isValidSiblings_bytes E (map (\<lambda>(r, s). (r, decodeBase64 E s)) siblings_b64)
             (decodeBase64 E my_val_b64) (decodeBase64 E root_val_b64))"

text \<open>The overload on a proof reads \<open>siblings[0]\<close>, which is undefined when there is none.\<close>

definition isValidSiblings_proof :: "ext \<Rightarrow> proof_type \<Rightarrow> string \<Rightarrow> bool option" where
  "isValidSiblings_proof E p root_val_b64 =
     (if siblings p = [] then None
      else Some (isValidSiblings E (siblings p) (snd (siblings p ! 0)) root_val_b64))"

section \<open>The nodes of a generated tree\<close>

text \<open>What the table promises: each entry is the SHA-256 digest of its key. Under it the table
  is only an optimisation.\<close>

definition lookup_law :: "ext \<Rightarrow> bool" where
  "lookup_law E \<longleftrightarrow> (\<forall>(k, v) \<in> set (HASH_LOOKUP E). sha256 E k = v)"

lemma makeParent_sha: "lookup_law E \<Longrightarrow> makeParent E l r = sha256 E (l @ r)"
  by (auto simp: makeParent_def lookup_law_def split: option.splits dest!: map_of_SomeD)

lemma fold_update_length [simp]:
  "length (fold (\<lambda>i t. t[f i := g i t]) is (t :: 'a list)) = length t"
  by (induction "is" arbitrary: t) auto

lemma length_set_leaves [simp]: "length (set_leaves N ds t) = length t"
  by (simp add: set_leaves_def Let_def)

lemma length_set_parents [simp]: "length (set_parents E N n t) = length t"
  by (simp add: set_parents_def)

lemma length_generate_n [simp]: "length (generate_n E N ds t) = length t"
  by (simp add: generate_n_def)

lemma fold_update_const:
  "n \<le> length t \<Longrightarrow> j < length t \<Longrightarrow>
     fold (\<lambda>i t. t[i := g i]) [m..<n] t ! j = (if m \<le> j \<and> j < n then g j else t ! j)"
  by (induction n) (auto simp: nth_list_update less_Suc_eq)

definition leaf_of :: "hash_t list \<Rightarrow> nat \<Rightarrow> hash_t" where
  "leaf_of ds i = (if i < length ds then ds ! i else dummy_leaf)"

lemma set_leaves_nth:
  assumes "i < N" "N \<le> length t"
  shows "set_leaves N ds t ! i = leaf_of ds i"
  using assms by (auto simp: set_leaves_def Let_def fold_update_const leaf_of_def min_def)

lemma set_parents_Suc:
  "set_parents E N (Suc n) t =
     (let t' = set_parents E N n t in t'[N + n := makeParent E (t' ! (2 * n)) (t' ! (2 * n + 1))])"
  by (simp add: set_parents_def Let_def)

lemma set_parents_low: "i < N \<Longrightarrow> set_parents E N n t ! i = t ! i"
  by (induction n) (simp_all add: set_parents_Suc Let_def set_parents_def [of E N 0])

text \<open>Once written, a parent is never written again, and its children are final by then.\<close>

lemma set_parents_nth:
  assumes "N + n \<le> length t" "n \<le> N - 1" "k < n"
  shows "set_parents E N n t ! (N + k) =
    makeParent E (set_parents E N n t ! (2 * k)) (set_parents E N n t ! (2 * k + 1))"
  using assms
proof (induction n)
  case (Suc n)
  let ?t = "set_parents E N n t"
  have *: "set_parents E N (Suc n) t ! j = ?t ! j" if "j < N + n" for j
    using that by (simp add: set_parents_Suc Let_def)
  have c: "2 * n + 1 < N + n" using Suc.prems by linarith
  show ?case
  proof (cases "k = n")
    case True
    then show ?thesis
      using Suc.prems c * [of "2 * n"] * [of "2 * n + 1"]
      by (simp add: set_parents_Suc Let_def)
  next
    case False
    with Suc.prems have k: "k < n" by simp
    then have "2 * k + 1 < N + n" using c by linarith
    with Suc k show ?thesis by (simp add: *)
  qed
qed simp

lemma generate_n_leaf:
  assumes "i < N" "N \<le> length t"
  shows "generate_n E N ds t ! i = leaf_of ds i"
  using assms by (simp add: generate_n_def set_parents_low set_leaves_nth)

lemma generate_n_parent:
  assumes "length t = 2 * N - 1" "k < N - 1"
  shows "generate_n E N ds t ! (N + k) =
    makeParent E (generate_n E N ds t ! (2 * k)) (generate_n E N ds t ! (2 * k + 1))"
  using assms set_parents_nth [of N "N - 1" "set_leaves N ds t" k E]
  by (simp add: generate_n_def)

text \<open>A tree is determined by these two equations.\<close>

lemma generate_n_unique:
  assumes len: "length t = 2 * N - 1" and len': "length t' = 2 * N - 1" and j: "j < 2 * N - 1"
  shows "generate_n E N ds t ! j = generate_n E N ds t' ! j"
  using j
proof (induction j rule: less_induct)
  case (less j)
  show ?case
  proof (cases "j < N")
    case True
    then show ?thesis using len len' by (simp add: generate_n_leaf)
  next
    case False
    then obtain k where k: "j = N + k" "k < N - 1"
      using less.prems le_Suc_ex [of N j] by auto
    then have "2 * k < j" "2 * k + 1 < j" by auto
    then have "generate_n E N ds t ! (2 * k) = generate_n E N ds t' ! (2 * k)"
      "generate_n E N ds t ! (2 * k + 1) = generate_n E N ds t' ! (2 * k + 1)"
      using less.IH less.prems by (meson order.strict_trans)+
    then show ?thesis
      by (simp only: k(1) generate_n_parent [OF len k(2)] generate_n_parent [OF len' k(2)])
  qed
qed

lemma generate_n_independent:
  assumes "length t = 2 * N - 1" "length t' = 2 * N - 1"
  shows "generate_n E N ds t = generate_n E N ds t'"
proof (rule nth_equalityI)
  fix j assume "j < length (generate_n E N ds t)"
  then have "j < 2 * N - 1" using assms(1) by simp
  then show "generate_n E N ds t ! j = generate_n E N ds t' ! j"
    by (rule generate_n_unique [OF assms])
qed (use assms in simp)

text \<open>Every node is a leaf or a digest, so it has 32 bytes when the leaves do.\<close>

lemma generate_n_length32:
  assumes "sha_law E" "lookup_law E" "\<forall>d \<in> set ds. length d = 32" "length t = 2 * N - 1" "j < 2 * N - 1"
  shows "length (generate_n E N ds t ! j) = 32"
proof (cases "j < N")
  case True
  then show ?thesis using assms(3,4) by (simp add: generate_n_leaf leaf_of_def dummy_leaf_def)
next
  case False
  then obtain k where k: "j = N + k" "k < N - 1" using assms(5) le_Suc_ex [of N j] by auto
  then show ?thesis
    using generate_n_parent [OF assms(4) k(2)] assms(1,2) by (simp add: makeParent_sha sha_law_def)
qed

section \<open>Audit paths\<close>

text \<open>The other child of a node's parent, on its side.\<close>

definition sibling_idx :: "nat \<Rightarrow> nat" where
  "sibling_idx i = (if odd i then i - 1 else i + 1)"

text \<open>The path from node \<open>i\<close> upwards for \<open>h\<close> levels: siblings with their side.\<close>

fun audit_path :: "nat \<Rightarrow> hash_t list \<Rightarrow> nat \<Rightarrow> nat \<Rightarrow> (bool \<times> hash_t) list" where
  "audit_path N tree 0 i = []"
| "audit_path N tree (Suc h) i =
     (odd (sibling_idx i), tree ! sibling_idx i) # audit_path N tree h (N + i div 2)"

fun ancestor :: "nat \<Rightarrow> nat \<Rightarrow> nat \<Rightarrow> nat" where
  "ancestor N 0 i = i"
| "ancestor N (Suc h) i = ancestor N h (N + i div 2)"

lemma step_up:
  assumes "lookup_law E" "length t = 2 * N - 1" "i div 2 < N - 1"
  shows "sha256 E (if odd (sibling_idx i) then generate_n E N ds t ! i @ generate_n E N ds t ! sibling_idx i
                   else generate_n E N ds t ! sibling_idx i @ generate_n E N ds t ! i)
    = generate_n E N ds t ! (N + i div 2)"
proof (cases "odd i")
  case True
  then obtain m where "i = 2 * m + 1" by (rule oddE)
  then show ?thesis
    using generate_n_parent [OF assms(2,3), of E ds] by (simp add: makeParent_sha [OF assms(1)] sibling_idx_def)
next
  case False
  then obtain m where "i = 2 * m" by (metis evenE)
  then show ?thesis
    using generate_n_parent [OF assms(2,3), of E ds] by (simp add: makeParent_sha [OF assms(1)] sibling_idx_def)
qed

lemma fold_audit_path:
  assumes "lookup_law E" "length t = 2 * N - 1" "\<And>l. l < h \<Longrightarrow> ancestor N l i div 2 < N - 1"
  shows "fold_siblings E (audit_path N (generate_n E N ds t) h i) (generate_n E N ds t ! i)
    = generate_n E N ds t ! ancestor N h i"
  using assms(3)
proof (induction h arbitrary: i)
  case (Suc h)
  have i: "i div 2 < N - 1" using Suc.prems [of 0] by simp
  have "\<And>l. l < h \<Longrightarrow> ancestor N l (N + i div 2) div 2 < N - 1"
    using Suc.prems by (metis Suc_less_eq ancestor.simps(2))
  with Suc.IH step_up [OF assms(1,2) i, of ds] show ?case by simp
qed simp

text \<open>In a tree of \<open>2^H\<close> leaves, \<open>l\<close> levels up from leaf \<open>p\<close> is node \<open>p div 2^l\<close> of level \<open>l\<close>, which starts
  at \<open>2N - 2^(H+1-l)\<close>.\<close>

lemma ancestor_pow2:
  assumes "l \<le> H" "p < 2 ^ H"
  shows "ancestor (2 ^ H) l p + 2 ^ (H + 1 - l) = 2 * 2 ^ H + p div 2 ^ l \<and> ancestor (2 ^ H) l p = 2 * 2 ^ H - 2 ^ (H + 1 - l) + p div 2 ^ l"
proof -
  have snoc: "ancestor N (Suc l) i = N + ancestor N l i div 2" for N l i
    by (induction l arbitrary: i) simp_all
  have "ancestor (2 ^ H) l p = 2 * 2 ^ H - 2 ^ (H + 1 - l) + p div 2 ^ l"
    using assms(1)
  proof (induction l)
    case (Suc l)
    obtain d where d: "H = Suc (l + d)" using Suc.prems by (metis Suc_le_eq less_imp_Suc_add)
    then have e: "H + 1 - l = Suc (Suc d)" "H + 1 - Suc l = Suc d" by auto
    have le: "(2::nat) ^ Suc d \<le> 2 ^ H" using d by (intro power_increasing) auto
    have "ancestor (2 ^ H) (Suc l) p = 2 ^ H + (2 * 2 ^ H - 2 ^ Suc (Suc d) + p div 2 ^ l) div 2"
      using Suc e by (simp add: snoc del: ancestor.simps)
    also have "2 * 2 ^ H - (2::nat) ^ Suc (Suc d) = 2 * (2 ^ H - 2 ^ Suc d)" by (simp add: diff_mult_distrib2)
    also have "2 ^ H + (2 * (2 ^ H - 2 ^ Suc d) + p div 2 ^ l) div 2 = 2 * 2 ^ H - 2 ^ Suc d + p div 2 ^ Suc l"
      using le by (simp add: div_mult2_eq [symmetric] mult.commute)
    finally show ?case using e by simp
  qed simp
  moreover have "(2::nat) ^ (H + 1 - l) \<le> 2 ^ (H + 1)" by (intro power_increasing) auto
  ultimately show ?thesis by simp
qed

lemma ancestor_inner:
  assumes "l < H" "p < 2 ^ H"
  shows "ancestor (2 ^ H) l p div 2 < 2 ^ H - 1"
proof -
  let ?d = "H + 1 - l"
  have eq: "ancestor (2 ^ H) l p + 2 ^ ?d = 2 * 2 ^ H + p div 2 ^ l"
    using ancestor_pow2 [of l H p] assms by simp
  have "p div 2 ^ l < 2 ^ (H - l)"
    using assms by (simp add: less_mult_imp_div_less flip: power_add)
  moreover have "(2::nat) ^ ?d = 2 * 2 ^ (H - l)" using assms by (simp add: Suc_diff_le)
  moreover have "(2::nat) \<le> 2 ^ (H - l)" using assms by (cases "H - l") auto
  ultimately show ?thesis using eq by simp
qed

lemma ancestor_root: "p < 2 ^ H \<Longrightarrow> ancestor (2 ^ H) H p = 2 * 2 ^ H - 2"
  using ancestor_pow2 [of H H p] by simp

text \<open>An audit path of full height leads from any leaf to the root, the last node.\<close>

lemma audit_path_root:
  assumes "lookup_law E" "length t = 2 * 2 ^ H - 1" "p < 2 ^ H"
  shows "fold_siblings E (audit_path (2 ^ H) (generate_n E (2 ^ H) ds t) H p)
      (generate_n E (2 ^ H) ds t ! p) = last (generate_n E (2 ^ H) ds t)"
proof -
  let ?g = "generate_n E (2 ^ H) ds t"
  have "(1::nat) \<le> 2 ^ H" by simp
  then have pos: "0 < length ?g" using assms(2) unfolding length_generate_n by linarith
  moreover have "length ?g - 1 = 2 * 2 ^ H - 2" using assms(2) by simp
  ultimately have "last ?g = ?g ! (2 * 2 ^ H - 2)"
    by (metis last_conv_nth length_greater_0_conv)
  moreover have "fold_siblings E (audit_path (2 ^ H) ?g H p) (?g ! p) = ?g ! ancestor (2 ^ H) H p"
    by (rule fold_audit_path [OF assms(1,2)]) (rule ancestor_inner [OF _ assms(3)])
  ultimately show ?thesis by (simp only: ancestor_root [OF assms(3)])
qed

section \<open>Binding\<close>

text \<open>Two trees with the same root agree at every node, unless two different pairs of children at
  the same position have the same digest.\<close>

lemma node_parent:
  fixes j N :: nat
  assumes "j < 2 * N - 2"
  shows "j < N + j div 2" "j div 2 < N - 1"
  using assms by linarith+

lemma trees_agree:
  fixes N :: nat
  assumes laws: "sha_law E" "lookup_law E"
    and ds: "\<forall>d \<in> set ds. length d = 32" "\<forall>d \<in> set ds'. length d = 32"
    and len: "length t = 2 * N - 1" "length t' = 2 * N - 1"
    and root: "generate_n E N ds t ! (2 * N - 2) = generate_n E N ds' t' ! (2 * N - 2)"
    and nocoll: "\<And>k. k < N - 1 \<Longrightarrow>
      sha256 E (generate_n E N ds t ! (2 * k) @ generate_n E N ds t ! (2 * k + 1)) =
      sha256 E (generate_n E N ds' t' ! (2 * k) @ generate_n E N ds' t' ! (2 * k + 1)) \<Longrightarrow>
      generate_n E N ds t ! (2 * k) @ generate_n E N ds t ! (2 * k + 1) =
      generate_n E N ds' t' ! (2 * k) @ generate_n E N ds' t' ! (2 * k + 1)"
    and j: "j < 2 * N - 1"
  shows "generate_n E N ds t ! j = generate_n E N ds' t' ! j"
  using j
proof (induction "2 * N - j" arbitrary: j rule: less_induct)
  case less
  let ?g = "generate_n E N ds t" and ?g' = "generate_n E N ds' t'"
  show ?case
  proof (cases "j = 2 * N - 2")
    case True
    with root show ?thesis by simp
  next
    case False
    with less.prems have j: "j < 2 * N - 2" by simp
    let ?k = "j div 2"
    note par = node_parent [OF j]
    have "?g ! (N + ?k) = ?g' ! (N + ?k)" using less.hyps [of "N + ?k"] par by simp
    then have "?g ! (2 * ?k) @ ?g ! (2 * ?k + 1) = ?g' ! (2 * ?k) @ ?g' ! (2 * ?k + 1)"
      using nocoll [OF par(2)]
      by (simp add: generate_n_parent [OF len(1) par(2)] generate_n_parent [OF len(2) par(2)] makeParent_sha [OF laws(2)])
    moreover have "length (?g ! (2 * ?k)) = 32" "length (?g' ! (2 * ?k)) = 32"
      using generate_n_length32 [OF laws ds(1) len(1)] generate_n_length32 [OF laws ds(2) len(2)] par(2) by simp_all
    ultimately have "?g ! (2 * ?k) = ?g' ! (2 * ?k)" "?g ! (2 * ?k + 1) = ?g' ! (2 * ?k + 1)" by simp_all
    then show ?thesis by (cases "even j") (auto elim!: evenE oddE)
  qed
qed

text \<open>The children of inner node \<open>k\<close> of the tree over a list of digests.\<close>

definition children :: "ext \<Rightarrow> hash_t list \<Rightarrow> nat \<Rightarrow> bytes" where
  "children E ds k = (let t = generate E ds (new_tree MAX_MERKLE_LEAVES) in t ! (2 * k) @ t ! (2 * k + 1))"

text \<open>The leaves the tree is built on: the digests, filled up with zero digests.\<close>

definition padded :: "hash_t list \<Rightarrow> hash_t list" where
  "padded ds = map (leaf_of ds) [0..<MAX_MERKLE_LEAVES]"

lemma length_new_tree: "length (new_tree MAX_MERKLE_LEAVES) = 2 * MAX_MERKLE_LEAVES - 1"
  by (simp add: new_tree_def)

lemma last_generate:
  "last (generate E ds (new_tree MAX_MERKLE_LEAVES)) =
     generate E ds (new_tree MAX_MERKLE_LEAVES) ! (2 * MAX_MERKLE_LEAVES - 2)"
proof -
  have "length (generate E ds (new_tree MAX_MERKLE_LEAVES)) = 2 * MAX_MERKLE_LEAVES - 1"
    by (simp add: generate_def length_new_tree)
  then show ?thesis
    by (subst last_conv_nth) (auto simp: MAX_MERKLE_LEAVES_def)
qed

section \<open>Properties\<close>

text \<open>C27. The root commits to the digests up to the zero digests a short list is filled up with: two lists
  with the same root are equal once filled up to the number of leaves, and equal when they have the same
  length, unless some inner node of the two trees exhibits a SHA-256 collision.\<close>

theorem merkle_root_binding:
  assumes "sha_law E" "lookup_law E"
    "\<forall>d \<in> set ds. length d = 32" "\<forall>d \<in> set ds'. length d = 32"
    "last (generate E ds (new_tree MAX_MERKLE_LEAVES)) = last (generate E ds' (new_tree MAX_MERKLE_LEAVES))"
  shows "padded ds = padded ds' \<and> (length ds = length ds' \<and> length ds \<le> MAX_MERKLE_LEAVES \<longrightarrow> ds = ds') \<or>
    (\<exists>k < MAX_MERKLE_LEAVES - 1.
      children E ds k \<noteq> children E ds' k \<and> sha256 E (children E ds k) = sha256 E (children E ds' k))"
proof (rule disjCI)
  let ?N = MAX_MERKLE_LEAVES
  assume "\<not> (\<exists>k < ?N - 1. children E ds k \<noteq> children E ds' k \<and> sha256 E (children E ds k) = sha256 E (children E ds' k))"
  then have nocoll: "children E ds k = children E ds' k"
    if "k < ?N - 1" "sha256 E (children E ds k) = sha256 E (children E ds' k)" for k
    using that by blast
  have root: "generate_n E ?N ds (new_tree ?N) ! (2 * ?N - 2) = generate_n E ?N ds' (new_tree ?N) ! (2 * ?N - 2)"
    using assms(5) unfolding last_generate by (simp only: generate_def)
  have *: "generate E ds (new_tree ?N) ! j = generate E ds' (new_tree ?N) ! j" if "j < 2 * ?N - 1" for j
    unfolding generate_def
    by (rule trees_agree [OF assms(1-4) length_new_tree length_new_tree root
          nocoll [unfolded children_def generate_def Let_def] that])
  have leaf: "leaf_of ds i = leaf_of ds' i" if "i < ?N" for i
    using * [of i] that by (simp add: generate_def generate_n_leaf length_new_tree)
  then have "padded ds = padded ds'" by (simp add: padded_def)
  moreover have "ds = ds'" if "length ds = length ds'" "length ds \<le> ?N"
  proof (rule nth_equalityI [OF that(1)])
    fix i assume "i < length ds"
    then show "ds ! i = ds' ! i" using leaf [of i] that by (simp add: leaf_of_def)
  qed
  ultimately show "padded ds = padded ds' \<and> (length ds = length ds' \<and> length ds \<le> ?N \<longrightarrow> ds = ds')" by blast
qed

end
