(* ===== verification/Ext_Instance.thy ===== *)
theory Ext_Instance
  imports Merkle_Tree "HOL-Library.Countable"
begin

text \<open>
  A concrete instance of the third-party routines that satisfies every law the theorems of the
  development assume of them, so that those theorems can be applied at concrete inputs. It is not
  a model of Botan, LZ4 or \<open>nlohmann::json\<close>: Base64 strings are the bytes behind a marker character,
  digests are all zero, a signature is the key followed by the message, compression is the identity,
  and the serialisers write the number of a value in unary.
\<close>

instance json :: countable
  by countable_datatype

definition b64_0 :: "string \<Rightarrow> bytes option" where
  "b64_0 s = (case s of [] \<Rightarrow> Some []
     | c # cs \<Rightarrow> if c = CHR ''!'' then Some (stringToBytes cs) else Some dummy_leaf)"

definition ext0 :: ext where
  "ext0 = \<lparr>base64_encode = (\<lambda>b. if b = [] then [] else CHR ''!'' # bytesToString b),
     base64_decode = b64_0,
     sha256 = (\<lambda>_. dummy_leaf),
     ecdsa_sign = (\<lambda>sk pass m. Some (stringToBytes sk @ m)),
     ecdsa_verify = (\<lambda>pk m sig. Some (sig = stringToBytes pk @ m)),
     hmac_sha256 = (\<lambda>k m. k @ m),
     x509_parse = (\<lambda>s. if s = [] then None
       else Some \<lparr>not_before = 0, not_after = 2000000000, serial_number = stringToBytes s\<rparr>),
     json_dump = (\<lambda>j. replicate (Suc (to_nat j)) CHR ''x''),
     json_parse = (\<lambda>s. if s = [] then None else Some (from_nat (length s - 1))),
     to_cbor = (\<lambda>j. replicate (Suc (to_nat j)) 0),
     from_cbor = (\<lambda>b. if b = [] then None else Some (from_nat (length b - 1))),
     to_msgpack = (\<lambda>j. replicate (Suc (to_nat j)) 0),
     from_msgpack = (\<lambda>b. if b = [] then None else Some (from_nat (length b - 1))),
     lz4_compress = (\<lambda>m. m),
     lz4_decompress_safe = (\<lambda>m cap. if length m \<le> cap then (int (length m), m) else (- 1, m))\<rparr>"

lemma ext0_laws:
  "base64_law ext0" "cbor_law ext0" "dump_law ext0" "sha_law ext0" "lz4_law ext0"
  by (auto simp: ext0_def base64_law_def cbor_law_def dump_law_def sha_law_def lz4_law_def b64_0_def dummy_leaf_def)

lemma ext0_key_pair: "pk \<noteq> [] \<Longrightarrow> key_pair ext0 pk pass pk"
  by (simp add: ext0_def key_pair_def stringToBytes_def)

lemma ext0_lookup: "lookup_law ext0"
proof -
  have "decodeBase64 ext0 v = dummy_leaf" if "(k, v) \<in> set HASH_LOOKUP_B64" for k v
    using that by (auto simp: HASH_LOOKUP_B64_def decodeBase64_def ext0_def b64_0_def)
  then show ?thesis
    by (auto simp: lookup_law_def HASH_LOOKUP_def ext0_def [THEN arg_cong [of _ _ sha256]])
qed

text \<open>The same routines with a short text for one chosen value.\<close>

definition ext_for :: "json \<Rightarrow> ext" where
  "ext_for j0 = ext0\<lparr>
     json_dump := (\<lambda>j. if j = j0 then ''0'' else CHR ''x'' # replicate (to_nat j) CHR ''x''),
     json_parse := (\<lambda>s. if s = [] then None else if s = ''0'' then Some j0 else Some (from_nat (length s - 1)))\<rparr>"

lemma ext_for_same:
  "encodeBase64 (ext_for j0) = encodeBase64 ext0" "decodeBase64 (ext_for j0) = decodeBase64 ext0"
  "sha256 (ext_for j0) = sha256 ext0" "ecdsa_verify (ext_for j0) = ecdsa_verify ext0"
  "ecdsa_sign (ext_for j0) = ecdsa_sign ext0"
  by (simp_all add: ext_for_def fun_eq_iff encodeBase64_def decodeBase64_def)

lemma ext_for_laws:
  "base64_law (ext_for j0)" "cbor_law (ext_for j0)" "dump_law (ext_for j0)" "sha_law (ext_for j0)"
  "lz4_law (ext_for j0)" "lookup_law (ext_for j0)"
  "pk \<noteq> [] \<Longrightarrow> key_pair (ext_for j0) pk pass pk"
proof -
  show "base64_law (ext_for j0)" using ext0_laws(1) by (simp add: base64_law_def ext_for_def)
  show "cbor_law (ext_for j0)" using ext0_laws(2) by (simp add: cbor_law_def ext_for_def)
  show "dump_law (ext_for j0)" by (simp add: dump_law_def ext_for_def)
  show "sha_law (ext_for j0)" using ext0_laws(4) by (simp add: sha_law_def ext_for_same)
  show "lz4_law (ext_for j0)" using ext0_laws(5) by (simp add: lz4_law_def ext_for_def)
  show "lookup_law (ext_for j0)"
    using ext0_lookup unfolding lookup_law_def HASH_LOOKUP_def ext_for_same .
  show "pk \<noteq> [] \<Longrightarrow> key_pair (ext_for j0) pk pass pk"
    using ext0_key_pair [of pk pass] unfolding key_pair_def ext_for_same .
qed

lemma generate_ext_for: "generate (ext_for j0) ds t = generate ext0 ds t"
proof -
  have "makeParent (ext_for j0) = makeParent ext0"
    by (simp add: fun_eq_iff makeParent_def HASH_LOOKUP_def ext_for_same split: option.split)
  then show ?thesis by (simp add: generate_def generate_n_def set_parents_def)
qed

text \<open>The witness of the binding of Merkle roots to their leaves: as all digests of this instance are equal, two
  different leaves give the same root, and the theorem finds the collision.\<close>

lemma ext0_root: "last (generate ext0 ds (new_tree MAX_MERKLE_LEAVES)) = dummy_leaf"
proof -
  let ?N = MAX_MERKLE_LEAVES
  have k: "?N - 2 < ?N - 1" "2 * ?N - 2 = ?N + (?N - 2)" by (simp_all add: MAX_MERKLE_LEAVES_def)
  then show ?thesis
    unfolding last_generate unfolding generate_def k(2) generate_n_parent [OF length_new_tree k(1)]
    by (simp only: makeParent_sha [OF ext0_lookup]) (simp add: ext0_def)
qed

theorem merkle_root_binding_witness:
  "\<exists>k < MAX_MERKLE_LEAVES - 1. children ext0 [dummy_leaf] k \<noteq> children ext0 [replicate 32 1] k \<and>
    sha256 ext0 (children ext0 [dummy_leaf] k) = sha256 ext0 (children ext0 [replicate 32 1] k)"
proof -
  have "last (generate ext0 [dummy_leaf] (new_tree MAX_MERKLE_LEAVES)) = last (generate ext0 [replicate 32 1] (new_tree MAX_MERKLE_LEAVES))"
    by (simp only: ext0_root)
  from merkle_root_binding [OF ext0_laws(4) ext0_lookup _ _ this] show ?thesis
    by (simp add: dummy_leaf_def MAX_MERKLE_LEAVES_def)
qed

end
