(* ===== verification/Setting.thy ===== *)
theory Setting
  imports Json_Schema Ext_Instance
begin

text \<open>
  The configuration of a merger (\<open>src/services/setting.hpp\<close>) and the pool of certificates it fills
  (\<open>src/services/certificate_pool.hpp\<close>). The pool is a map from Base64 ids to certificates. Members of
  the structures that nothing sets start at the values this model gives them.
\<close>

section \<open>Certificate pool\<close>

type_synonym CertificatePool = "string \<rightharpoonup> string"

definition getCert :: "ext \<Rightarrow> id_type \<Rightarrow> CertificatePool \<Rightarrow> string" where
  "getCert E t_id pool = (case pool (encodeBase64 E t_id) of None \<Rightarrow> [] | Some cert \<Rightarrow> cert)"

definition pushCert :: "ext \<Rightarrow> id_type \<Rightarrow> string \<Rightarrow> CertificatePool \<Rightarrow> CertificatePool" where
  "pushCert E t_id cert pool = pool(encodeBase64 E t_id \<mapsto> cert)"

section \<open>Structures\<close>

record GruutAuthorityInfo =
  ga_id :: id_type
  ga_address :: string
  ga_cert :: string

text \<open>\<open>MergerInfo\<close>, \<open>ServiceEndpointInfo\<close> and \<open>TrackerInfo\<close> have the same members.\<close>

record MergerInfo =
  mi_id :: id_type
  mi_address :: string
  mi_port :: string
  mi_cert :: string
  mi_conn_status :: bool

type_synonym ServiceEndpointInfo = MergerInfo
type_synonym TrackerInfo = MergerInfo

record Setting =
  m_id :: id_type
  m_sk :: string
  m_sk_pass :: string
  m_cert :: string
  m_address :: string
  m_port :: string
  m_localchain_id :: localchain_id_type
  m_localchain_name :: string
  m_db_path :: string
  m_gruut_authority :: GruutAuthorityInfo
  m_tracker :: TrackerInfo
  m_service_endpoints :: "ServiceEndpointInfo list"
  m_mergers :: "MergerInfo list"
  m_db_check :: bool
  m_disable_tracker :: bool
  m_tx_forward :: bool

definition new_node_info :: MergerInfo where
  "new_node_info = \<lparr>mi_id = [], mi_address = [], mi_port = [], mi_cert = [], mi_conn_status = False\<rparr>"

definition new_setting :: Setting where
  "new_setting = \<lparr>m_id = [], m_sk = [], m_sk_pass = [], m_cert = [], m_address = [], m_port = DEFAULT_PORT_NUM,
     m_localchain_id = replicate CHAIN_ID_TYPE_SIZE 0, m_localchain_name = [], m_db_path = ''./db'',
     m_gruut_authority = \<lparr>ga_id = [], ga_address = [], ga_cert = []\<rparr>, m_tracker = new_node_info,
     m_service_endpoints = [], m_mergers = [], m_db_check = False, m_disable_tracker = False, m_tx_forward = False\<rparr>"

section \<open>Schema\<close>

definition any_array_t :: json where "any_array_t = json_obj [(''type'', JStr ''array'')]"

definition SCHEMA_SETTING :: json where
  "SCHEMA_SETTING = titled ''Setting''
     [(''Self'', object_t (strs [''id'', ''address'', ''port''] @ [(''sk'', any_array_t)]) [''id'', ''address'', ''port'', ''sk'']),
      (''LocalChain'', object_t (strs [''id'', ''name'']) [''id'', ''name'']),
      (''GA'', object_t (strs [''id'', ''address''] @ [(''cert'', any_array_t)]) [''id'', ''address'', ''cert'']),
      (''TK'', object_t (strs [''id'', ''address'', ''port''] @ [(''cert'', any_array_t)]) [''id'', ''address'', ''port'', ''cert'']),
      (''SE'', array_t (object_t (strs [''id'', ''address''] @ [(''cert'', any_array_t)]) [''id'', ''address'', ''cert''])),
      (''MG'', array_t (object_t (strs [''id'', ''address'', ''port''] @ [(''cert'', any_array_t)])
                         [''id'', ''address'', ''port'', ''cert'']))]
     [''Self'', ''LocalChain'', ''GA'', ''SE'', ''MG'']"

definition setting_validateSchema :: "json \<Rightarrow> bool" where
  "setting_validateSchema tmp = validate tmp SCHEMA_SETTING"

section \<open>Reading the settings\<close>

text \<open>The elements of an array of lines, joined by line feeds.\<close>

definition joinMultiLine :: "json \<Rightarrow> string" where
  "joinMultiLine mline_json =
     concat (map (\<lambda>i. getStringI mline_json i @ (if i \<noteq> json_size mline_json - 1 then [CHR 0x0A] else []))
       [0..<json_size mline_json])"

definition getChainIdFromJson :: "ext \<Rightarrow> bytes \<Rightarrow> json \<Rightarrow> localchain_id_type" where
  "getChainIdFromJson E mem t_json = bytesToArray CHAIN_ID_TYPE_SIZE mem (decodeBase64 E (getString t_json))"

definition readNodeInfo :: "ext \<Rightarrow> json \<Rightarrow> MergerInfo" where
  "readNodeInfo E j = new_node_info\<lparr>mi_id := getBytesFromB64 E j ''id'', mi_address := getStringK j ''address'',
     mi_port := getStringK j ''port'', mi_cert := joinMultiLine (keyword j ''cert'')\<rparr>"

definition push_certs :: "ext \<Rightarrow> MergerInfo list \<Rightarrow> CertificatePool \<Rightarrow> CertificatePool" where
  "push_certs E infos pool = fold (\<lambda>info. pushCert E (mi_id info) (mi_cert info)) infos pool"

text \<open>The own certificate is the one of the last merger with the own id, and stays as it was when there is none.\<close>

definition own_cert :: "id_type \<Rightarrow> MergerInfo list \<Rightarrow> string \<Rightarrow> string" where
  "own_cert my_id infos cert = fold (\<lambda>info c. if mi_id info = my_id then mi_cert info else c) infos cert"

definition setting_setJson :: "ext \<Rightarrow> bytes \<Rightarrow> json \<Rightarrow> Setting \<Rightarrow> CertificatePool \<Rightarrow> bool \<times> Setting \<times> CertificatePool" where
  "setting_setJson E mem setting_json st pool =
     (if \<not> setting_validateSchema setting_json then (False, st, pool)
      else let self = keyword setting_json ''Self''; chain = keyword setting_json ''LocalChain'';
               ga = keyword setting_json ''GA''; tk = keyword setting_json ''TK'';
               port = getStringK self ''port'';
               authority = \<lparr>ga_id = getBytesFromB64 E ga ''id'', ga_address = getStringK ga ''address'',
                            ga_cert = joinMultiLine (keyword ga ''cert'')\<rparr>;
               tracker = readNodeInfo E tk;
               ses = map (readNodeInfo E) (json_elems (keyword setting_json ''SE''));
               mgs = map (readNodeInfo E) (json_elems (keyword setting_json ''MG''));
               my_id = getBytesFromB64 E self ''id''
           in (True,
               st\<lparr>m_id := my_id, m_address := getStringK self ''address'',
                  m_port := (if port = [] then DEFAULT_PORT_NUM else port),
                  m_sk := joinMultiLine (keyword self ''sk''),
                  m_localchain_id := getChainIdFromJson E mem (keyword chain ''id''),
                  m_localchain_name := getStringK chain ''name'', m_db_path := getStringK setting_json ''dbpath'',
                  m_gruut_authority := authority, m_tracker := tracker, m_service_endpoints := ses, m_mergers := mgs,
                  m_cert := own_cert my_id mgs (m_cert st), m_sk_pass := getStringK setting_json ''pass''\<rparr>,
               push_certs E mgs (push_certs E ses (pushCert E (mi_id tracker) (mi_cert tracker)
                 (pushCert E (ga_id authority) (ga_cert authority) pool)))))"

section \<open>Certificates after reading\<close>

lemma getCert_push_certs:
  assumes "base64_law E"
  shows "getCert E t_id (push_certs E infos pool) =
    (case find (\<lambda>info. mi_id info = t_id) (rev infos) of Some info \<Rightarrow> mi_cert info | None \<Rightarrow> getCert E t_id pool)"
proof (induction infos arbitrary: pool)
  case (Cons info infos)
  have "getCert E t_id (pushCert E (mi_id info) (mi_cert info) pool) =
      (if mi_id info = t_id then mi_cert info else getCert E t_id pool)"
    by (auto simp: getCert_def pushCert_def encodeBase64_def base64_inj [OF assms])
  with Cons show ?case by (auto simp: push_certs_def find_append split: option.splits)
qed (simp add: push_certs_def)

lemma own_cert_find:
  "own_cert my_id infos cert = (case find (\<lambda>info. mi_id info = my_id) (rev infos) of Some info \<Rightarrow> mi_cert info | None \<Rightarrow> cert)"
  by (induction infos arbitrary: cert) (auto simp: own_cert_def find_append split: option.splits)

section \<open>Properties\<close>

text \<open>After the settings were read, the certificate pool gives for the id of every configured merger the
  certificate of the last entry with that id, and for the own id the certificate the merger takes as its own.\<close>

theorem configured_certificates:
  assumes "setting_setJson E mem j st pool = (True, st', pool')" "base64_law E" "info \<in> set (m_mergers st')"
  shows "\<exists>info' \<in> set (m_mergers st'). mi_id info' = mi_id info \<and> getCert E (mi_id info) pool' = mi_cert info' \<and>
    (mi_id info = m_id st' \<longrightarrow> m_cert st' = getCert E (mi_id info) pool')"
proof -
  have "find (\<lambda>i. mi_id i = mi_id info) (rev (m_mergers st')) \<noteq> None"
    using assms(3) by (auto simp: find_None_iff)
  then obtain info' where f: "find (\<lambda>i. mi_id i = mi_id info) (rev (m_mergers st')) = Some info'" by auto
  have p: "\<exists>p0. pool' = push_certs E (m_mergers st') p0" and c: "\<exists>c0. m_cert st' = own_cert (m_id st') (m_mergers st') c0"
    using assms(1) by (auto simp: setting_setJson_def Let_def split: if_splits)
  from p f have "getCert E (mi_id info) pool' = mi_cert info'" by (auto simp: getCert_push_certs [OF assms(2)])
  moreover have "mi_id info = m_id st' \<longrightarrow> m_cert st' = mi_cert info'" using c f by (auto simp: own_cert_find)
  moreover have "info' \<in> set (m_mergers st') \<and> mi_id info' = mi_id info" using find_SomeD [OF f] by simp
  ultimately show ?thesis by auto
qed

section \<open>Witnesses\<close>

definition setting_w :: json where
  "setting_w = json_obj
     [(''Self'', json_obj [(''id'', JStr ''!a''), (''address'', JStr ''h''), (''port'', JStr []), (''sk'', JArr [])]),
      (''LocalChain'', json_obj [(''id'', JStr ''!chain001''), (''name'', JStr ''c'')]),
      (''GA'', json_obj [(''id'', JStr ''!g''), (''address'', JStr ''h''), (''cert'', JArr [])]),
      (''SE'', JArr []),
      (''MG'', JArr [json_obj [(''id'', JStr ''!a''), (''address'', JStr ''h''), (''port'', JStr ''1''), (''cert'', JArr [JStr ''x'', JStr ''y''])]])]"

theorem configured_certificates_witness:
  "\<exists>st' pool'. setting_setJson ext0 [] setting_w new_setting Map.empty = (True, st', pool') \<and>
    (\<forall>info \<in> set (m_mergers st'). \<exists>info' \<in> set (m_mergers st'). mi_id info' = mi_id info \<and>
      getCert ext0 (mi_id info) pool' = mi_cert info') \<and> length (m_mergers st') = 1"
proof -
  have "setting_validateSchema setting_w" by code_simp
  then obtain st' pool' where s: "setting_setJson ext0 [] setting_w new_setting Map.empty = (True, st', pool')"
    by (simp add: setting_setJson_def Let_def)
  then have "length (m_mergers st') = 1"
    by (auto simp: setting_setJson_def Let_def setting_w_def keyword_def split: if_splits)
  with s configured_certificates [OF s ext0_laws(1)] show ?thesis by blast
qed

end
