(* ===== verification/Signer_Pool.thy ===== *)
theory Signer_Pool
  imports Ext_Instance
begin

text \<open>
  \<open>class SignerPool\<close> (\<open>src/services/signer_pool.cpp\<close>): the list of connected signers. Clock readings
  are arguments, the random shuffle is a parameter. The pool refines a map from signer ids to signers.
\<close>

section \<open>Operations\<close>

type_synonym SignerPool = "Signer list"

definition find_signer :: "signer_id_type \<Rightarrow> SignerPool \<Rightarrow> Signer option" where
  "find_signer uid pool = find (\<lambda>signer. user_id signer = uid) pool"

definition on_signer :: "signer_id_type \<Rightarrow> (Signer \<Rightarrow> Signer) \<Rightarrow> SignerPool \<Rightarrow> bool \<times> SignerPool" where
  "on_signer uid f pool =
     (if find_signer uid pool = None then (False, pool)
      else (True, update_first (\<lambda>signer. user_id signer = uid) f pool))"

definition pushSigner :: "u64 \<Rightarrow> signer_id_type \<Rightarrow> string \<Rightarrow> bytes \<Rightarrow> SignerStatus \<Rightarrow> SignerPool \<Rightarrow> SignerPool" where
  "pushSigner now uid cert key status pool =
     (let new_signer = \<lparr>user_id = uid, pk_cert = cert, hmac_key = key, last_update = now, signer_status = status\<rparr>
      in if find_signer uid pool = None then pool @ [new_signer]
         else update_first (\<lambda>signer. user_id signer = uid) (\<lambda>_. new_signer) pool)"

definition updatePkCert :: "signer_id_type \<Rightarrow> string \<Rightarrow> SignerPool \<Rightarrow> bool \<times> SignerPool" where
  "updatePkCert uid cert pool = on_signer uid (\<lambda>s. s\<lparr>pk_cert := cert\<rparr>) pool"

definition updateHmacKey :: "u64 \<Rightarrow> signer_id_type \<Rightarrow> bytes \<Rightarrow> SignerPool \<Rightarrow> bool \<times> SignerPool" where
  "updateHmacKey now uid key pool = on_signer uid (\<lambda>s. s\<lparr>hmac_key := key, last_update := now\<rparr>) pool"

definition updateStatus :: "u64 \<Rightarrow> signer_id_type \<Rightarrow> SignerStatus \<Rightarrow> SignerPool \<Rightarrow> bool \<times> SignerPool" where
  "updateStatus now uid status pool = on_signer uid (\<lambda>s. s\<lparr>signer_status := status, last_update := now\<rparr>) pool"

definition removeSigner :: "signer_id_type \<Rightarrow> SignerPool \<Rightarrow> bool \<times> SignerPool" where
  "removeSigner uid pool =
     (if find_signer uid pool = None then (False, pool)
      else (True, remove_first (\<lambda>signer. user_id signer = uid) pool))"

text \<open>An unknown signer has the empty key.\<close>

definition getHmacKey :: "signer_id_type \<Rightarrow> SignerPool \<Rightarrow> bytes" where
  "getHmacKey uid pool = (case find_signer uid pool of None \<Rightarrow> [] | Some s \<Rightarrow> hmac_key s)"

definition getPkCert :: "signer_id_type \<Rightarrow> SignerPool \<Rightarrow> string" where
  "getPkCert uid pool = (case find_signer uid pool of None \<Rightarrow> [] | Some s \<Rightarrow> pk_cert s)"

definition getNumSignerBy :: "SignerStatus \<Rightarrow> SignerPool \<Rightarrow> nat" where
  "getNumSignerBy status pool = length (filter (\<lambda>s. signer_status s = status) pool)"

definition clearPool :: "SignerPool \<Rightarrow> SignerPool" where
  "clearPool pool = []"

text \<open>Asking for more signers than are in good state reads past the end of the vector.\<close>

definition getRandomSigners :: "(Signer list \<Rightarrow> Signer list) \<Rightarrow> nat \<Rightarrow> SignerPool \<Rightarrow> Signer list option" where
  "getRandomSigners shuffle number pool =
     (let signers = shuffle (filter (\<lambda>s. signer_status s = GOOD) pool)
      in if number \<le> length signers then Some (take number signers) else None)"

definition getSigner :: "int \<Rightarrow> SignerPool \<Rightarrow> Signer option" where
  "getSigner index pool = (if 0 \<le> index \<and> nat index < length pool then Some (pool ! nat index) else None)"

section \<open>The map a pool stands for\<close>

datatype signer_op =
    PushSigner u64 signer_id_type string bytes SignerStatus
  | UpdatePkCert signer_id_type string
  | UpdateHmacKey u64 signer_id_type bytes
  | UpdateStatus u64 signer_id_type SignerStatus
  | RemoveSigner signer_id_type
  | ClearPool

fun pool_step :: "signer_op \<Rightarrow> SignerPool \<Rightarrow> SignerPool" where
  "pool_step (PushSigner now uid cert key st) p = pushSigner now uid cert key st p"
| "pool_step (UpdatePkCert uid cert) p = snd (updatePkCert uid cert p)"
| "pool_step (UpdateHmacKey now uid key) p = snd (updateHmacKey now uid key p)"
| "pool_step (UpdateStatus now uid st) p = snd (updateStatus now uid st p)"
| "pool_step (RemoveSigner uid) p = snd (removeSigner uid p)"
| "pool_step ClearPool p = clearPool p"

fun map_step :: "signer_op \<Rightarrow> (signer_id_type \<rightharpoonup> Signer) \<Rightarrow> (signer_id_type \<rightharpoonup> Signer)" where
  "map_step (PushSigner now uid cert key st) m =
     m(uid \<mapsto> \<lparr>user_id = uid, pk_cert = cert, hmac_key = key, last_update = now, signer_status = st\<rparr>)"
| "map_step (UpdatePkCert uid cert) m = m(uid := map_option (\<lambda>s. s\<lparr>pk_cert := cert\<rparr>) (m uid))"
| "map_step (UpdateHmacKey now uid key) m =
     m(uid := map_option (\<lambda>s. s\<lparr>hmac_key := key, last_update := now\<rparr>) (m uid))"
| "map_step (UpdateStatus now uid st) m =
     m(uid := map_option (\<lambda>s. s\<lparr>signer_status := st, last_update := now\<rparr>) (m uid))"
| "map_step (RemoveSigner uid) m = m(uid := None)"
| "map_step ClearPool m = Map.empty"

definition signers_distinct :: "SignerPool \<Rightarrow> bool" where
  "signers_distinct pool \<longleftrightarrow> distinct (map user_id pool)"

lemma find_signer_id: "find_signer uid pool = Some s \<Longrightarrow> user_id s = uid \<and> s \<in> set pool"
  using find_SomeD by (fastforce simp: find_signer_def)

lemma find_signer_None: "find_signer uid pool = None \<longleftrightarrow> uid \<notin> user_id ` set pool"
  by (auto simp: find_signer_def find_None_iff)

lemma find_signer_append:
  "find_signer uid (pool @ [s]) = (case find_signer uid pool of Some t \<Rightarrow> Some t | None \<Rightarrow> if user_id s = uid then Some s else None)"
  by (auto simp: find_signer_def find_append split: option.splits)

lemma find_signer_update:
  assumes "\<And>s. user_id s = uid \<Longrightarrow> user_id (f s) = uid"
  shows "find_signer uid' (update_first (\<lambda>s. user_id s = uid) f pool) =
    (if uid' = uid then map_option f (find_signer uid pool) else find_signer uid' pool)"
  using assms by (auto simp: find_signer_def find_update_first intro!: find_update_first_other)

lemma find_signer_remove:
  assumes "signers_distinct pool"
  shows "find_signer uid' (remove_first (\<lambda>s. user_id s = uid) pool) = (if uid' = uid then None else find_signer uid' pool)"
  using assms
proof (induction pool)
  case (Cons s pool)
  then show ?case by (auto simp: signers_distinct_def find_signer_def find_None_iff rev_image_eqI)
qed (simp add: find_signer_def)

lemma remove_first_distinct: "distinct (map g xs) \<Longrightarrow> distinct (map g (remove_first P xs))"
proof (induction xs)
  case (Cons x xs)
  then show ?case using set_remove_first_subset [of P xs] by auto
qed simp

lemma pool_step_distinct: "signers_distinct pool \<Longrightarrow> signers_distinct (pool_step e pool)"
  by (cases e) (auto simp: signers_distinct_def pushSigner_def updatePkCert_def updateHmacKey_def updateStatus_def
      on_signer_def removeSigner_def clearPool_def Let_def find_signer_None remove_first_distinct)

interpretation signer_pool: invariant_machine pool_step signers_distinct
  by unfold_locales (rule pool_step_distinct)

lemma pool_step_map:
  assumes "signers_distinct pool"
  shows "(\<lambda>uid. find_signer uid (pool_step e pool)) = map_step e (\<lambda>uid. find_signer uid pool)"
proof (cases e)
  case (PushSigner now uid cert key st)
  then show ?thesis
    by (auto simp: pushSigner_def Let_def fun_eq_iff find_signer_append find_signer_update split: option.splits)
qed (use assms in \<open>auto simp: updatePkCert_def updateHmacKey_def updateStatus_def on_signer_def removeSigner_def clearPool_def
    fun_eq_iff find_signer_update find_signer_remove find_signer_def [of _ "[]"]\<close>)

section \<open>Properties\<close>

text \<open>C33. The signer pool is a map from signer ids to signers: whatever sequence of operations runs on a pool
  with different ids, the ids stay different and a search finds what the same operations on a map give.\<close>

theorem signer_pool_refines_map:
  assumes "signers_distinct pool"
  shows "signers_distinct (fold pool_step ops pool) \<and>
    (\<lambda>uid. find_signer uid (fold pool_step ops pool)) = fold map_step ops (\<lambda>uid. find_signer uid pool)"
  using assms
proof (induction ops arbitrary: pool)
  case (Cons e ops)
  from pool_step_map [OF Cons.prems] Cons.IH [OF pool_step_distinct [OF Cons.prems]] show ?case by simp
qed simp

theorem signer_pool_refines_map_witness:
  "(\<lambda>uid. find_signer uid (fold pool_step [PushSigner 5 [1] ''c'' [7] TEMPORARY, UpdateStatus 6 [1] GOOD] [])) =
   fold map_step [PushSigner 5 [1] ''c'' [7] TEMPORARY, UpdateStatus 6 [1] GOOD] (\<lambda>uid. find_signer uid [])"
proof -
  have "signers_distinct []" by (simp add: signers_distinct_def)
  from signer_pool_refines_map [OF this] show ?thesis by blast
qed

end
