(* ===== verification/Message_Codec.thy ===== *)
theory Message_Codec
  imports Setting Signer_Pool
begin

unbundle bit_operations_syntax

text \<open>
  Messages on the wire: the header (\<open>src/chain/message.hpp\<close>, \<open>HeaderController\<close> in
  \<open>src/modules/communication/grpc_util.cpp\<close>), packing and unpacking
  (\<open>src/modules/communication/message_handler.cpp\<close>), message authentication (\<open>src/utils/hmac.hpp\<close>) and
  the two queues (\<open>src/services/input_queue.hpp\<close>, \<open>src/services/output_queue.hpp\<close>).

  A packed message is a list of bytes. An iterator or offset past the end, and an exception of the string
  functions, is \<^const>\<open>None\<close>. The queues are lists: the concurrent queue behind the input queue keeps the
  order of one producer, which is the order modelled.
\<close>

section \<open>Header\<close>

definition HEADER_LENGTH :: nat where "HEADER_LENGTH = 32"
definition SENDER_ID_LENGTH :: nat where "SENDER_ID_LENGTH = 8"
definition RESERVED_LENGTH :: nat where "RESERVED_LENGTH = 6"
definition MSG_LENGTH_SIZE :: nat where "MSG_LENGTH_SIZE = 4"
definition G_IDENT :: byte where "G_IDENT = 0x47"
definition HEADER_VERSION :: byte where "HEADER_VERSION = 0x31"
definition NOT_USED :: byte where "NOT_USED = 0x00"
definition RESERVED :: bytes where "RESERVED = replicate RESERVED_LENGTH 0"

record MessageHeader =
  hdr_identifier :: byte
  hdr_version :: byte
  message_type :: MessageType
  mac_algo_type :: MACAlgorithmType
  compression_algo_type :: CompressionAlgorithmType
  dummy :: byte
  total_length :: bytes
  local_chain_id :: localchain_id_type
  sender_id :: id_type
  reserved_space :: bytes

text \<open>\<open>memcpy\<close> of bytes to an offset.\<close>

definition copy_to :: "nat \<Rightarrow> bytes \<Rightarrow> bytes \<Rightarrow> bytes" where
  "copy_to i src dest = take i dest @ src @ drop (i + length src) dest"

text \<open>Index 9 to 7 take the low byte each, index 6 the rest.\<close>

definition put_length :: "u32 \<Rightarrow> bytes \<Rightarrow> bytes" where
  "put_length len header =
     (let (h, t) = fold (\<lambda>i (h, t). (h[i := h ! i OR ucast t], drop_bit 8 t)) [9, 8, 7] (header, len)
      in h[6 := h ! 6 OR ucast t])"

definition mac_for :: "MessageType \<Rightarrow> MACAlgorithmType" where
  "mac_for msg_type = (if msg_type = MSG_ACCEPT \<or> msg_type = MSG_REQ_SSIG then MAC_HMAC else MAC_NONE)"

definition attachHeader :: "Setting \<Rightarrow> bytes \<Rightarrow> MessageType \<Rightarrow> CompressionAlgorithmType \<Rightarrow> bytes" where
  "attachHeader st compressed_json msg_type comp_type =
     (let h0 = (replicate HEADER_LENGTH 0)[0 := G_IDENT, 1 := HEADER_VERSION, 2 := msg_to_byte msg_type,
                 3 := mac_to_byte (mac_for msg_type), 4 := comp_to_byte comp_type, 5 := NOT_USED];
          h1 = put_length (of_nat (HEADER_LENGTH + length compressed_json)) h0;
          h2 = copy_to 10 (m_localchain_id st) h1;
          h3 = (if SENDER_ID_LENGTH \<le> length (m_id st)
                then copy_to (10 + CHAIN_ID_TYPE_SIZE) (take SENDER_ID_LENGTH (m_id st)) h2 else h2);
          h4 = copy_to (10 + CHAIN_ID_TYPE_SIZE + SENDER_ID_LENGTH) RESERVED h3
      in h4 @ compressed_json)"

definition parseHeader :: "bytes \<Rightarrow> MessageHeader option" where
  "parseHeader raw_data =
     (if length raw_data < HEADER_LENGTH then None
      else Some \<lparr>hdr_identifier = raw_data ! 0, hdr_version = raw_data ! 1, message_type = msg_of_byte (raw_data ! 2),
        mac_algo_type = mac_of_byte (raw_data ! 3), compression_algo_type = comp_of_byte (raw_data ! 4),
        dummy = raw_data ! 5, total_length = take MSG_LENGTH_SIZE (drop 6 raw_data),
        local_chain_id = take CHAIN_ID_TYPE_SIZE (drop 10 raw_data),
        sender_id = take SENDER_ID_LENGTH (drop (10 + CHAIN_ID_TYPE_SIZE) raw_data),
        reserved_space = take RESERVED_LENGTH (drop (10 + CHAIN_ID_TYPE_SIZE + SENDER_ID_LENGTH) raw_data)\<rparr>)"

definition convertU8ToU32BE :: "bytes \<Rightarrow> int" where
  "convertU8ToU32BE len_bytes =
     sint (push_bit 24 (ucast (len_bytes ! 0)) OR push_bit 16 (ucast (len_bytes ! 1)) OR
           push_bit 8 (ucast (len_bytes ! 2)) OR ucast (len_bytes ! 3) :: u32)"

section \<open>Queues\<close>

record InputMsgEntry =
  in_type :: MessageType
  in_body :: json

record OutputMsgEntry =
  out_type :: MessageType
  out_body :: json
  receivers :: "id_type list"

definition input_push :: "MessageType \<Rightarrow> json \<Rightarrow> InputMsgEntry list \<Rightarrow> InputMsgEntry list" where
  "input_push msg_type body q = q @ [\<lparr>in_type = msg_type, in_body = body\<rparr>]"

definition input_fetch :: "InputMsgEntry list \<Rightarrow> InputMsgEntry \<times> InputMsgEntry list" where
  "input_fetch q = (case q of [] \<Rightarrow> (\<lparr>in_type = MSG_NULL, in_body = JNull\<rparr>, []) | m # q' \<Rightarrow> (m, q'))"

definition input_fetchBulk :: "nat \<Rightarrow> InputMsgEntry list \<Rightarrow> InputMsgEntry list \<times> InputMsgEntry list" where
  "input_fetchBulk cnt q = (take cnt q, drop cnt q)"

definition output_push :: "OutputMsgEntry \<Rightarrow> OutputMsgEntry list \<Rightarrow> OutputMsgEntry list" where
  "output_push m q = q @ [m]"

definition output_fetch :: "OutputMsgEntry list \<Rightarrow> OutputMsgEntry \<times> OutputMsgEntry list" where
  "output_fetch q = (case q of [] \<Rightarrow> (\<lparr>out_type = MSG_NULL, out_body = JNull, receivers = []\<rparr>, []) | m # q' \<Rightarrow> (m, q'))"

section \<open>Authentication codes\<close>

definition generateHMAC :: "ext \<Rightarrow> bytes \<Rightarrow> bytes \<Rightarrow> bytes" where
  "generateHMAC E msg key = hmac_sha256 E (sha256 E key) msg"

definition verifyHMAC :: "ext \<Rightarrow> bytes \<Rightarrow> bytes \<Rightarrow> bytes \<Rightarrow> bool" where
  "verifyHMAC E msg hmac key \<longleftrightarrow> hmac_sha256 E (sha256 E key) msg = hmac"

section \<open>Packing and unpacking\<close>

definition DEFAULT_COMPRESSION_TYPE :: CompressionAlgorithmType where
  "DEFAULT_COMPRESSION_TYPE = COMP_LZ4"

definition validateMsgFormat :: "MessageHeader \<Rightarrow> bool" where
  "validateMsgFormat header \<longleftrightarrow> hdr_identifier header = G_IDENT \<and>
     (mac_algo_type header = MAC_HMAC \<longrightarrow> message_type header = MSG_SUCCESS \<or> message_type header = MSG_SSIG)"

definition getMsgBodySize :: "MessageHeader \<Rightarrow> int" where
  "getMsgBodySize header = convertU8ToU32BE (total_length header) - int HEADER_LENGTH"

text \<open>\<open>substr\<close> takes what there is; a negative size is a huge one after the conversion to \<open>size_t\<close>.\<close>

definition getMsgBody :: "bytes \<Rightarrow> int \<Rightarrow> bytes" where
  "getMsgBody packed_msg body_size =
     (if body_size < 0 then drop HEADER_LENGTH packed_msg else take (nat body_size) (drop HEADER_LENGTH packed_msg))"

definition getJson :: "ext \<Rightarrow> CompressionAlgorithmType \<Rightarrow> bytes \<Rightarrow> json" where
  "getJson E comp_type body =
     (if body = [] then JNull
      else case comp_type of
             COMP_LZ4 \<Rightarrow> parseJson E (bytesToString (decompressData E body))
           | COMP_NONE \<Rightarrow> parseJson E (bytesToString body)
           | _ \<Rightarrow> JNull)"

definition genPackedMsg :: "ext \<Rightarrow> Setting \<Rightarrow> MessageType \<Rightarrow> CompressionAlgorithmType \<Rightarrow> json \<Rightarrow> bytes" where
  "genPackedMsg E st msg_type comp_type body =
     (let body_dump = stringToBytes (json_dump E body)
      in attachHeader st (case comp_type of COMP_LZ4 \<Rightarrow> compressData E body_dump | _ \<Rightarrow> body_dump) msg_type comp_type)"

datatype rpc_status = RPC_OK | INVALID_ARGUMENT | UNAUTHENTICATED

text \<open>The bytes that are authenticated and the code that follows them. The iterator
  \<open>begin() + HEADER_LENGTH + body_size\<close> has to lie in the message.\<close>

definition split_hmac :: "bytes \<Rightarrow> int \<Rightarrow> (bytes \<times> bytes) option" where
  "split_hmac packed_msg body_size =
     (let n = int HEADER_LENGTH + body_size
      in if 0 \<le> n \<and> n \<le> int (length packed_msg) then Some (take (nat n) packed_msg, drop (nat n) packed_msg) else None)"

definition unpackMsg ::
  "ext \<Rightarrow> SignerPool \<Rightarrow> bytes \<Rightarrow> id_type \<Rightarrow> InputMsgEntry list \<Rightarrow> (rpc_status \<times> id_type \<times> InputMsgEntry list) option" where
  "unpackMsg E pool packed_msg recv_id q =
     (case parseHeader packed_msg of
        None \<Rightarrow> Some (INVALID_ARGUMENT, recv_id, q)
      | Some header \<Rightarrow>
          if \<not> validateMsgFormat header then Some (INVALID_ARGUMENT, recv_id, q)
          else do {
            let body_size = getMsgBodySize header;
            let recv_id = sender_id header;
            ok \<leftarrow> (if mac_algo_type header = MAC_HMAC then do {
                      (msg, hmac) \<leftarrow> split_hmac packed_msg body_size;
                      Some (verifyHMAC E msg hmac (getHmacKey recv_id pool)) }
                   else Some True);
            if \<not> ok then Some (UNAUTHENTICATED, recv_id, q)
            else let json_data = getJson E (compression_algo_type header) (getMsgBody packed_msg body_size)
                 in if \<not> validateSchema json_data (message_type header) then Some (INVALID_ARGUMENT, recv_id, q)
                    else Some (RPC_OK, recv_id, input_push (message_type header) json_data q) })"

text \<open>The packed messages that are handed to the client, one per receiver when they carry a code.\<close>

definition packMsg :: "ext \<Rightarrow> Setting \<Rightarrow> SignerPool \<Rightarrow> OutputMsgEntry \<Rightarrow> bytes list" where
  "packMsg E st pool output_msg =
     (let packed_msg = genPackedMsg E st (out_type output_msg) DEFAULT_COMPRESSION_TYPE (out_body output_msg)
      in if out_type output_msg = MSG_ACCEPT \<or> out_type output_msg = MSG_REQ_SSIG
         then map (\<lambda>recv_id. packed_msg @ generateHMAC E packed_msg (getHmacKey recv_id pool)) (receivers output_msg)
         else [packed_msg])"

definition genInternalMsg :: "u64 \<Rightarrow> MessageType \<Rightarrow> string \<Rightarrow> InputMsgEntry list \<Rightarrow> InputMsgEntry list" where
  "genInternalMsg now msg_type id_b64 q =
     input_push msg_type
       (if msg_type = MSG_LEAVE
        then json_obj [(''sID'', JStr id_b64), (''time'', JStr (to_string (unat now))), (''msg'', JStr ''disconnected with signer'')]
        else JNull) q"

section \<open>Layout of a packed message\<close>

definition len_bytes :: "u32 \<Rightarrow> bytes" where
  "len_bytes w = [ucast (drop_bit 24 w), ucast (drop_bit 16 w), ucast (drop_bit 8 w), ucast w]"

definition sender_field :: "Setting \<Rightarrow> bytes" where
  "sender_field st = (if SENDER_ID_LENGTH \<le> length (m_id st) then take SENDER_ID_LENGTH (m_id st) else replicate SENDER_ID_LENGTH 0)"

lemmas codec_sizes = HEADER_LENGTH_def SENDER_ID_LENGTH_def RESERVED_LENGTH_def MSG_LENGTH_SIZE_def CHAIN_ID_TYPE_SIZE_def

lemma copy_to_append: "length a = i \<Longrightarrow> length src = length b \<Longrightarrow> copy_to i src (a @ b @ c) = a @ src @ c"
  by (simp add: copy_to_def)

lemma put_length_at:
  "put_length len [a, b, c, d, e, f, 0, 0, 0, 0, g1, g2, g3, g4, g5, g6, g7, g8, s1, s2, s3, s4, s5, s6, s7, s8, r1, r2, r3, r4, r5, r6] =
     [a, b, c, d, e, f] @ len_bytes len @ [g1, g2, g3, g4, g5, g6, g7, g8] @ [s1, s2, s3, s4, s5, s6, s7, s8] @ [r1, r2, r3, r4, r5, r6]"
  by (simp add: put_length_def len_bytes_def drop_bit_drop_bit)

lemma attachHeader_layout:
  assumes "length (m_localchain_id st) = CHAIN_ID_TYPE_SIZE"
  shows "attachHeader st body t c =
    [G_IDENT, HEADER_VERSION, msg_to_byte t, mac_to_byte (mac_for t), comp_to_byte c, NOT_USED] @
    len_bytes (of_nat (HEADER_LENGTH + length body)) @ m_localchain_id st @ sender_field st @ RESERVED @ body"
proof -
  let ?pre = "[G_IDENT, HEADER_VERSION, msg_to_byte t, mac_to_byte (mac_for t), comp_to_byte c, NOT_USED]"
  let ?len = "len_bytes (of_nat (HEADER_LENGTH + length body))"
  have z: "[0, 0, 0, 0, 0, 0, 0, 0] = replicate 8 (0 :: byte)" "[0, 0, 0, 0, 0, 0] = replicate 6 (0 :: byte)"
    by (simp_all add: numeral_eq_Suc)
  have "(replicate HEADER_LENGTH 0)[0 := G_IDENT, 1 := HEADER_VERSION, 2 := msg_to_byte t,
      3 := mac_to_byte (mac_for t), 4 := comp_to_byte c, 5 := NOT_USED] =
      ?pre @ [0, 0, 0, 0, 0, 0, 0, 0, 0, 0, 0, 0, 0, 0, 0, 0, 0, 0, 0, 0, 0, 0, 0, 0, 0, 0]"
    by (simp add: HEADER_LENGTH_def numeral_eq_Suc)
  note h0 = this
  have h1: "put_length (of_nat (HEADER_LENGTH + length body))
      ((replicate HEADER_LENGTH 0)[0 := G_IDENT, 1 := HEADER_VERSION, 2 := msg_to_byte t,
        3 := mac_to_byte (mac_for t), 4 := comp_to_byte c, 5 := NOT_USED]) =
      (?pre @ ?len) @ replicate 8 0 @ replicate 8 0 @ replicate 6 0"
    unfolding h0 by (simp only: append.simps put_length_at append_assoc z [symmetric])
  have l: "length (?pre @ ?len) = 10" by (simp add: len_bytes_def)
  have h2: "copy_to 10 (m_localchain_id st) ((?pre @ ?len) @ replicate 8 0 @ replicate 8 0 @ replicate 6 0) =
      (?pre @ ?len @ m_localchain_id st) @ replicate 8 0 @ replicate 6 0"
    using copy_to_append [OF l] assms by (simp add: CHAIN_ID_TYPE_SIZE_def)
  have l2: "length (?pre @ ?len @ m_localchain_id st) = 10 + CHAIN_ID_TYPE_SIZE" using assms l by simp
  have h3: "(if SENDER_ID_LENGTH \<le> length (m_id st)
      then copy_to (10 + CHAIN_ID_TYPE_SIZE) (take SENDER_ID_LENGTH (m_id st)) ((?pre @ ?len @ m_localchain_id st) @ replicate 8 0 @ replicate 6 0)
      else (?pre @ ?len @ m_localchain_id st) @ replicate 8 0 @ replicate 6 0) =
      (?pre @ ?len @ m_localchain_id st @ sender_field st) @ replicate 6 0 @ []"
    using copy_to_append [OF l2, of "take SENDER_ID_LENGTH (m_id st)" "replicate 8 0" "replicate 6 0"]
    by (simp add: sender_field_def SENDER_ID_LENGTH_def)
  have l3: "length (?pre @ ?len @ m_localchain_id st @ sender_field st) = 10 + CHAIN_ID_TYPE_SIZE + SENDER_ID_LENGTH"
    using assms l by (simp add: sender_field_def SENDER_ID_LENGTH_def)
  have h4: "copy_to (10 + CHAIN_ID_TYPE_SIZE + SENDER_ID_LENGTH) RESERVED ((?pre @ ?len @ m_localchain_id st @ sender_field st) @ replicate 6 0 @ []) =
      ?pre @ ?len @ m_localchain_id st @ sender_field st @ RESERVED"
    using copy_to_append [OF l3, of RESERVED "replicate 6 0" "[]"] by (simp add: RESERVED_def RESERVED_LENGTH_def)
  show ?thesis unfolding attachHeader_def Let_def h1 h2 h3 h4 by simp
qed

lemma convert_len_bytes: "convertU8ToU32BE (len_bytes w) = sint w"
proof -
  have "push_bit 24 (ucast (ucast (drop_bit 24 w) :: byte)) OR push_bit 16 (ucast (ucast (drop_bit 16 w) :: byte)) OR
      push_bit 8 (ucast (ucast (drop_bit 8 w) :: byte)) OR ucast (ucast w :: byte) = w"
 (is "?l = w")
  proof (rule bit_word_eqI)
    fix n assume "n < LENGTH(32)"
    then consider "n < 8" | "8 \<le> n" "n < 16" | "16 \<le> n" "n < 24" | "24 \<le> n" "n < 32" by fastforce
    then show "bit ?l n = bit w n" by cases (auto simp: bit_simps)
  qed
  then show ?thesis by (simp add: convertU8ToU32BE_def len_bytes_def)
qed

lemma length_attachHeader:
  "length (m_localchain_id st) = CHAIN_ID_TYPE_SIZE \<Longrightarrow> length (attachHeader st body t c) = HEADER_LENGTH + length body"
  by (simp add: attachHeader_layout len_bytes_def sender_field_def RESERVED_def codec_sizes)

lemma parse_attach:
  assumes "length (m_localchain_id st) = CHAIN_ID_TYPE_SIZE"
  shows "parseHeader (attachHeader st body t c @ rest) =
    Some \<lparr>hdr_identifier = G_IDENT, hdr_version = HEADER_VERSION, message_type = msg_of_byte (msg_to_byte t),
      mac_algo_type = mac_of_byte (mac_to_byte (mac_for t)), compression_algo_type = comp_of_byte (comp_to_byte c),
      dummy = NOT_USED, total_length = len_bytes (of_nat (HEADER_LENGTH + length body)),
      local_chain_id = m_localchain_id st, sender_id = sender_field st, reserved_space = RESERVED\<rparr>"
proof -
  have "\<not> length (attachHeader st body t c @ rest) < HEADER_LENGTH" using length_attachHeader [OF assms] by simp
  moreover have "length (sender_field st) = 8" by (simp add: sender_field_def SENDER_ID_LENGTH_def)
  moreover have "length (m_localchain_id st) = 8" using assms by (simp add: CHAIN_ID_TYPE_SIZE_def)
  ultimately show ?thesis
    by (simp add: parseHeader_def attachHeader_layout [OF assms] len_bytes_def codec_sizes RESERVED_def)
qed

lemma attached_body_size:
  assumes "HEADER_LENGTH + length body < 2 ^ 31"
  shows "convertU8ToU32BE (len_bytes (of_nat (HEADER_LENGTH + length body))) = int (HEADER_LENGTH + length body)"
proof -
  have "sint (word_of_nat n :: u32) = int n" if "n < 2 ^ 31" for n
    using that by (simp add: sint_uint signed_take_bit_int_eq_self unsigned_of_nat take_bit_nat_eq_self)
  from this [OF assms] show ?thesis by (simp add: convert_len_bytes)
qed

lemma drop_attached: 
  "length (m_localchain_id st) = CHAIN_ID_TYPE_SIZE \<Longrightarrow> drop HEADER_LENGTH (attachHeader st body t c) = body"
  by (simp add: attachHeader_layout len_bytes_def sender_field_def RESERVED_def codec_sizes)

lemma split_hmac_parts: "split_hmac m n = Some (msg, hm) \<Longrightarrow> m = msg @ hm"
  by (auto simp: split_hmac_def Let_def split: if_splits)

lemma getJson_packed:
  assumes "lz4_law E" "dump_law E" "length (stringToBytes (json_dump E body)) \<le> 3 * length (compressData E (stringToBytes (json_dump E body)))"
  shows "getJson E COMP_LZ4 (compressData E (stringToBytes (json_dump E body))) = body"
proof -
  have "json_dump E body \<noteq> []" "json_parse E (json_dump E body) = Some body" using assms(2) by (auto simp: dump_law_def)
  moreover from this have "compressData E (stringToBytes (json_dump E body)) \<noteq> []" using assms(3) by (auto simp: stringToBytes_def)
  ultimately show ?thesis
    unfolding getJson_def decompress_compress [OF assms(1,3)]
    by (simp add: parseJson_def stringToBytes_def bytesToString_def comp_def)
qed

lemma unpack_packMsg:
  assumes "length (m_localchain_id st) = CHAIN_ID_TYPE_SIZE" "\<nexists>b. t = MSG_RAW b" "t \<noteq> MSG_ACCEPT" "t \<noteq> MSG_REQ_SSIG"
    "lz4_law E" "dump_law E" "length (stringToBytes (json_dump E body)) \<le> 3 * length (compressData E (stringToBytes (json_dump E body)))"
    "HEADER_LENGTH + length (compressData E (stringToBytes (json_dump E body))) < 2 ^ 31" "validateSchema body t"
  shows "\<exists>m. packMsg E st pool' \<lparr>out_type = t, out_body = body, receivers = rs\<rparr> = [m] \<and>
    unpackMsg E pool m rid q = Some (RPC_OK, sender_field st, input_push t body q)"
proof -
  define packed where "packed = compressData E (stringToBytes (json_dump E body))"
  let ?m = "attachHeader st packed t COMP_LZ4"
  have mac: "mac_for t = MAC_NONE" "mac_of_byte (mac_to_byte MAC_NONE) = MAC_NONE" "comp_of_byte (comp_to_byte COMP_LZ4) = COMP_LZ4"
    using assms(3,4) mac_of_to_byte [of MAC_NONE] comp_of_to_byte [of COMP_LZ4] by (auto simp: mac_for_def)
  note h = parse_attach [OF assms(1), where rest = "[]", unfolded append_Nil2]
  have "getMsgBodySize \<lparr>hdr_identifier = i, hdr_version = v, message_type = t', mac_algo_type = a, compression_algo_type = c,
      dummy = d, total_length = len_bytes (of_nat (HEADER_LENGTH + length packed)), local_chain_id = l, sender_id = sd, reserved_space = r\<rparr> =
      int (length packed)" for i v t' a c d l sd r
    using attached_body_size [of packed] assms(8) by (simp add: getMsgBodySize_def packed_def)
  moreover have "getMsgBody ?m (int (length packed)) = packed" by (simp add: getMsgBody_def drop_attached [OF assms(1)])
  moreover have "getJson E COMP_LZ4 packed = body" unfolding packed_def by (rule getJson_packed [OF assms(5-7)])
  ultimately have "unpackMsg E pool ?m rid q = Some (RPC_OK, sender_field st, input_push t body q)"
    using assms(9) mac msg_of_to_byte [OF assms(2)] by (simp add: unpackMsg_def h validateMsgFormat_def Let_def)
  moreover have "packMsg E st pool' \<lparr>out_type = t, out_body = body, receivers = rs\<rparr> = [?m]"
    using assms(3,4) by (simp add: packMsg_def genPackedMsg_def DEFAULT_COMPRESSION_TYPE_def packed_def)
  ultimately show ?thesis by blast
qed

section \<open>Properties\<close>

text \<open>C32. A message that one node packs is unpacked by another: for a known type that carries no authentication
  code (not \<open>MSG_ACCEPT\<close> and \<open>MSG_REQ_SSIG\<close>, which are packed with one for signers), a body that fits the schema of the
  type, compresses by at most 3:1 and packs into less than 2^31 bytes, and a chain id of eight bytes, the packed
  message passes all checks, whatever the signer pool holds, and its type and body enter the input queue. This includes \<open>MSG_SUCCESS\<close> and \<open>MSG_SSIG\<close>, which signers are meant to authenticate.\<close>

theorem unpack_packed:
  assumes "length (m_localchain_id st) = CHAIN_ID_TYPE_SIZE" "\<nexists>b. t = MSG_RAW b" "t \<noteq> MSG_ACCEPT" "t \<noteq> MSG_REQ_SSIG"
    "lz4_law E" "dump_law E" "length (stringToBytes (json_dump E body)) \<le> 3 * length (compressData E (stringToBytes (json_dump E body)))"
    "HEADER_LENGTH + length (compressData E (stringToBytes (json_dump E body))) < 2 ^ 31" "validateSchema body t"
  shows "\<exists>m. packMsg E st pool' \<lparr>out_type = t, out_body = body, receivers = rs\<rparr> = [m] \<and>
    unpackMsg E pool m rid q = Some (RPC_OK, sender_field st, input_push t body q)"
  using unpack_packMsg [OF assms] .

text \<open>C15. Only a message that unpacks without error enters the input queue, once, with a body that passes the
  schema of its type. When its header announces an authentication code, the type is one that signers send
  and the message is its authenticated part followed by the code under the key of the sender.\<close>

theorem unpack_accepts:
  assumes "unpackMsg E pool m rid q = Some (status, sid, q')"
  shows "(status \<noteq> RPC_OK \<longrightarrow> q' = q) \<and>
    (status = RPC_OK \<longrightarrow> (\<exists>h body. parseHeader m = Some h \<and> hdr_identifier h = G_IDENT \<and> sid = sender_id h \<and>
       q' = input_push (message_type h) body q \<and> validateSchema body (message_type h) \<and>
       (mac_algo_type h = MAC_HMAC \<longrightarrow> message_type h \<in> {MSG_SUCCESS, MSG_SSIG} \<and>
         (\<exists>msg. m = msg @ generateHMAC E msg (getHmacKey sid pool)))))"
proof (cases "parseHeader m")
  case (Some h)
  have "\<exists>msg. m = msg @ generateHMAC E msg k"
    if "split_hmac m (getMsgBodySize h) = Some (msg, hm)" "verifyHMAC E msg hm k" for msg hm k
    using that split_hmac_parts [OF that(1)] by (auto simp: verifyHMAC_def generateHMAC_def)
  with assms Some show ?thesis
    by (auto simp: unpackMsg_def validateMsgFormat_def Let_def bind_eq_Some_conv split: if_splits prod.splits)
qed (use assms in \<open>auto simp: unpackMsg_def\<close>)

section \<open>Witnesses\<close>

definition st_w :: Setting where
  "st_w = new_setting\<lparr>m_id := [1, 2, 3, 4, 5, 6, 7, 8]\<rparr>"

definition success_w :: json where
  "success_w = json_obj [(''sID'', JStr ''s''), (''time'', JStr ''1''), (''val'', JBool True)]"

lemma st_w_chain: "length (m_localchain_id st_w) = CHAIN_ID_TYPE_SIZE"
  by (simp add: st_w_def new_setting_def)

lemma success_w_ok: "validateSchema success_w MSG_SUCCESS"
  by code_simp

lemma success_w_small:
  "length (stringToBytes (json_dump (ext_for success_w) success_w)) \<le>
     3 * length (compressData (ext_for success_w) (stringToBytes (json_dump (ext_for success_w) success_w)))"
  "HEADER_LENGTH + length (compressData (ext_for success_w) (stringToBytes (json_dump (ext_for success_w) success_w))) < 2 ^ 31"
  by (simp_all add: compressData_def ext_for_def ext0_def stringToBytes_def HEADER_LENGTH_def)

theorem unpack_packed_witness:
  "\<exists>m. packMsg (ext_for success_w) st_w [] \<lparr>out_type = MSG_SUCCESS, out_body = success_w, receivers = []\<rparr> = [m] \<and>
    unpackMsg (ext_for success_w) [] m [] [] = Some (RPC_OK, sender_field st_w, input_push MSG_SUCCESS success_w [])"
  by (rule unpack_packed [OF st_w_chain _ _ _ ext_for_laws(5,3) success_w_small success_w_ok]) simp_all

theorem unpack_accepts_witness:
  "\<exists>m q'. unpackMsg (ext_for success_w) [] m [] [] = Some (RPC_OK, sender_field st_w, q') \<and>
    (\<exists>h body. parseHeader m = Some h \<and> q' = input_push (message_type h) body [] \<and> validateSchema body (message_type h))"
proof -
  obtain m where "unpackMsg (ext_for success_w) [] m [] [] = Some (RPC_OK, sender_field st_w, input_push MSG_SUCCESS success_w [])"
    using unpack_packMsg [OF st_w_chain _ _ _ ext_for_laws(5,3) success_w_small success_w_ok] by blast
  with unpack_accepts [OF this] show ?thesis by blast
qed

end
