(* ===== verification/Conn_Manager.thy ===== *)
theory Conn_Manager
  imports Setting Message_Codec
begin

text \<open>
  The table of the nodes a merger is connected to (\<open>class ConnManager\<close> in
  \<open>src/modules/communication/manage_connection.hpp\<close>) and its set-up from the settings
  (\<open>setUpConnList\<close> in \<open>src/modules/communication/communication.cpp\<close>).

  The two \<open>std::map\<close>s are association lists in the order of their keys, the Base64 ids. A read with \<open>operator[]\<close>
  adds a missing entry, so such a read returns the table as well. The directory of merger files is a list of file
  names with the JSON value each holds; the order in which the file system lists it is a parameter. The mutexes
  are not modelled.
\<close>

section \<open>State\<close>

record merger_height_type =
  mh_merger_id :: id_type
  mh_height :: block_height_type

record ConnManager =
  m_tracker_info :: TrackerInfo
  m_merger_info :: "(string \<times> MergerInfo) list"
  m_se_info :: "(string \<times> ServiceEndpointInfo) list"
  m_init_block_hgt_list :: "merger_height_type list"
  m_enabled_tracker :: bool
  m_enabled_merger_check :: bool
  m_enabled_se_check :: bool
  merger_files :: "(string \<times> json) list"

definition new_conn_manager :: "(string \<times> json) list \<Rightarrow> ConnManager" where
  "new_conn_manager files = \<lparr>m_tracker_info = new_node_info, m_merger_info = [], m_se_info = [], m_init_block_hgt_list = [],
     m_enabled_tracker = True, m_enabled_merger_check = True, m_enabled_se_check = True, merger_files = files\<rparr>"

text \<open>\<open>m[k]\<close> of a map of nodes.\<close>

definition node_at :: "string \<Rightarrow> (string \<times> MergerInfo) list \<Rightarrow> MergerInfo" where
  "node_at k m = (case map_of m k of Some info \<Rightarrow> info | None \<Rightarrow> new_node_info)"

section \<open>Single entries\<close>

definition setTrackerInfo :: "TrackerInfo \<Rightarrow> bool \<Rightarrow> ConnManager \<Rightarrow> ConnManager" where
  "setTrackerInfo tracker_info conn_status cm = cm\<lparr>m_tracker_info := tracker_info\<lparr>mi_conn_status := conn_status\<rparr>\<rparr>"

definition setMergerInfo :: "ext \<Rightarrow> MergerInfo \<Rightarrow> bool \<Rightarrow> ConnManager \<Rightarrow> ConnManager" where
  "setMergerInfo E info conn_status cm =
     cm\<lparr>m_merger_info := ins_member (encodeBase64 E (mi_id info)) (info\<lparr>mi_conn_status := conn_status\<rparr>) (m_merger_info cm)\<rparr>"

definition setSeInfo :: "ext \<Rightarrow> ServiceEndpointInfo \<Rightarrow> bool \<Rightarrow> ConnManager \<Rightarrow> ConnManager" where
  "setSeInfo E info conn_status cm =
     cm\<lparr>m_se_info := ins_member (encodeBase64 E (mi_id info)) (info\<lparr>mi_conn_status := conn_status\<rparr>) (m_se_info cm)\<rparr>"

definition setTrackerStatus :: "bool \<Rightarrow> ConnManager \<Rightarrow> ConnManager" where
  "setTrackerStatus status cm = cm\<lparr>m_tracker_info := (m_tracker_info cm)\<lparr>mi_conn_status := status\<rparr>\<rparr>"

definition setMergerStatus :: "ext \<Rightarrow> id_type \<Rightarrow> bool \<Rightarrow> ConnManager \<Rightarrow> ConnManager" where
  "setMergerStatus E merger_id status cm =
     (if \<not> m_enabled_merger_check cm then cm
      else let k = encodeBase64 E merger_id
           in cm\<lparr>m_merger_info := ins_member k ((node_at k (m_merger_info cm))\<lparr>mi_conn_status := status\<rparr>) (m_merger_info cm)\<rparr>)"

definition setSeStatus :: "ext \<Rightarrow> id_type \<Rightarrow> bool \<Rightarrow> ConnManager \<Rightarrow> ConnManager" where
  "setSeStatus E se_id status cm =
     (if \<not> m_enabled_se_check cm then cm
      else let k = encodeBase64 E se_id
           in cm\<lparr>m_se_info := ins_member k ((node_at k (m_se_info cm))\<lparr>mi_conn_status := status\<rparr>) (m_se_info cm)\<rparr>)"

definition setMergerBlockHgt :: "id_type \<Rightarrow> u64 \<Rightarrow> ConnManager \<Rightarrow> ConnManager" where
  "setMergerBlockHgt merger_id block_height cm =
     cm\<lparr>m_init_block_hgt_list := m_init_block_hgt_list cm @ [\<lparr>mh_merger_id = merger_id, mh_height = block_height\<rparr>]\<rparr>"

definition getMergerInfo :: "ext \<Rightarrow> id_type \<Rightarrow> ConnManager \<Rightarrow> MergerInfo \<times> ConnManager" where
  "getMergerInfo E merger_id cm =
     (let k = encodeBase64 E merger_id; info = node_at k (m_merger_info cm)
      in (info, cm\<lparr>m_merger_info := ins_member k info (m_merger_info cm)\<rparr>))"

definition getSeInfo :: "ext \<Rightarrow> id_type \<Rightarrow> ConnManager \<Rightarrow> ServiceEndpointInfo \<times> ConnManager" where
  "getSeInfo E se_id cm =
     (let k = encodeBase64 E se_id; info = node_at k (m_se_info cm)
      in (info, cm\<lparr>m_se_info := ins_member k info (m_se_info cm)\<rparr>))"

definition hasMergerInfo :: "ext \<Rightarrow> id_type \<Rightarrow> ConnManager \<Rightarrow> bool" where
  "hasMergerInfo E merger_id cm \<longleftrightarrow> map_of (m_merger_info cm) (encodeBase64 E merger_id) \<noteq> None"

definition hasSeInfo :: "ext \<Rightarrow> id_type \<Rightarrow> ConnManager \<Rightarrow> bool" where
  "hasSeInfo E se_id cm \<longleftrightarrow> map_of (m_se_info cm) (encodeBase64 E se_id) \<noteq> None"

definition getTrackerStatus :: "ConnManager \<Rightarrow> bool" where
  "getTrackerStatus cm \<longleftrightarrow> m_enabled_tracker cm \<and> mi_conn_status (m_tracker_info cm)"

definition getMergerStatus :: "ext \<Rightarrow> id_type \<Rightarrow> ConnManager \<Rightarrow> bool \<times> ConnManager" where
  "getMergerStatus E merger_id cm =
     (if \<not> m_enabled_merger_check cm then (True, cm)
      else let (info, cm') = getMergerInfo E merger_id cm in (mi_conn_status info, cm'))"

definition getSeStatus :: "ext \<Rightarrow> id_type \<Rightarrow> ConnManager \<Rightarrow> bool \<times> ConnManager" where
  "getSeStatus E se_id cm =
     (if \<not> m_enabled_se_check cm then (True, cm)
      else let (info, cm') = getSeInfo E se_id cm in (mi_conn_status info, cm'))"

definition disableTracker :: "ConnManager \<Rightarrow> ConnManager" where
  "disableTracker cm = cm\<lparr>m_enabled_tracker := False\<rparr>"

definition disableMergerCheck :: "ConnManager \<Rightarrow> ConnManager" where
  "disableMergerCheck cm = cm\<lparr>m_enabled_merger_check := False\<rparr>"

definition disableSECheck :: "ConnManager \<Rightarrow> ConnManager" where
  "disableSECheck cm = cm\<lparr>m_enabled_se_check := False\<rparr>"

definition clearBlockHgtList :: "ConnManager \<Rightarrow> ConnManager" where
  "clearBlockHgtList cm = cm\<lparr>m_init_block_hgt_list := []\<rparr>"

section \<open>Lists of nodes\<close>

text \<open>A node described by a JSON object; \<open>cert_key\<close> is the member with its certificate.\<close>

definition node_of_json :: "ext \<Rightarrow> string \<Rightarrow> string \<Rightarrow> json \<Rightarrow> MergerInfo" where
  "node_of_json E id_key cert_key j = new_node_info\<lparr>mi_id := decodeBase64 E (getStringK j id_key), mi_address := getStringK j ''ip'',
     mi_port := getStringK j ''port'', mi_cert := getStringK j cert_key\<rparr>"

definition set_one_merger :: "ext \<Rightarrow> Setting \<Rightarrow> json \<Rightarrow> ConnManager \<times> CertificatePool \<Rightarrow> (ConnManager \<times> CertificatePool) option" where
  "set_one_merger E st merger = (\<lambda>(cm, pool).
     if getStringK merger ''mID'' = encodeBase64 E (m_id st) then Some (cm, pool)
     else let info = node_of_json E ''mID'' ''mCert'' merger;
              pool' = pushCert E (mi_id info) (mi_cert info) pool;
              cm' = setMergerInfo E info True cm
          in if json_find merger ''merger'' \<noteq> None
             then do { block_height \<leftarrow> getInt merger ''hgt''; Some (setMergerBlockHgt (mi_id info) block_height cm', pool') }
             else Some (cm', pool'))"

definition setMultiMergerInfo :: "ext \<Rightarrow> Setting \<Rightarrow> json \<Rightarrow> ConnManager \<times> CertificatePool \<Rightarrow> (ConnManager \<times> CertificatePool) option" where
  "setMultiMergerInfo E st merger_list = fold_opt (set_one_merger E st) (json_elems merger_list)"

definition set_one_se :: "ext \<Rightarrow> json \<Rightarrow> ConnManager \<times> CertificatePool \<Rightarrow> ConnManager \<times> CertificatePool" where
  "set_one_se E se = (\<lambda>(cm, pool).
     let info = node_of_json E ''seID'' ''seCert'' se
     in if hasSeInfo E (mi_id info) cm then (cm, pool)
        else (setSeInfo E info True cm, pushCert E (mi_id info) (mi_cert info) pool))"

definition setMultiSeInfo :: "ext \<Rightarrow> json \<Rightarrow> ConnManager \<times> CertificatePool \<Rightarrow> ConnManager \<times> CertificatePool" where
  "setMultiSeInfo E se_list = fold (set_one_se E) (json_elems se_list)"

definition node_to_json :: "ext \<Rightarrow> string \<Rightarrow> string \<Rightarrow> MergerInfo \<Rightarrow> json" where
  "node_to_json E id_key cert_key info = json_obj [(id_key, JStr (encodeBase64 E (mi_id info))), (''ip'', JStr (mi_address info)),
     (''port'', JStr (mi_port info)), (cert_key, JStr (mi_cert info))]"

definition getAllMergerInfoJson :: "ext \<Rightarrow> ConnManager \<Rightarrow> json" where
  "getAllMergerInfoJson E cm = JArr (map (node_to_json E ''mID'' ''mCert'' \<circ> snd) (m_merger_info cm))"

definition getAllSeInfoJson :: "ext \<Rightarrow> ConnManager \<Rightarrow> json" where
  "getAllSeInfoJson E cm = JArr (map (node_to_json E ''seID'' ''seCert'' \<circ> snd) (m_se_info cm))"

definition getAllMergerInfo :: "ConnManager \<Rightarrow> MergerInfo list" where
  "getAllMergerInfo cm = map snd (m_merger_info cm)"

definition getAllSeInfo :: "ConnManager \<Rightarrow> ServiceEndpointInfo list" where
  "getAllSeInfo cm = map snd (m_se_info cm)"

definition getMaxBlockHgtMergers :: "ConnManager \<Rightarrow> block_height_type \<times> id_type list" where
  "getMaxBlockHgtMergers cm =
     (if m_init_block_hgt_list cm = [] then (0, [])
      else let max_height = Max (set (map mh_height (m_init_block_hgt_list cm)))
           in (max_height, map mh_merger_id (filter (\<lambda>info. mh_height info = max_height) (m_init_block_hgt_list cm))))"

section \<open>Files\<close>

definition readMergerInfo :: "ext \<Rightarrow> Setting \<Rightarrow> ((string \<times> json) list \<Rightarrow> (string \<times> json) list) \<Rightarrow>
    ConnManager \<times> CertificatePool \<Rightarrow> (ConnManager \<times> CertificatePool) option" where
  "readMergerInfo E st order = (\<lambda>(cm, pool). setMultiMergerInfo E st (JArr (map snd (order (merger_files cm)))) (cm, pool))"

text \<open>A file name with a slash denotes a file in a directory that does not exist: opening it fails and nothing is
  written.\<close>

definition writeMergerInfo :: "json \<Rightarrow> ConnManager \<Rightarrow> ConnManager" where
  "writeMergerInfo merger_info cm =
     (let merger_id_b64 = getStringK merger_info ''mID''
      in if CHR ''/'' \<in> set merger_id_b64 then cm
         else cm\<lparr>merger_files := ins_member (merger_id_b64 @ ''.json'') merger_info (merger_files cm)\<rparr>)"

section \<open>Set-up from the settings\<close>

definition setUpConnList :: "ext \<Rightarrow> Setting \<Rightarrow> ((string \<times> json) list \<Rightarrow> (string \<times> json) list) \<Rightarrow>
    ConnManager \<times> CertificatePool \<Rightarrow> (ConnManager \<times> CertificatePool) option" where
  "setUpConnList E st order = (\<lambda>(cm, pool).
     let cm1 = setTrackerInfo (m_tracker st) True cm;
         cm2 = fold (\<lambda>info c. if mi_id info = m_id st then c else setMergerInfo E info True c) (m_mergers st) cm1;
         cm3 = fold (\<lambda>info. setSeInfo E info True) (m_service_endpoints st) cm2
     in readMergerInfo E st order (cm3, pool))"

section \<open>Tables of nodes\<close>

text \<open>
  What both tables promise: setting the information of a node replaces the entry of its id and keeps the others. A
  well-formed table has its keys in order, each the Base64 form of the id of its node.
\<close>

locale node_table =
  fixes nodes :: "ConnManager \<Rightarrow> (string \<times> MergerInfo) list"
    and set_info :: "ext \<Rightarrow> MergerInfo \<Rightarrow> bool \<Rightarrow> ConnManager \<Rightarrow> ConnManager"
  assumes set_info_nodes:
    "nodes (set_info E info c cm) = ins_member (encodeBase64 E (mi_id info)) (info\<lparr>mi_conn_status := c\<rparr>) (nodes cm)"
begin

definition well_formed :: "ext \<Rightarrow> ConnManager \<Rightarrow> bool" where
  "well_formed E cm \<longleftrightarrow> sorted_wrt (<) (map fst (nodes cm)) \<and> (\<forall>(k, info) \<in> set (nodes cm). k = encodeBase64 E (mi_id info))"

lemma set_info_lookup:
  "map_of (nodes (set_info E info c cm)) k =
     (if k = encodeBase64 E (mi_id info) then Some (info\<lparr>mi_conn_status := c\<rparr>) else map_of (nodes cm) k)"
  by (simp add: set_info_nodes)

lemma set_info_well_formed: "well_formed E cm \<Longrightarrow> well_formed E (set_info E info c cm)"
  using ins_member_subset [of "encodeBase64 E (mi_id info)" "info\<lparr>mi_conn_status := c\<rparr>" "nodes cm"]
  by (auto simp: well_formed_def set_info_nodes ins_member_sorted)

lemma fold_set_info:
  "nodes (fold (\<lambda>info. set_info E info c) infos cm) =
     fold (\<lambda>(k, v). ins_member k v) (map (\<lambda>info. (encodeBase64 E (mi_id info), info\<lparr>mi_conn_status := c\<rparr>)) infos) (nodes cm)"
  by (induction infos arbitrary: cm) (simp_all add: set_info_nodes)

lemma fold_set_info_known:
  assumes "info \<in> set infos" "inj_on (encodeBase64 E \<circ> mi_id) (set infos)"
  shows "map_of (nodes (fold (\<lambda>info. set_info E info c) infos cm)) (encodeBase64 E (mi_id info)) = Some (info\<lparr>mi_conn_status := c\<rparr>)"
proof -
  have "map_of (rev (map (\<lambda>info. (encodeBase64 E (mi_id info), info\<lparr>mi_conn_status := c\<rparr>)) infos)) (encodeBase64 E (mi_id info)) =
      Some (info\<lparr>mi_conn_status := c\<rparr>)"
    using map_of_keyed_rev [OF assms, of "\<lambda>info. info\<lparr>mi_conn_status := c\<rparr>"] by (simp only: comp_apply)
  then show ?thesis by (simp add: fold_set_info map_of_fold_ins)
qed

lemma well_formed_key: "well_formed E cm \<Longrightarrow> (k, info) \<in> set (nodes cm) \<Longrightarrow> k = encodeBase64 E (mi_id info)"
  by (auto simp: well_formed_def)

lemma well_formed_distinct: "well_formed E cm \<Longrightarrow> distinct (map fst (nodes cm))"
  by (auto simp: well_formed_def strict_sorted_iff)

lemma well_formed_lookup: "well_formed E cm \<Longrightarrow> (k, info) \<in> set (nodes cm) \<longleftrightarrow> map_of (nodes cm) k = Some info"
  using well_formed_distinct [of E cm] by (simp add: map_of_eq_Some_iff)

end

interpretation mergers: node_table m_merger_info setMergerInfo
  by unfold_locales (simp add: setMergerInfo_def)

interpretation endpoints: node_table m_se_info setSeInfo
  by unfold_locales (simp add: setSeInfo_def)

section \<open>Lists from other nodes\<close>

definition merger_entry :: "ext \<Rightarrow> json \<Rightarrow> MergerInfo" where
  "merger_entry E j = node_of_json E ''mID'' ''mCert'' j"

lemma set_one_merger_fields:
  assumes "set_one_merger E st j (cm, pool) = Some (cm', pool')" "getStringK j ''mID'' \<noteq> encodeBase64 E (m_id st)"
  shows "m_merger_info cm' = m_merger_info (setMergerInfo E (merger_entry E j) True cm)"
    "pool' = pushCert E (mi_id (merger_entry E j)) (mi_cert (merger_entry E j)) pool"
  using assms by (auto simp: set_one_merger_def merger_entry_def Let_def setMergerBlockHgt_def split: if_splits Option.bind_splits)

lemma set_multi_mergers:
  assumes "fold_opt (set_one_merger E st) js (cm, pool) = Some (cm', pool')"
  defines "others \<equiv> filter (\<lambda>j. getStringK j ''mID'' \<noteq> encodeBase64 E (m_id st)) js"
  shows "m_merger_info cm' = m_merger_info (fold (\<lambda>info. setMergerInfo E info True) (map (merger_entry E) others) cm)
    \<and> pool' = push_certs E (map (merger_entry E) others) pool"
  using assms(1) unfolding others_def
proof (induction js arbitrary: cm pool)
  case Nil
  then show ?case by (simp add: push_certs_def)
next
  case (Cons j js)
  obtain cm1 pool1 where one: "set_one_merger E st j (cm, pool) = Some (cm1, pool1)"
    and rest: "fold_opt (set_one_merger E st) js (cm1, pool1) = Some (cm', pool')"
    using Cons.prems by (auto split: Option.bind_splits)
  have eq: "m_merger_info c = m_merger_info d \<Longrightarrow>
      m_merger_info (fold (\<lambda>info. setMergerInfo E info True) infos c) = m_merger_info (fold (\<lambda>info. setMergerInfo E info True) infos d)"
    for infos c d by (simp add: mergers.fold_set_info)
  show ?case
  proof (cases "getStringK j ''mID'' = encodeBase64 E (m_id st)")
    case True
    then show ?thesis using Cons.IH [OF rest] one by (simp add: set_one_merger_def)
  next
    case False
    then show ?thesis using Cons.IH [OF rest] set_one_merger_fields [OF one False] eq [OF set_one_merger_fields(1) [OF one False]]
      by (simp add: push_certs_def)
  qed
qed

text \<open>Heights are recorded only for entries that have a member \<open>merger\<close>, which no sender writes.\<close>

lemma set_one_merger_heights:
  assumes "json_find j ''merger'' = None"
  shows "\<exists>cm' pool'. set_one_merger E st j (cm, pool) = Some (cm', pool') \<and> m_init_block_hgt_list cm' = m_init_block_hgt_list cm"
  using assms by (simp add: set_one_merger_def Let_def setMergerInfo_def)

lemma set_multi_heights:
  assumes "\<forall>j \<in> set (json_elems l). json_find j ''merger'' = None"
  shows "\<exists>cm' pool'. setMultiMergerInfo E st l (cm, pool) = Some (cm', pool') \<and> m_init_block_hgt_list cm' = m_init_block_hgt_list cm"
proof -
  have "\<exists>s'. fold_opt (set_one_merger E st) (json_elems l) (cm, pool) = Some s' \<and> m_init_block_hgt_list (fst s') = m_init_block_hgt_list cm"
  proof (rule fold_opt_total)
    fix j and s :: "ConnManager \<times> CertificatePool" assume "j \<in> set (json_elems l)" and I: "m_init_block_hgt_list (fst s) = m_init_block_hgt_list cm"
    with assms set_one_merger_heights [of j E st "fst s" "snd s"] I
    show "\<exists>s'. set_one_merger E st j s = Some s' \<and> m_init_block_hgt_list (fst s') = m_init_block_hgt_list cm" by auto
  qed simp
  then show ?thesis by (auto simp: setMultiMergerInfo_def)
qed

text \<open>The list of one node, read by another.\<close>

lemma node_json_simps [simp]:
  "getStringK (node_to_json E ''mID'' ''mCert'' i) ''mID'' = encodeBase64 E (mi_id i)"
  "json_find (node_to_json E ''mID'' ''mCert'' i) ''merger'' = None"
  by (simp_all add: node_to_json_def getString_def)

lemma merger_entry_node:
  "base64_law E \<Longrightarrow> merger_entry E (node_to_json E ''mID'' ''mCert'' i) = i\<lparr>mi_conn_status := False\<rparr>"
  by (simp add: merger_entry_def node_of_json_def node_to_json_def decode_encode new_node_info_def getString_def)

lemma push_certs_lookup:
  "push_certs E infos pool (encodeBase64 E i) =
     (case map_of (rev (map (\<lambda>info. (encodeBase64 E (mi_id info), mi_cert info)) infos)) (encodeBase64 E i) of
        Some c \<Rightarrow> Some c | None \<Rightarrow> pool (encodeBase64 E i))"
proof (induction infos arbitrary: pool)
  case (Cons a infos)
  then show ?case by (auto simp: push_certs_def pushCert_def map_add_def split: option.splits)
qed (simp add: push_certs_def)

lemma shared_mergers_known:
  assumes "base64_law E" "mergers.well_formed E sender" "(k, i) \<in> set (m_merger_info sender)" "mi_id i \<noteq> m_id st"
  shows "\<exists>cm' pool'. setMultiMergerInfo E st (getAllMergerInfoJson E sender) (cm, pool) = Some (cm', pool') \<and>
    map_of (m_merger_info cm') k = Some (i\<lparr>mi_conn_status := True\<rparr>) \<and> getCert E (mi_id i) pool' = mi_cert i"
proof -
  let ?js = "map (node_to_json E ''mID'' ''mCert'' \<circ> snd) (m_merger_info sender)"
  have elems: "json_elems (getAllMergerInfoJson E sender) = ?js" by (simp add: getAllMergerInfoJson_def)
  have "\<forall>j \<in> set (json_elems (getAllMergerInfoJson E sender)). json_find j ''merger'' = None" by (auto simp: elems)
  from set_multi_heights [OF this] obtain cm' pool' where
    r: "setMultiMergerInfo E st (getAllMergerInfoJson E sender) (cm, pool) = Some (cm', pool')" by blast
  let ?nodes = "filter (\<lambda>i. mi_id i \<noteq> m_id st) (map snd (m_merger_info sender))"
  have enc: "encodeBase64 E a = encodeBase64 E b \<longleftrightarrow> a = b" for a b by (metis assms(1) decode_encode)
  have others: "map (merger_entry E) (filter (\<lambda>j. getStringK j ''mID'' \<noteq> encodeBase64 E (m_id st)) ?js) =
      map (\<lambda>i. i\<lparr>mi_conn_status := False\<rparr>) ?nodes"
    by (simp add: filter_map comp_def enc merger_entry_node [OF assms(1)])
  note m = set_multi_mergers [OF r [unfolded setMultiMergerInfo_def elems], unfolded others]
  have inj: "inj_on (encodeBase64 E \<circ> mi_id) (set (map (\<lambda>i. i\<lparr>mi_conn_status := False\<rparr>) ?nodes))"
  proof (rule inj_onI)
    fix x y assume x: "x \<in> set (map (\<lambda>i. i\<lparr>mi_conn_status := False\<rparr>) ?nodes)" and y: "y \<in> set (map (\<lambda>i. i\<lparr>mi_conn_status := False\<rparr>) ?nodes)"
      and xy: "(encodeBase64 E \<circ> mi_id) x = (encodeBase64 E \<circ> mi_id) y"
    from x obtain kx ix where ix: "(kx, ix) \<in> set (m_merger_info sender)" "x = ix\<lparr>mi_conn_status := False\<rparr>" by auto
    from y obtain ky iy where iy: "(ky, iy) \<in> set (m_merger_info sender)" "y = iy\<lparr>mi_conn_status := False\<rparr>" by auto
    have "kx = ky" using mergers.well_formed_key [OF assms(2)] ix iy xy by simp
    then have "ix = iy" using ix iy mergers.well_formed_lookup [OF assms(2)] by simp
    with ix iy show "x = y" by simp
  qed
  have k: "k = encodeBase64 E (mi_id i)" by (rule mergers.well_formed_key [OF assms(2,3)])
  have mem: "i\<lparr>mi_conn_status := False\<rparr> \<in> set (map (\<lambda>i. i\<lparr>mi_conn_status := False\<rparr>) ?nodes)" using assms(3,4) by force
  note known = mergers.fold_set_info_known [OF mem inj, of True cm]
  have "map_of (rev (map (\<lambda>info. (encodeBase64 E (mi_id info), mi_cert info)) (map (\<lambda>i. i\<lparr>mi_conn_status := False\<rparr>) ?nodes)))
      (encodeBase64 E (mi_id (i\<lparr>mi_conn_status := False\<rparr>))) = Some (mi_cert (i\<lparr>mi_conn_status := False\<rparr>))"
    using map_of_keyed_rev [OF mem inj, of mi_cert] by (simp only: comp_apply)
  then have "getCert E (mi_id i) pool' = mi_cert i" using m by (simp add: getCert_def push_certs_lookup)
  with r known m k show ?thesis by auto
qed

text \<open>Service endpoints do not change the table of mergers, nor the certificate of another id.\<close>

lemma set_multi_se_keeps:
  "m_merger_info (fst (fold (set_one_se E) ses (cm, pool))) = m_merger_info cm"
  "\<forall>j \<in> set ses. decodeBase64 E (getStringK j ''seID'') \<noteq> i \<Longrightarrow> base64_law E \<Longrightarrow>
     snd (fold (set_one_se E) ses (cm, pool)) (encodeBase64 E i) = pool (encodeBase64 E i)"
proof (induction ses arbitrary: cm pool)
  case (Cons se ses)
  { case 1
    show ?case using Cons.IH(1) by (auto simp: set_one_se_def Let_def setSeInfo_def)
  next
    case 2
    then have "encodeBase64 E (decodeBase64 E (getStringK se ''seID'')) \<noteq> encodeBase64 E i"
      by (metis decode_encode list.set_intros(1))
    then show ?case using Cons.IH(2) 2 by (auto simp: set_one_se_def Let_def node_of_json_def pushCert_def new_node_info_def) }
qed simp_all

lemma write_keeps [simp]: "m_merger_info (writeMergerInfo j cm) = m_merger_info cm"
  by (simp add: writeMergerInfo_def Let_def)

end
