(* ===== verification/Message_Validator.thy ===== *)
theory Message_Validator
  imports Message_Codec
begin

text \<open>
  The field checks of incoming messages (\<open>src/services/message_validator.hpp\<close>) and their distribution to the
  components (\<open>src/services/message_proxy.cpp\<close>). A check that throws is \<^const>\<open>None\<close>; nothing on the way
  from the input queue catches it.
\<close>

section \<open>Filters\<close>

datatype EntryType = ET_BASE64 | ET_TIMESTAMP | ET_TIMESTAMP_NOW | ET_HEX | ET_STRING | ET_TYPE | ET_DECIMAL | ET_UINT
  | ET_BOOL | ET_ARRAYOFOBJECT | ET_ARRAYOFSTRING

text \<open>\<open>SIG_NONCE\<close> and \<open>TX_ID\<close> have the same value.\<close>

datatype EntryLength = LEN_ID | LEN_SIG_NONCE | LEN_ECDH_XY | LEN_TX_ID | LEN_NOT_LIMITED

fun entry_length :: "EntryLength \<Rightarrow> nat" where
  "entry_length LEN_ID = 12" | "entry_length LEN_SIG_NONCE = 44" | "entry_length LEN_ECDH_XY = 64"
| "entry_length LEN_TX_ID = 44" | "entry_length LEN_NOT_LIMITED = 0"

definition VALID_FILTER :: "(MessageType \<times> string \<times> EntryType \<times> EntryLength) list" where
  "VALID_FILTER =
     [(MSG_JOIN, ''sID'', ET_BASE64, LEN_ID),
      (MSG_JOIN, ''time'', ET_TIMESTAMP_NOW, LEN_NOT_LIMITED),
      (MSG_JOIN, ''cID'', ET_BASE64, LEN_ID),
      (MSG_RESPONSE_1, ''sID'', ET_BASE64, LEN_ID),
      (MSG_RESPONSE_1, ''time'', ET_TIMESTAMP_NOW, LEN_NOT_LIMITED),
      (MSG_RESPONSE_1, ''sN'', ET_BASE64, LEN_SIG_NONCE),
      (MSG_RESPONSE_1, ''dhx'', ET_HEX, LEN_ECDH_XY),
      (MSG_RESPONSE_1, ''dhy'', ET_HEX, LEN_ECDH_XY),
      (MSG_SUCCESS, ''sID'', ET_BASE64, LEN_ID),
      (MSG_SUCCESS, ''time'', ET_TIMESTAMP_NOW, LEN_NOT_LIMITED),
      (MSG_SUCCESS, ''val'', ET_BOOL, LEN_NOT_LIMITED),
      (MSG_TX, ''txid'', ET_BASE64, LEN_TX_ID),
      (MSG_TX, ''time'', ET_TIMESTAMP, LEN_NOT_LIMITED),
      (MSG_TX, ''rID'', ET_BASE64, LEN_ID),
      (MSG_TX, ''type'', ET_TYPE, LEN_NOT_LIMITED),
      (MSG_TX, ''content'', ET_ARRAYOFSTRING, LEN_NOT_LIMITED),
      (MSG_SSIG, ''sID'', ET_BASE64, LEN_ID),
      (MSG_SSIG, ''time'', ET_TIMESTAMP, LEN_NOT_LIMITED),
      (MSG_PING, ''mID'', ET_BASE64, LEN_ID),
      (MSG_PING, ''time'', ET_TIMESTAMP_NOW, LEN_NOT_LIMITED),
      (MSG_PING, ''sCnt'', ET_UINT, LEN_NOT_LIMITED),
      (MSG_UP, ''mID'', ET_BASE64, LEN_ID),
      (MSG_UP, ''time'', ET_TIMESTAMP_NOW, LEN_NOT_LIMITED),
      (MSG_UP, ''cID'', ET_BASE64, LEN_ID),
      (MSG_UP, ''ip'', ET_STRING, LEN_NOT_LIMITED),
      (MSG_UP, ''port'', ET_STRING, LEN_NOT_LIMITED),
      (MSG_WELCOME, ''mID'', ET_BASE64, LEN_ID),
      (MSG_WELCOME, ''cID'', ET_BASE64, LEN_ID),
      (MSG_WELCOME, ''time'', ET_TIMESTAMP_NOW, LEN_NOT_LIMITED),
      (MSG_WELCOME, ''val'', ET_BOOL, LEN_NOT_LIMITED),
      (MSG_WELCOME, ''merger'', ET_ARRAYOFOBJECT, LEN_NOT_LIMITED),
      (MSG_WELCOME, ''se'', ET_ARRAYOFOBJECT, LEN_NOT_LIMITED),
      (MSG_REQ_CHECK, ''sender'', ET_BASE64, LEN_ID),
      (MSG_REQ_CHECK, ''time'', ET_TIMESTAMP_NOW, LEN_NOT_LIMITED),
      (MSG_REQ_CHECK, ''dID'', ET_BASE64, LEN_ID),
      (MSG_REQ_CHECK, ''txid'', ET_BASE64, LEN_TX_ID),
      (MSG_REQ_HEADER, ''rID'', ET_BASE64, LEN_ID),
      (MSG_REQ_HEADER, ''time'', ET_TIMESTAMP, LEN_NOT_LIMITED),
      (MSG_REQ_HEADER, ''rCert'', ET_STRING, LEN_NOT_LIMITED),
      (MSG_REQ_HEADER, ''hgt'', ET_UINT, LEN_NOT_LIMITED),
      (MSG_REQ_HEADER, ''rSig'', ET_BASE64, LEN_NOT_LIMITED),
      (MSG_BLOCK, ''mID'', ET_BASE64, LEN_ID),
      (MSG_BLOCK, ''tx'', ET_ARRAYOFOBJECT, LEN_NOT_LIMITED),
      (MSG_REQ_BLOCK, ''mID'', ET_BASE64, LEN_ID),
      (MSG_REQ_BLOCK, ''time'', ET_TIMESTAMP_NOW, LEN_NOT_LIMITED),
      (MSG_REQ_BLOCK, ''hgt'', ET_UINT, LEN_NOT_LIMITED)]"

section \<open>Checks\<close>

definition is_b64_char :: "char \<Rightarrow> bool" where
  "is_b64_char c = (let n = of_char c :: nat in
     65 \<le> n \<and> n \<le> 90 \<or> 97 \<le> n \<and> n \<le> 122 \<or> 48 \<le> n \<and> n \<le> 57 \<or> n = 43 \<or> n = 47)"

text \<open>The regular expression: groups of four characters, the last one possibly padded.\<close>

fun b64_match :: "string \<Rightarrow> bool" where
  "b64_match [] = True"
| "b64_match (a # b # c # d # rest) \<longleftrightarrow>
     is_b64_char a \<and> is_b64_char b \<and>
     (is_b64_char c \<and> is_b64_char d \<and> b64_match rest \<or>
      rest = [] \<and> d = CHR ''='' \<and> (is_b64_char c \<or> c = CHR ''=''))"
| "b64_match _ = False"

definition hasValidLength :: "json \<Rightarrow> string \<Rightarrow> EntryLength \<Rightarrow> bool" where
  "hasValidLength msg_body key len \<longleftrightarrow> len = LEN_NOT_LIMITED \<or> length (getStringK msg_body key) = entry_length len"

text \<open>\<open>abs((int)(current_time - tt_time)) < TIME_MAX_DIFF_SEC\<close>: the difference wraps and is cut to 32 bits.\<close>

definition near_now :: "u64 \<Rightarrow> u64 \<Rightarrow> bool" where
  "near_now current_time tt_time \<longleftrightarrow> word_of_int \<bar>cast_int (current_time - tt_time)\<bar> < TIME_MAX_DIFF_SEC"

definition isValidType :: "u64 \<Rightarrow> json \<Rightarrow> EntryType \<Rightarrow> string \<Rightarrow> bool option" where
  "isValidType now msg_body type key =
     (let temp = getStringK msg_body key
      in case type of
           ET_BASE64 \<Rightarrow> Some (temp \<noteq> [] \<and> b64_match temp)
         | ET_TIMESTAMP \<Rightarrow> Some (temp \<noteq> [] \<and> list_all is_digit temp)
         | ET_TIMESTAMP_NOW \<Rightarrow> do {
             tt_time \<leftarrow> getTime msg_body key;
             Some (temp \<noteq> [] \<and> list_all is_digit temp \<and> near_now now tt_time) }
         | ET_HEX \<Rightarrow> Some (temp \<noteq> [] \<and> list_all is_xdigit temp)
         | ET_TYPE \<Rightarrow> Some (temp = TXTYPE_CERTIFICATES \<or> temp = TXTYPE_DIGESTS \<or> temp = TXTYPE_IMMORTALSMS)
         | ET_STRING \<Rightarrow> map_option is_string (json_at msg_body key)
         | ET_DECIMAL \<Rightarrow> Some (temp \<noteq> [] \<and> list_all is_digit temp)
         | ET_UINT \<Rightarrow> if temp \<noteq> [] \<and> list_all is_digit temp then map_option (\<lambda>n. 0 \<le> n) (stoi temp) else Some False
         | ET_BOOL \<Rightarrow> map_option is_boolean (json_at msg_body key)
         | ET_ARRAYOFSTRING \<Rightarrow> map_option (\<lambda>v. is_array v \<and> \<not> json_empty v) (json_at msg_body key)
         | ET_ARRAYOFOBJECT \<Rightarrow> map_option (\<lambda>v. is_array v \<and> \<not> json_empty v) (json_at msg_body key))"

text \<open>The loop over the filter stops at the first check that fails.\<close>

fun run_filter :: "u64 \<Rightarrow> (MessageType \<times> string \<times> EntryType \<times> EntryLength) list \<Rightarrow> InputMsgEntry \<Rightarrow> bool option" where
  "run_filter now [] m = Some True"
| "run_filter now ((t, key, type, len) # fs) m =
     (if t \<noteq> in_type m then run_filter now fs m
      else do {
        ok \<leftarrow> isValidType now (in_body m) type key;
        if ok \<and> hasValidLength (in_body m) key len then run_filter now fs m else Some False })"

definition validate_msg :: "u64 \<Rightarrow> InputMsgEntry \<Rightarrow> bool option" where
  "validate_msg now m = run_filter now VALID_FILTER m"

section \<open>Distribution\<close>

datatype component = SIGNER_POOL_MANAGER | TRANSACTION_COLLECTOR | SIGNATURE_POOL | BP_SCHEDULER | BLOCK_PROCESSOR

definition handler_of :: "MessageType \<Rightarrow> component option" where
  "handler_of t =
     (if t \<in> {MSG_JOIN, MSG_RESPONSE_1, MSG_SUCCESS, MSG_LEAVE} then Some SIGNER_POOL_MANAGER
      else if t = MSG_TX then Some TRANSACTION_COLLECTOR
      else if t = MSG_SSIG then Some SIGNATURE_POOL
      else if t \<in> {MSG_PING, MSG_UP, MSG_WELCOME} then Some BP_SCHEDULER
      else if t \<in> {MSG_REQ_CHECK, MSG_BLOCK, MSG_REQ_BLOCK, MSG_REQ_STATUS, MSG_REQ_HEADER} then Some BLOCK_PROCESSOR
      else None)"

text \<open>The component that \<open>deliverInputMessage\<close> hands a message to, if any.\<close>

definition deliverInputMessage :: "u64 \<Rightarrow> InputMsgEntry \<Rightarrow> component option option" where
  "deliverInputMessage now m = do { ok \<leftarrow> validate_msg now m; Some (if ok then handler_of (in_type m) else None) }"

definition deliverOutputMessage :: "OutputMsgEntry \<Rightarrow> OutputMsgEntry list \<Rightarrow> OutputMsgEntry list" where
  "deliverOutputMessage m q = output_push m q"

section \<open>What the filter ensures\<close>

lemma run_filter_entry:
  assumes "run_filter now fs m = Some True" "(in_type m, key, type, len) \<in> set fs"
  shows "isValidType now (in_body m) type key = Some True \<and> hasValidLength (in_body m) key len"
  using assms by (induction now fs m rule: run_filter.induct) (auto split: if_splits Option.bind_splits)

lemma signed_window: "\<bar>(x + 2 ^ 31) mod 2 ^ 32 - 2 ^ 31\<bar> < 3 \<longleftrightarrow> (2 - x :: int) mod 2 ^ 32 \<le> 4"
proof -
  define r where "r = (x + 2 ^ 31) mod 2 ^ 32"
  have r: "0 \<le> r" "r < 2 ^ 32" by (simp_all add: r_def)
  have "(2 - x) mod 2 ^ 32 = (2 + 2 ^ 31 - (x + 2 ^ 31)) mod 2 ^ 32" by simp
  also have "\<dots> = (2 + 2 ^ 31 - r) mod 2 ^ 32" unfolding r_def by (rule mod_diff_right_eq [symmetric])
  also have "\<dots> = (if r \<le> 2 + 2 ^ 31 then 2 + 2 ^ 31 - r else 2 + 2 ^ 31 - r + 2 ^ 32)"
  proof (cases "r \<le> 2 + 2 ^ 31")
    case False
    have "(2 + 2 ^ 31 - r) mod 2 ^ 32 = (2 + 2 ^ 31 - r + 2 ^ 32) mod 2 ^ 32" by (rule mod_add_self2 [symmetric])
    also have "\<dots> = 2 + 2 ^ 31 - r + 2 ^ 32" using False r by (intro mod_pos_pos_trivial) auto
    finally show ?thesis using False by simp
  qed (use r in \<open>simp add: mod_pos_pos_trivial\<close>)
  finally show ?thesis using r unfolding r_def [symmetric] by auto
qed

lemma near_now_window:
  "near_now now t \<longleftrightarrow> (uint t - uint now + 2) mod 2 ^ 32 \<le> 4"
proof -
  let ?x = "uint now - uint t"
  have "uint (now - t) = take_bit 64 ?x" by (simp add: uint_word_ariths take_bit_eq_mod)
  then have "cast_int (now - t) = signed_take_bit 31 ?x"
    by (simp add: cast_int_def sint_uint unsigned_ucast_eq signed_take_bit_take_bit)
  also have "\<dots> = (?x + 2 ^ 31) mod 2 ^ 32 - 2 ^ 31" by (simp add: signed_take_bit_eq_take_bit_shift take_bit_eq_mod)
  finally have c: "cast_int (now - t) = (?x + 2 ^ 31) mod 2 ^ 32 - 2 ^ 31" .
  let ?d = "\<bar>cast_int (now - t)\<bar>"
  have "?d \<le> 2 ^ 31" using c by (simp add: abs_le_iff)
  then have "uint (word_of_int ?d :: u64) = ?d" by (simp add: uint_word_of_int_eq take_bit_int_eq_self)
  then have "near_now now t \<longleftrightarrow> ?d < 3"
    by (simp add: near_now_def TIME_MAX_DIFF_SEC_def word_less_def)
  also have "\<dots> \<longleftrightarrow> (uint t - uint now + 2) mod 2 ^ 32 \<le> 4" unfolding c using signed_window [of ?x] by (simp add: algebra_simps)
  finally show ?thesis .
qed

section \<open>Properties\<close>

text \<open>A message whose time has to be the present one passes the check of its time exactly when the
  difference to the clock, modulo \<open>2^32\<close> seconds, is at most two seconds. So a time that is a multiple
  of \<open>2^32\<close> seconds away is accepted as well.\<close>

theorem timestamp_window:
  assumes "t < 2 ^ 63" "getStringK body key = to_string t"
  shows "isValidType now body ET_TIMESTAMP_NOW key = Some ((int t - uint now + 2) mod 2 ^ 32 \<le> 4)"
proof -
  have "getTime body key = Some (word_of_int (int t))"
    using assms by (simp add: getTime_def getTimeS_def stoll_to_string)
  moreover have "list_all is_digit (to_string t)"
    using to_string_digits by (fastforce simp: list_all_iff)
  moreover have "uint (word_of_int (int t) :: u64) = int t"
    using assms(1) u64_of_nat [of t] by (simp add: uint_nat)
  ultimately show ?thesis using assms(2) by (simp add: isValidType_def near_now_window Let_def)
qed

theorem timestamp_window_witness:
  "isValidType 1000 (json_obj [(''time'', JStr (to_string (1000 + 2 ^ 32)))]) ET_TIMESTAMP_NOW ''time'' = Some True"
  using timestamp_window [of "1000 + 2 ^ 32" "json_obj [(''time'', JStr (to_string (1000 + 2 ^ 32)))]" "''time''" 1000]
  by (simp add: getStringK_def getString_def)

end
