(* ===== verification/Merger_Client.thy ===== *)
theory Merger_Client
  imports Conn_Manager Message_Validator
begin

text \<open>
  Sending (\<open>src/modules/communication/merger_client.cpp\<close>, \<open>rpc_receiver_list.hpp\<close>,
  \<open>src/modules/message_fetcher/out_message_fetcher.cpp\<close>): a message of the output queue is packed and goes, by its type,
  to mergers, signers, service endpoints or the tracker.

  What leaves the node is appended to \<open>mc_sent\<close>. The network is the record \<open>net\<close>: the JSON value a HTTP post is
  answered with (None when the post fails or the answer is no JSON), whether a HTTP server answers, and whether
  the connection check of another merger succeeds. The streams of signers and their tags are numbers, a null pointer
  is None. An access out of range is \<^const>\<open>None\<close>.
\<close>

section \<open>Streams of the signers\<close>

record SignerRpcInfo =
  tag_identity :: "nat option"
  send_msg :: "nat option"

type_synonym RpcReceiverList = "string \<rightharpoonup> SignerRpcInfo"

definition setReplyMsg :: "string \<Rightarrow> nat \<Rightarrow> nat \<Rightarrow> RpcReceiverList \<Rightarrow> RpcReceiverList" where
  "setReplyMsg recv_id_b64 reply_rpc tag l = l(recv_id_b64 \<mapsto> \<lparr>tag_identity = Some tag, send_msg = Some reply_rpc\<rparr>)"

definition eraseRpcInfo :: "string \<Rightarrow> RpcReceiverList \<Rightarrow> RpcReceiverList" where
  "eraseRpcInfo recv_id_b64 l = l(recv_id_b64 := None)"

definition getSignerRpcInfo :: "ext \<Rightarrow> id_type \<Rightarrow> RpcReceiverList \<Rightarrow> SignerRpcInfo \<times> RpcReceiverList" where
  "getSignerRpcInfo E recv_id l =
     (let k = encodeBase64 E recv_id;
          info = (case l k of Some info \<Rightarrow> info | None \<Rightarrow> \<lparr>tag_identity = None, send_msg = None\<rparr>)
      in (info, l(k \<mapsto> info)))"

definition clearRpcReceiverList :: "RpcReceiverList \<Rightarrow> RpcReceiverList" where
  "clearRpcReceiverList l = (\<lambda>_. None)"

section \<open>State\<close>

datatype net_send =
  ToMerger string bytes
| ToSigner nat "nat option" bytes
| HttpPost string string

record net =
  http_reply :: "string \<Rightarrow> string \<Rightarrow> json option"
  http_up :: "string \<Rightarrow> bool"
  conn_check :: "string \<Rightarrow> bool"

record MergerClient =
  mc_conn :: ConnManager
  mc_rpc :: RpcReceiverList
  mc_sent :: "net_send list"

definition node_address :: "MergerInfo \<Rightarrow> string" where
  "node_address info = mi_address info @ '':'' @ mi_port info"

definition net_out :: "net_send \<Rightarrow> MergerClient \<Rightarrow> MergerClient" where
  "net_out s mc = mc\<lparr>mc_sent := mc_sent mc @ [s]\<rparr>"

section \<open>Kinds of messages\<close>

definition checkMergerMsgType :: "MessageType \<Rightarrow> bool" where
  "checkMergerMsgType t \<longleftrightarrow> t \<in> {MSG_UP, MSG_PING, MSG_TX, MSG_REQ_BLOCK, MSG_WELCOME, MSG_REQ_STATUS, MSG_RES_STATUS, MSG_BLOCK, MSG_ERROR}"

definition checkSignerMsgType :: "MessageType \<Rightarrow> bool" where
  "checkSignerMsgType t \<longleftrightarrow> t \<in> {MSG_CHALLENGE, MSG_RESPONSE_2, MSG_ACCEPT, MSG_REQ_SSIG, MSG_ERROR}"

definition checkSEMsgType :: "MessageType \<Rightarrow> bool" where
  "checkSEMsgType t \<longleftrightarrow> t \<in> {MSG_UP, MSG_PING, MSG_HEADER, MSG_RES_CHECK, MSG_ERROR}"

definition checkTrackerMsgType :: "MessageType \<Rightarrow> bool" where
  "checkTrackerMsgType t \<longleftrightarrow> t \<in> {MSG_CHAIN_INFO, MSG_JOIN_MERGER}"

definition getApiPath :: "MessageType \<Rightarrow> string" where
  "getApiPath t = (if t = MSG_PING then ''/api/ping'' else if t = MSG_HEADER then ''/api/blocks'' else [])"

section \<open>Tracker\<close>

definition sendToTracker :: "net \<Rightarrow> ext \<Rightarrow> OutputMsgEntry \<Rightarrow> MergerClient \<Rightarrow> json \<times> MergerClient" where
  "sendToTracker N E output_msg mc =
     (if \<not> getTrackerStatus (mc_conn mc) then (JNull, mc)
      else let msg = json_dump E (out_body output_msg);
               address = node_address (m_tracker_info (mc_conn mc)) @ ''/src''
           in if out_type output_msg \<in> {MSG_CHAIN_INFO, MSG_JOIN_MERGER}
              then (JNull, net_out (HttpPost (address @ ''/ChainInfo.php'') msg) mc)
              else let a = address @ ''/CheckExist.php''
                   in (case http_reply N a msg of Some j \<Rightarrow> j | None \<Rightarrow> JNull, net_out (HttpPost a msg) mc))"

section \<open>Service endpoints\<close>

definition post_to_se :: "string \<Rightarrow> string \<Rightarrow> ServiceEndpointInfo \<Rightarrow> MergerClient \<Rightarrow> MergerClient" where
  "post_to_se api_path msg se mc = net_out (HttpPost (node_address se @ api_path) msg) mc"

fun send_to_first_se :: "ext \<Rightarrow> string \<Rightarrow> string \<Rightarrow> id_type list \<Rightarrow> MergerClient \<Rightarrow> MergerClient" where
  "send_to_first_se E api_path msg [] mc = mc"
| "send_to_first_se E api_path msg (r # rs) mc =
     (if \<not> hasSeInfo E r (mc_conn mc) then send_to_first_se E api_path msg rs mc
      else let (se, cm) = getSeInfo E r (mc_conn mc); mc1 = mc\<lparr>mc_conn := cm\<rparr>
           in if mi_conn_status se then post_to_se api_path msg se mc1 else send_to_first_se E api_path msg rs mc1)"

definition sendToSE :: "ext \<Rightarrow> id_type list \<Rightarrow> OutputMsgEntry \<Rightarrow> string \<Rightarrow> MergerClient \<Rightarrow> MergerClient" where
  "sendToSE E receiver_list output_msg api_path mc =
     (let msg = json_dump E (out_body output_msg)
      in if receiver_list = []
         then fold (\<lambda>se c. if mi_conn_status se then post_to_se api_path msg se c else c) (getAllSeInfo (mc_conn mc)) mc
         else send_to_first_se E api_path msg receiver_list mc)"

section \<open>Mergers\<close>

definition sendMsgToMerger :: "bytes \<Rightarrow> MergerInfo \<Rightarrow> MergerClient \<Rightarrow> MergerClient" where
  "sendMsgToMerger packed_msg info mc = net_out (ToMerger (node_address info) packed_msg) mc"

definition send_if_connected :: "ext \<Rightarrow> bytes \<Rightarrow> MergerInfo \<Rightarrow> MergerClient \<Rightarrow> bool \<times> MergerClient" where
  "send_if_connected E packed_msg info mc =
     (let (status, cm) = getMergerStatus E (mi_id info) (mc_conn mc); mc1 = mc\<lparr>mc_conn := cm\<rparr>
      in if status then (True, sendMsgToMerger packed_msg info mc1) else (False, mc1))"

text \<open>Asks the tracker about an unknown merger; False when the tracker says it has no information.\<close>

definition ask_tracker :: "net \<Rightarrow> ext \<Rightarrow> id_type \<Rightarrow> MergerClient \<Rightarrow> bool \<times> MergerClient" where
  "ask_tracker N E receiver_id mc =
     (let (reply, mc1) = sendToTracker N E \<lparr>out_type = MSG_NULL,
            out_body = json_obj [(''mID'', JStr (encodeBase64 E receiver_id))], receivers = []\<rparr> mc
      in if json_find reply ''flag'' \<noteq> None then (False, mc1)
         else (True, mc1\<lparr>mc_conn := setMergerInfo E (new_node_info\<lparr>mi_id := receiver_id, mi_address := getStringK reply ''ip'',
                 mi_port := getStringK reply ''port'', mi_cert := getStringK reply ''mCert''\<rparr>) True (mc_conn mc1)\<rparr>))"

fun send_to_first_merger :: "net \<Rightarrow> ext \<Rightarrow> bytes \<Rightarrow> id_type list \<Rightarrow> MergerClient \<Rightarrow> MergerClient" where
  "send_to_first_merger N E packed_msg [] mc = mc"
| "send_to_first_merger N E packed_msg (r # rs) mc =
     (let (known, mc1) = (if hasMergerInfo E r (mc_conn mc) then (True, mc) else ask_tracker N E r mc)
      in if \<not> known then send_to_first_merger N E packed_msg rs mc1
         else let (info, cm) = getMergerInfo E r (mc_conn mc1);
                  (sent, mc2) = send_if_connected E packed_msg info (mc1\<lparr>mc_conn := cm\<rparr>)
              in if sent then mc2 else send_to_first_merger N E packed_msg rs mc2)"

definition sendToMerger :: "net \<Rightarrow> ext \<Rightarrow> id_type list \<Rightarrow> bytes \<Rightarrow> MergerClient \<Rightarrow> MergerClient" where
  "sendToMerger N E receiver_list packed_msg mc =
     (if receiver_list = []
      then fold (\<lambda>info c. snd (send_if_connected E packed_msg info c)) (getAllMergerInfo (mc_conn mc)) mc
      else send_to_first_merger N E packed_msg receiver_list mc)"

section \<open>Signers\<close>

fun sendToSigner :: "ext \<Rightarrow> id_type list \<Rightarrow> bytes list \<Rightarrow> MergerClient \<Rightarrow> MergerClient option" where
  "sendToSigner E [] packed_msg_list mc = Some mc"
| "sendToSigner E (r # rs) [] mc = None"
| "sendToSigner E (r # rs) (m # ms) mc =
     (let (info, l) = getSignerRpcInfo E r (mc_rpc mc); mc1 = mc\<lparr>mc_rpc := l\<rparr>
      in sendToSigner E rs ms (case send_msg info of None \<Rightarrow> mc1 | Some stream \<Rightarrow> net_out (ToSigner stream (tag_identity info) m) mc1))"

section \<open>Sending a message\<close>

definition sendMessage :: "net \<Rightarrow> ext \<Rightarrow> bytes list \<Rightarrow> OutputMsgEntry \<Rightarrow> MergerClient \<Rightarrow> MergerClient option" where
  "sendMessage N E packed_msg_list m mc = do {
     mc1 \<leftarrow> (if checkMergerMsgType (out_type m)
             then (case packed_msg_list of [] \<Rightarrow> None | p # _ \<Rightarrow> Some (sendToMerger N E (receivers m) p mc)) else Some mc);
     mc2 \<leftarrow> (if checkSignerMsgType (out_type m) then sendToSigner E (receivers m) packed_msg_list mc1 else Some mc1);
     let mc3 = (if checkSEMsgType (out_type m) then sendToSE E (receivers m) m (getApiPath (out_type m)) mc2 else mc2);
     Some (if checkTrackerMsgType (out_type m) then snd (sendToTracker N E m mc3) else mc3) }"

definition pack_and_send :: "net \<Rightarrow> ext \<Rightarrow> Setting \<Rightarrow> SignerPool \<Rightarrow> OutputMsgEntry \<Rightarrow> MergerClient \<Rightarrow> MergerClient option" where
  "pack_and_send N E st pool m mc = sendMessage N E (packMsg E st pool m) m mc"

text \<open>The fetcher runs until the queue is empty.\<close>

partial_function (option) out_fetch ::
  "net \<Rightarrow> ext \<Rightarrow> Setting \<Rightarrow> SignerPool \<Rightarrow> OutputMsgEntry list \<Rightarrow> MergerClient \<Rightarrow> (OutputMsgEntry list \<times> MergerClient) option" where
  "out_fetch N E st pool q mc =
     (if q = [] then Some (q, mc)
      else Option.bind (pack_and_send N E st pool (fst (output_fetch q)) mc)
             (\<lambda>mc'. out_fetch N E st pool (snd (output_fetch q)) mc'))"

section \<open>Checking connections\<close>

definition checkRpcConnection :: "net \<Rightarrow> ext \<Rightarrow> MergerClient \<Rightarrow> MergerClient" where
  "checkRpcConnection N E mc =
     mc\<lparr>mc_conn := fold (\<lambda>info. setMergerStatus E (mi_id info) (conn_check N (node_address info))) (getAllMergerInfo (mc_conn mc)) (mc_conn mc)\<rparr>"

definition checkHttpConnection :: "net \<Rightarrow> ext \<Rightarrow> Setting \<Rightarrow> MergerClient \<Rightarrow> MergerClient" where
  "checkHttpConnection N E st mc =
     (let cm = mc_conn mc;
          cm1 = (if m_disable_tracker st then cm else setTrackerStatus (http_up N (node_address (m_tracker_info cm))) cm)
      in mc\<lparr>mc_conn := fold (\<lambda>se. setSeStatus E (mi_id se) (http_up N (node_address se))) (getAllSeInfo cm) cm1\<rparr>)"

text \<open>Joining through the tracker. The flag that is returned says whether the wait for a welcome starts.\<close>

definition join_merger_body :: "ext \<Rightarrow> Setting \<Rightarrow> nth_link_type \<Rightarrow> json" where
  "join_merger_body E st l = json_obj
     [(''msgID'', JStr (to_string (unat (msg_to_byte MSG_JOIN_MERGER)))), (''mID'', JStr (encodeBase64 E (m_id st))),
      (''cID'', JStr (encodeBase64 E (m_localchain_id st))), (''ip'', JStr (m_address st)), (''port'', JStr (m_port st)),
      (''mCert'', JStr (m_cert st)), (''time'', JStr (to_string (unat (link_time l)))), (''hgt'', JNum (uint (link_height l))),
      (''bID'', JStr (encodeBase64 E (link_id l))), (''hash'', JStr (encodeBase64 E (link_hash l))),
      (''prevHash'', JStr (encodeBase64 E (link_prev_hash l))), (''prevbID'', JStr (encodeBase64 E (link_prev_id l)))]"

definition write_others :: "ext \<Rightarrow> Setting \<Rightarrow> (json \<Rightarrow> json option) \<Rightarrow> json \<Rightarrow> ConnManager \<Rightarrow> ConnManager option" where
  "write_others E st f mergers =
     fold_opt (\<lambda>j c. if getStringK j ''mID'' = encodeBase64 E (m_id st) then Some c
                     else map_option (\<lambda>j'. writeMergerInfo j' c) (f j)) (json_elems mergers)"

definition set_known_nodes :: "ext \<Rightarrow> Setting \<Rightarrow> (json \<Rightarrow> json option) \<Rightarrow> json \<Rightarrow> ConnManager \<times> CertificatePool \<Rightarrow>
    (ConnManager \<times> CertificatePool) option" where
  "set_known_nodes E st f msg = (\<lambda>(cm, certs).
     case (json_find msg ''merger'', json_find msg ''se'') of
       (Some mergers, Some ses) \<Rightarrow> do {
         (cm1, certs1) \<leftarrow> setMultiMergerInfo E st mergers (cm, certs);
         cm2 \<leftarrow> write_others E st f mergers cm1;
         Some (setMultiSeInfo E ses (cm2, certs1)) }
     | _ \<Rightarrow> Some (cm, certs))"

definition accessToTracker :: "net \<Rightarrow> ext \<Rightarrow> Setting \<Rightarrow> nth_link_type \<Rightarrow> MergerClient \<times> CertificatePool \<Rightarrow>
    (bool \<times> MergerClient \<times> CertificatePool) option" where
  "accessToTracker N E st l = (\<lambda>(mc, certs).
     let a = node_address (m_tracker_info (mc_conn mc)) @ ''/src/JoinMerger.php'';
         msg = json_dump E (join_merger_body E st l);
         mc1 = net_out (HttpPost a msg) mc
     in case http_reply N a msg of
          None \<Rightarrow> Some (False, mc1, certs)
        | Some response_msg \<Rightarrow> do {
            (cm, certs') \<leftarrow> set_known_nodes E st (json_erase_key ''hgt'') response_msg (mc_conn mc1, certs);
            Some (\<exists>info \<in> set (getAllMergerInfo cm). conn_check N (node_address info), mc1\<lparr>mc_conn := cm\<rparr>, certs') })"

text \<open>\<open>checkUpTracker\<close> of \<open>communication.cpp\<close>, the start of the stage.\<close>

definition checkUpTracker :: "net \<Rightarrow> ext \<Rightarrow> Setting \<Rightarrow> nth_link_type \<Rightarrow> MergerClient \<times> CertificatePool \<Rightarrow>
    (bool \<times> MergerClient \<times> CertificatePool) option" where
  "checkUpTracker N E st l = (\<lambda>(mc, certs).
     if \<not> m_disable_tracker st then accessToTracker N E st l (mc, certs)
     else Some (False, mc\<lparr>mc_conn := disableTracker (mc_conn mc)\<rparr>, certs))"

section \<open>What sending does\<close>

text \<open>A merger is reached when its entry says so, or when connections are not checked.\<close>

definition reached :: "ConnManager \<Rightarrow> MergerInfo \<Rightarrow> bool" where
  "reached cm info \<longleftrightarrow> \<not> m_enabled_merger_check cm \<or> mi_conn_status info"

definition merger_sends :: "ConnManager \<Rightarrow> bytes \<Rightarrow> net_send list" where
  "merger_sends cm p = map (\<lambda>info. ToMerger (node_address info) p) (filter (reached cm) (getAllMergerInfo cm))"

lemma getMergerInfo_known:
  assumes "mergers.well_formed E cm" "map_of (m_merger_info cm) (encodeBase64 E i) = Some info"
  shows "getMergerInfo E i cm = (info, cm)"
  using assms by (simp add: getMergerInfo_def node_at_def mergers.well_formed_def ins_member_same)

lemma getMergerInfo_entry:
  assumes "mergers.well_formed E cm" "(k, info) \<in> set (m_merger_info cm)"
  shows "getMergerInfo E (mi_id info) cm = (info, cm)"
  using assms mergers.well_formed_key [OF assms] mergers.well_formed_lookup [OF assms(1)]
  by (intro getMergerInfo_known) simp_all

lemma send_if_connected_entry:
  assumes "mergers.well_formed E (mc_conn mc)" "info \<in> set (getAllMergerInfo (mc_conn mc))"
  shows "send_if_connected E p info mc =
    (reached (mc_conn mc) info, if reached (mc_conn mc) info then sendMsgToMerger p info mc else mc)"
proof -
  obtain k where k: "(k, info) \<in> set (m_merger_info (mc_conn mc))" using assms(2) by (auto simp: getAllMergerInfo_def)
  show ?thesis
    using getMergerInfo_entry [OF assms(1) k]
    by (simp add: send_if_connected_def getMergerStatus_def reached_def)
qed

lemma fold_send_if_connected:
  assumes "mergers.well_formed E (mc_conn mc)" "set infos \<subseteq> set (getAllMergerInfo (mc_conn mc))"
  shows "fold (\<lambda>info c. snd (send_if_connected E p info c)) infos mc =
    mc\<lparr>mc_sent := mc_sent mc @ map (\<lambda>info. ToMerger (node_address info) p) (filter (reached (mc_conn mc)) infos)\<rparr>"
  using assms
proof (induction infos arbitrary: mc)
  case (Cons info infos)
  then have "snd (send_if_connected E p info mc) = (if reached (mc_conn mc) info then sendMsgToMerger p info mc else mc)"
    using send_if_connected_entry [of E mc info p] by simp
  with Cons show ?case by (simp add: sendMsgToMerger_def net_out_def)
qed simp

lemma broadcast_sends:
  assumes "mergers.well_formed E (mc_conn mc)"
  shows "sendToMerger N E [] p mc = mc\<lparr>mc_sent := mc_sent mc @ merger_sends (mc_conn mc) p\<rparr>"
  using fold_send_if_connected [OF assms, of "getAllMergerInfo (mc_conn mc)" p] by (simp add: sendToMerger_def merger_sends_def)

section \<open>What sending keeps\<close>

text \<open>Sending only appends to what was sent, and entries of the table of mergers stay.\<close>

definition keeps :: "ext \<Rightarrow> MergerClient \<Rightarrow> MergerClient \<Rightarrow> bool" where
  "keeps E mc mc' \<longleftrightarrow> (\<exists>xs. mc_sent mc' = mc_sent mc @ xs) \<and> mergers.well_formed E (mc_conn mc') \<and>
     m_enabled_merger_check (mc_conn mc') = m_enabled_merger_check (mc_conn mc) \<and>
     map_of (m_merger_info (mc_conn mc)) \<subseteq>\<^sub>m map_of (m_merger_info (mc_conn mc'))"

lemma keeps_refl: "mergers.well_formed E (mc_conn mc) \<Longrightarrow> keeps E mc mc"
  by (simp add: keeps_def)

lemma keeps_trans: "keeps E a b \<Longrightarrow> keeps E b c \<Longrightarrow> keeps E a c"
  by (auto simp: keeps_def intro: map_le_trans)

lemma keeps_frame:
  assumes "mergers.well_formed E (mc_conn mc)" "m_merger_info (mc_conn mc') = m_merger_info (mc_conn mc)"
    "m_enabled_merger_check (mc_conn mc') = m_enabled_merger_check (mc_conn mc)" "mc_sent mc' = mc_sent mc @ xs"
  shows "keeps E mc mc'"
  using assms by (simp add: keeps_def mergers.well_formed_def)

lemma sendToTracker_keeps:
  assumes "mergers.well_formed E (mc_conn mc)"
  shows "keeps E mc (snd (sendToTracker N E m mc))" "mc_conn (snd (sendToTracker N E m mc)) = mc_conn mc"
  using assms keeps_refl [OF assms]
  by (auto simp: sendToTracker_def Let_def net_out_def intro: keeps_frame)

lemma ask_tracker_keeps:
  assumes "mergers.well_formed E (mc_conn mc)" "\<not> hasMergerInfo E r (mc_conn mc)" "ask_tracker N E r mc = (known, mc')"
  shows "keeps E mc mc' \<and> (known \<longrightarrow> hasMergerInfo E r (mc_conn mc'))"
proof -
  obtain reply mc1 where t: "sendToTracker N E \<lparr>out_type = MSG_NULL,
      out_body = json_obj [(''mID'', JStr (encodeBase64 E r))], receivers = []\<rparr> mc = (reply, mc1)" by fastforce
  have k1: "keeps E mc mc1" "mc_conn mc1 = mc_conn mc" using sendToTracker_keeps [OF assms(1)] t by (metis snd_conv)+
  have set: "keeps E mc1 (mc1\<lparr>mc_conn := setMergerInfo E info True (mc_conn mc1)\<rparr>)" if "mi_id info = r" for info
    using assms(1,2) k1(2) that mergers.set_info_well_formed [OF assms(1), of info True]
    by (auto simp: keeps_def hasMergerInfo_def setMergerInfo_def map_le_def dom_def)
  show ?thesis
  proof (cases known)
    case True
    define info where "info = new_node_info\<lparr>mi_id := r, mi_address := getStringK reply ''ip'',
      mi_port := getStringK reply ''port'', mi_cert := getStringK reply ''mCert''\<rparr>"
    have "mi_id info = r" "mc' = mc1\<lparr>mc_conn := setMergerInfo E info True (mc_conn mc1)\<rparr>"
      using assms(3) True by (auto simp: ask_tracker_def t info_def split: if_splits)
    then show ?thesis using keeps_trans [OF k1(1) set] by (simp add: hasMergerInfo_def setMergerInfo_def)
  next
    case False
    then show ?thesis using assms(3) k1(1) by (auto simp: ask_tracker_def t split: if_splits)
  qed
qed

lemma send_to_first_merger_keeps:
  "mergers.well_formed E (mc_conn mc) \<Longrightarrow> keeps E mc (send_to_first_merger N E p rs mc)"
proof (induction rs arbitrary: mc)
  case (Cons r rs)
  obtain known mc1 where q: "(if hasMergerInfo E r (mc_conn mc) then (True, mc) else ask_tracker N E r mc) = (known, mc1)" by fastforce
  have mc1: "keeps E mc mc1" "known \<Longrightarrow> hasMergerInfo E r (mc_conn mc1)"
    using q ask_tracker_keeps [OF Cons.prems] keeps_refl [OF Cons.prems] by (auto split: if_splits)
  then have wf: "mergers.well_formed E (mc_conn mc1)" by (simp add: keeps_def)
  show ?case
  proof (cases known)
    case False
    then show ?thesis using Cons.IH [OF wf] mc1(1) q by (auto intro: keeps_trans)
  next
    case True
    then obtain info where info: "map_of (m_merger_info (mc_conn mc1)) (encodeBase64 E r) = Some info"
      using mc1(2) by (auto simp: hasMergerInfo_def)
    have mem: "info \<in> set (getAllMergerInfo (mc_conn mc1))" using map_of_SomeD [OF info] by (force simp: getAllMergerInfo_def)
    have "send_to_first_merger N E p (r # rs) mc =
        (if reached (mc_conn mc1) info then sendMsgToMerger p info mc1 else send_to_first_merger N E p rs mc1)"
      using q True getMergerInfo_known [OF wf info] send_if_connected_entry [OF wf mem] by simp
    moreover have "keeps E mc1 (sendMsgToMerger p info mc1)"
      using wf by (intro keeps_frame) (simp_all add: sendMsgToMerger_def net_out_def)
    ultimately show ?thesis using Cons.IH [OF wf] keeps_trans [OF mc1(1)] by simp
  qed
qed (simp add: keeps_refl)

lemma sendToMerger_keeps:
  assumes "mergers.well_formed E (mc_conn mc)"
  shows "keeps E mc (sendToMerger N E rs p mc)"
proof (cases "rs = []")
  case True
  then show ?thesis using assms by (simp add: broadcast_sends) (rule keeps_frame; simp)
qed (use send_to_first_merger_keeps [OF assms] in \<open>simp add: sendToMerger_def\<close>)

lemma sendToSigner_keeps:
  assumes "length rs \<le> length ms" "mergers.well_formed E (mc_conn mc)"
  shows "\<exists>mc'. sendToSigner E rs ms mc = Some mc' \<and> keeps E mc mc'"
  using assms
proof (induction E rs ms mc rule: sendToSigner.induct)
  case (3 E r rs m ms mc)
  obtain info l where g: "getSignerRpcInfo E r (mc_rpc mc) = (info, l)" by fastforce
  let ?mc = "case send_msg info of None \<Rightarrow> mc\<lparr>mc_rpc := l\<rparr> | Some stream \<Rightarrow> net_out (ToSigner stream (tag_identity info) m) (mc\<lparr>mc_rpc := l\<rparr>)"
  have "keeps E mc ?mc" using 3(3)
    by (intro keeps_frame [where xs = "case send_msg info of None \<Rightarrow> [] | Some stream \<Rightarrow> [ToSigner stream (tag_identity info) m]"])
      (auto simp: net_out_def split: option.splits)
  moreover from this have "mergers.well_formed E (mc_conn ?mc)" by (simp add: keeps_def)
  moreover from 3(1) [OF g [symmetric] refl refl _ this] 3(2) g obtain mc' where
    "sendToSigner E (r # rs) (m # ms) mc = Some mc'" "keeps E ?mc mc'" by auto
  ultimately show ?case by (blast intro: keeps_trans)
qed (auto intro: keeps_refl)

lemma send_to_first_se_keeps: "mergers.well_formed E (mc_conn mc) \<Longrightarrow> keeps E mc (send_to_first_se E path msg rs mc)"
proof (induction rs arbitrary: mc)
  case (Cons r rs)
  obtain se cm where g: "getSeInfo E r (mc_conn mc) = (se, cm)" by fastforce
  have cm: "m_merger_info cm = m_merger_info (mc_conn mc)" "m_enabled_merger_check cm = m_enabled_merger_check (mc_conn mc)"
    using g by (auto simp: getSeInfo_def Let_def)
  have k: "keeps E mc (mc\<lparr>mc_conn := cm\<rparr>)" using Cons.prems cm by (intro keeps_frame) simp_all
  then have wf: "mergers.well_formed E (mc_conn (mc\<lparr>mc_conn := cm\<rparr>))" unfolding keeps_def by blast
  have "keeps E (mc\<lparr>mc_conn := cm\<rparr>) (post_to_se path msg se (mc\<lparr>mc_conn := cm\<rparr>))"
    using wf by (intro keeps_frame) (simp_all add: post_to_se_def net_out_def)
  note keeps_trans [OF k this] and keeps_trans [OF k Cons.IH [OF wf]]
  then show ?case using Cons.IH [OF Cons.prems] g by (simp add: Let_def)
qed (simp add: keeps_refl)

lemma sendToSE_keeps:
  assumes "mergers.well_formed E (mc_conn mc)"
  shows "keeps E mc (sendToSE E rs m path mc)"
proof (cases "rs = []")
  case True
  have "keeps E mc (fold (\<lambda>se c. if mi_conn_status se then post_to_se path msg se c else c) ses mc)" for ses msg
    using assms
  proof (induction ses arbitrary: mc)
    case (Cons se ses)
    have "keeps E mc (post_to_se path msg se mc)"
      using Cons.prems by (intro keeps_frame) (simp_all add: post_to_se_def net_out_def)
    then show ?case using Cons.IH [of "post_to_se path msg se mc"] Cons.IH [OF Cons.prems] by (auto simp: keeps_def intro: map_le_trans)
  qed (simp add: keeps_refl)
  then show ?thesis using True by (simp add: sendToSE_def)
qed (use send_to_first_se_keeps [OF assms] in \<open>simp add: sendToSE_def\<close>)

text \<open>One packed message per receiver: only messages with a code are packed for several signers.\<close>

definition packs_enough :: "OutputMsgEntry \<Rightarrow> bool" where
  "packs_enough m \<longleftrightarrow> (checkSignerMsgType (out_type m) \<longrightarrow> out_type m \<in> {MSG_ACCEPT, MSG_REQ_SSIG} \<or> length (receivers m) \<le> 1)"

lemma merger_type_packed:
  "checkMergerMsgType (out_type m) \<Longrightarrow>
     packMsg E st pool m = [genPackedMsg E st (out_type m) DEFAULT_COMPRESSION_TYPE (out_body m)]"
  by (auto simp: checkMergerMsgType_def packMsg_def Let_def)

lemma enough_packed: "packs_enough m \<Longrightarrow> checkSignerMsgType (out_type m) \<Longrightarrow> length (receivers m) \<le> length (packMsg E st pool m)"
  by (auto simp: packs_enough_def packMsg_def Let_def)

lemma pack_and_send_keeps:
  assumes "packs_enough m" "mergers.well_formed E (mc_conn mc)"
  shows "\<exists>mc'. pack_and_send N E st pool m mc = Some mc' \<and> keeps E mc mc' \<and>
    (checkMergerMsgType (out_type m) \<and> receivers m = [] \<longrightarrow>
       set (merger_sends (mc_conn mc) (hd (packMsg E st pool m))) \<subseteq> set (mc_sent mc'))"
proof -
  let ?p = "hd (packMsg E st pool m)"
  define mc1 where "mc1 = (if checkMergerMsgType (out_type m) then sendToMerger N E (receivers m) ?p mc else mc)"
  have mc1: "(if checkMergerMsgType (out_type m) then (case packMsg E st pool m of [] \<Rightarrow> None | p # _ \<Rightarrow> Some (sendToMerger N E (receivers m) p mc))
      else Some mc) = Some mc1"
    using merger_type_packed [of m] by (auto simp: mc1_def)
  have k1: "keeps E mc mc1" using keeps_refl [OF assms(2)] sendToMerger_keeps [OF assms(2)] by (simp add: mc1_def)
  then have wf1: "mergers.well_formed E (mc_conn mc1)" by (simp add: keeps_def)
  obtain mc2 where mc2: "(if checkSignerMsgType (out_type m) then sendToSigner E (receivers m) (packMsg E st pool m) mc1 else Some mc1) = Some mc2"
    "keeps E mc1 mc2"
    using sendToSigner_keeps [OF enough_packed [OF assms(1), where E = E and st = st and pool = pool] wf1] keeps_refl [OF wf1]
    by (cases "checkSignerMsgType (out_type m)") auto
  then have wf2: "mergers.well_formed E (mc_conn mc2)" by (simp add: keeps_def)
  define mc3 where "mc3 = (if checkSEMsgType (out_type m) then sendToSE E (receivers m) m (getApiPath (out_type m)) mc2 else mc2)"
  have k3: "keeps E mc2 mc3" using keeps_refl [OF wf2] sendToSE_keeps [OF wf2] by (simp add: mc3_def)
  then have wf3: "mergers.well_formed E (mc_conn mc3)" by (simp add: keeps_def)
  define mc4 where "mc4 = (if checkTrackerMsgType (out_type m) then snd (sendToTracker N E m mc3) else mc3)"
  have k4: "keeps E mc3 mc4" using keeps_refl [OF wf3] sendToTracker_keeps [OF wf3] by (simp add: mc4_def)
  have "pack_and_send N E st pool m mc = Some mc4"
    by (simp add: pack_and_send_def sendMessage_def mc1 mc2 flip: mc3_def mc4_def)
  moreover have k14: "keeps E mc1 mc4" by (rule keeps_trans [OF mc2(2) keeps_trans [OF k3 k4]])
  moreover have "set (merger_sends (mc_conn mc) ?p) \<subseteq> set (mc_sent mc1)" if "checkMergerMsgType (out_type m)" "receivers m = []"
    using that by (simp add: mc1_def broadcast_sends [OF assms(2)])
  moreover have "set (mc_sent mc1) \<subseteq> set (mc_sent mc4)" using k14 by (auto simp: keeps_def)
  ultimately show ?thesis using keeps_trans [OF k1 k14] by blast
qed

lemma merger_sends_mono:
  assumes "keeps E mc mc'" "mergers.well_formed E (mc_conn mc)"
  shows "set (merger_sends (mc_conn mc) p) \<subseteq> set (merger_sends (mc_conn mc') p)"
proof -
  have "set (m_merger_info (mc_conn mc)) \<subseteq> set (m_merger_info (mc_conn mc'))"
    using assms mergers.well_formed_lookup [OF assms(2)] mergers.well_formed_lookup [of E "mc_conn mc'"]
    by (auto simp: keeps_def map_le_def dom_def)
  then show ?thesis using assms(1) by (auto simp: merger_sends_def getAllMergerInfo_def reached_def keeps_def)
qed

lemma out_fetch_sends:
  assumes "\<forall>m \<in> set q. packs_enough m" "mergers.well_formed E (mc_conn mc)"
  shows "\<exists>mc'. out_fetch N E st pool q mc = Some ([], mc') \<and> keeps E mc mc' \<and>
    (\<forall>m \<in> set q. checkMergerMsgType (out_type m) \<and> receivers m = [] \<longrightarrow>
       set (merger_sends (mc_conn mc) (hd (packMsg E st pool m))) \<subseteq> set (mc_sent mc'))"
  using assms
proof (induction q arbitrary: mc)
  case Nil
  then show ?case by (subst out_fetch.simps) (simp add: keeps_refl)
next
  case (Cons m q)
  obtain mc1 where mc1: "pack_and_send N E st pool m mc = Some mc1" "keeps E mc mc1"
    "checkMergerMsgType (out_type m) \<and> receivers m = [] \<longrightarrow>
       set (merger_sends (mc_conn mc) (hd (packMsg E st pool m))) \<subseteq> set (mc_sent mc1)"
    using pack_and_send_keeps [of m E mc N st pool] Cons.prems by auto
  then have wf: "mergers.well_formed E (mc_conn mc1)" by (simp add: keeps_def)
  obtain mc2 where mc2: "out_fetch N E st pool q mc1 = Some ([], mc2)" "keeps E mc1 mc2"
    "\<forall>m \<in> set q. checkMergerMsgType (out_type m) \<and> receivers m = [] \<longrightarrow>
       set (merger_sends (mc_conn mc1) (hd (packMsg E st pool m))) \<subseteq> set (mc_sent mc2)"
    using Cons.IH [OF _ wf] Cons.prems(1) by auto
  have "out_fetch N E st pool (m # q) mc = Some ([], mc2)"
    by (subst out_fetch.simps) (simp add: output_fetch_def mc1(1) mc2(1))
  moreover have "set (mc_sent mc1) \<subseteq> set (mc_sent mc2)" using mc2(2) by (auto simp: keeps_def)
  ultimately show ?case
    using mc1 mc2 keeps_trans [OF mc1(2) mc2(2)] merger_sends_mono [OF mc1(2) Cons.prems(2)] by (auto, blast+)
qed

section \<open>What the fetcher sends\<close>

text \<open>What one message of the queue sends: to all reached mergers, or to the first receiver that is reached; to each
  receiver with a stream, with the packed message made for it; to all connected service endpoints, or to the first
  receiver that is one; and to the tracker when it is connected.\<close>

definition stream_of :: "ext \<Rightarrow> RpcReceiverList \<Rightarrow> id_type \<Rightarrow> (nat \<times> nat option) option" where
  "stream_of E l r = (case l (encodeBase64 E r) of None \<Rightarrow> None | Some info \<Rightarrow> map_option (\<lambda>s. (s, tag_identity info)) (send_msg info))"

definition merger_to :: "ext \<Rightarrow> ConnManager \<Rightarrow> id_type list \<Rightarrow> bytes \<Rightarrow> net_send list" where
  "merger_to E cm rs p =
     (if rs = [] then merger_sends cm p
      else map (\<lambda>info. ToMerger (node_address info) p)
             (take 1 (filter (reached cm) (List.map_filter (\<lambda>r. map_of (m_merger_info cm) (encodeBase64 E r)) rs))))"

definition signer_to :: "ext \<Rightarrow> RpcReceiverList \<Rightarrow> id_type list \<Rightarrow> bytes list \<Rightarrow> net_send list" where
  "signer_to E l rs ps = List.map_filter (\<lambda>(r, p). map_option (\<lambda>(s, tag). ToSigner s tag p) (stream_of E l r)) (zip rs ps)"

definition se_to :: "ext \<Rightarrow> ConnManager \<Rightarrow> id_type list \<Rightarrow> string \<Rightarrow> string \<Rightarrow> net_send list" where
  "se_to E cm rs path msg = map (\<lambda>se. HttpPost (node_address se @ path) msg)
     (if rs = [] then filter mi_conn_status (getAllSeInfo cm)
      else take 1 (filter mi_conn_status (List.map_filter (\<lambda>r. map_of (m_se_info cm) (encodeBase64 E r)) rs)))"

definition tracker_to :: "ConnManager \<Rightarrow> string \<Rightarrow> net_send list" where
  "tracker_to cm msg = (if getTrackerStatus cm then [HttpPost (node_address (m_tracker_info cm) @ ''/src/ChainInfo.php'') msg] else [])"

definition sends_of :: "ext \<Rightarrow> Setting \<Rightarrow> SignerPool \<Rightarrow> ConnManager \<Rightarrow> RpcReceiverList \<Rightarrow> OutputMsgEntry \<Rightarrow> net_send list" where
  "sends_of E st pool cm l m = (let ps = packMsg E st pool m; msg = json_dump E (out_body m) in
     (if checkMergerMsgType (out_type m) then merger_to E cm (receivers m) (hd ps) else []) @
     (if checkSignerMsgType (out_type m) then signer_to E l (receivers m) ps else []) @
     (if checkSEMsgType (out_type m) then se_to E cm (receivers m) (getApiPath (out_type m)) msg else []) @
     (if checkTrackerMsgType (out_type m) then tracker_to cm msg else []))"

text \<open>Receivers of a message for mergers are in the table. Otherwise the tracker is asked first, which may change the
  table.\<close>

definition mergers_known :: "ext \<Rightarrow> ConnManager \<Rightarrow> OutputMsgEntry \<Rightarrow> bool" where
  "mergers_known E cm m \<longleftrightarrow> (checkMergerMsgType (out_type m) \<longrightarrow> (\<forall>r \<in> set (receivers m). hasMergerInfo E r cm))"

lemma send_to_first_merger_exact:
  assumes "mergers.well_formed E (mc_conn mc)" "\<forall>r \<in> set rs. hasMergerInfo E r (mc_conn mc)" "rs \<noteq> []"
  shows "send_to_first_merger N E p rs mc = mc\<lparr>mc_sent := mc_sent mc @ merger_to E (mc_conn mc) rs p\<rparr>"
  using assms
proof (induction rs)
  case (Cons r rs)
  then obtain info where info: "map_of (m_merger_info (mc_conn mc)) (encodeBase64 E r) = Some info"
    by (auto simp: hasMergerInfo_def)
  have mem: "info \<in> set (getAllMergerInfo (mc_conn mc))" using map_of_SomeD [OF info] by (force simp: getAllMergerInfo_def)
  have "send_to_first_merger N E p (r # rs) mc =
      (if reached (mc_conn mc) info then sendMsgToMerger p info mc else send_to_first_merger N E p rs mc)"
    using Cons.prems getMergerInfo_known [OF Cons.prems(1) info] send_if_connected_entry [OF Cons.prems(1) mem] by simp
  with Cons info show ?case
    by (cases "rs = []") (auto simp: merger_to_def map_filter_simps sendMsgToMerger_def net_out_def)
qed simp

lemma sendToMerger_exact:
  assumes "mergers.well_formed E (mc_conn mc)" "\<forall>r \<in> set rs. hasMergerInfo E r (mc_conn mc)"
  shows "sendToMerger N E rs p mc = mc\<lparr>mc_sent := mc_sent mc @ merger_to E (mc_conn mc) rs p\<rparr>"
  using broadcast_sends [OF assms(1)] send_to_first_merger_exact [OF assms]
  by (cases "rs = []") (simp_all add: merger_to_def sendToMerger_def)

lemma stream_of_get:
  assumes "getSignerRpcInfo E r l = (info, l')"
  shows "stream_of E l' = stream_of E l" "stream_of E l r = map_option (\<lambda>s. (s, tag_identity info)) (send_msg info)"
proof -
  have l': "l' = l(encodeBase64 E r \<mapsto> info)"
    "info = (case l (encodeBase64 E r) of Some info \<Rightarrow> info | None \<Rightarrow> \<lparr>tag_identity = None, send_msg = None\<rparr>)"
    using assms by (auto simp: getSignerRpcInfo_def Let_def)
  show "stream_of E l r = map_option (\<lambda>s. (s, tag_identity info)) (send_msg info)"
    using l'(2) by (simp add: stream_of_def split: option.splits)
  then show "stream_of E l' = stream_of E l" by (auto simp: stream_of_def l'(1) fun_eq_iff split: if_splits)
qed

lemma sendToSigner_exact:
  "if length rs \<le> length ps
   then \<exists>l. sendToSigner E rs ps mc = Some (mc\<lparr>mc_rpc := l, mc_sent := mc_sent mc @ signer_to E (mc_rpc mc) rs ps\<rparr>) \<and>
          stream_of E l = stream_of E (mc_rpc mc)
   else sendToSigner E rs ps mc = None"
proof (induction E rs ps mc rule: sendToSigner.induct)
  case (1 E ps mc)
  show ?case by (auto simp: signer_to_def map_filter_simps intro: exI [of _ "mc_rpc mc"])
next
  case (3 E r rs m ms mc)
  obtain info l where g: "getSignerRpcInfo E r (mc_rpc mc) = (info, l)" by fastforce
  show ?case
    using 3 [OF g [symmetric] refl refl] stream_of_get [OF g]
    by (auto simp: g Let_def signer_to_def map_filter_simps net_out_def stream_of_get(2) [OF g] split: option.splits if_splits)
qed simp

lemma sendToSE_exact:
  assumes "endpoints.well_formed E (mc_conn mc)"
  shows "sendToSE E rs m path mc = mc\<lparr>mc_sent := mc_sent mc @ se_to E (mc_conn mc) rs path (json_dump E (out_body m))\<rparr>"
proof (cases "rs = []")
  case True
  have "fold (\<lambda>se c. if mi_conn_status se then post_to_se path msg se c else c) ses mc =
      mc\<lparr>mc_sent := mc_sent mc @ map (\<lambda>se. HttpPost (node_address se @ path) msg) (filter mi_conn_status ses)\<rparr>" for msg ses mc
    by (induction ses arbitrary: mc) (simp_all add: post_to_se_def net_out_def)
  with True show ?thesis by (simp add: sendToSE_def se_to_def)
next
  case False
  have "send_to_first_se E path msg rs mc = mc\<lparr>mc_sent := mc_sent mc @ map (\<lambda>se. HttpPost (node_address se @ path) msg)
      (take 1 (filter mi_conn_status (List.map_filter (\<lambda>r. map_of (m_se_info (mc_conn mc)) (encodeBase64 E r)) rs)))\<rparr>" for msg
  proof (induction rs)
    case (Cons r rs)
    have "getSeInfo E r (mc_conn mc) = (se, mc_conn mc)" if "map_of (m_se_info (mc_conn mc)) (encodeBase64 E r) = Some se" for se
      using assms that by (simp add: getSeInfo_def node_at_def endpoints.well_formed_def ins_member_same)
    with Cons show ?case by (auto simp: map_filter_simps hasSeInfo_def post_to_se_def net_out_def split: option.splits)
  qed (simp add: map_filter_simps)
  with False show ?thesis by (simp add: sendToSE_def se_to_def)
qed

lemma sendToTracker_exact:
  "checkTrackerMsgType (out_type m) \<Longrightarrow>
     snd (sendToTracker N E m mc) = mc\<lparr>mc_sent := mc_sent mc @ tracker_to (mc_conn mc) (json_dump E (out_body m))\<rparr>"
  by (auto simp: sendToTracker_def tracker_to_def net_out_def checkTrackerMsgType_def)

lemma not_enough_packed:
  "checkSignerMsgType (out_type m) \<Longrightarrow> length (receivers m) \<le> length (packMsg E st pool m) \<longleftrightarrow> packs_enough m"
  by (auto simp: packs_enough_def packMsg_def Let_def)

lemma pack_and_send_exact:
  assumes "mergers.well_formed E (mc_conn mc)" "endpoints.well_formed E (mc_conn mc)" "mergers_known E (mc_conn mc) m"
  shows "if packs_enough m
    then \<exists>l. pack_and_send N E st pool m mc =
           Some (mc\<lparr>mc_rpc := l, mc_sent := mc_sent mc @ sends_of E st pool (mc_conn mc) (mc_rpc mc) m\<rparr>) \<and>
         stream_of E l = stream_of E (mc_rpc mc)
    else pack_and_send N E st pool m mc = None"
proof -
  let ?ps = "packMsg E st pool m"
  define mc1 where "mc1 = (if checkMergerMsgType (out_type m)
    then mc\<lparr>mc_sent := mc_sent mc @ merger_to E (mc_conn mc) (receivers m) (hd ?ps)\<rparr> else mc)"
  have mc1: "(if checkMergerMsgType (out_type m) then (case ?ps of [] \<Rightarrow> None | p # _ \<Rightarrow> Some (sendToMerger N E (receivers m) p mc))
      else Some mc) = Some mc1"
    using merger_type_packed [of m] sendToMerger_exact [OF assms(1)] assms(3) by (auto simp: mc1_def mergers_known_def)
  have frame: "mc_conn mc1 = mc_conn mc" "mc_rpc mc1 = mc_rpc mc" by (simp_all add: mc1_def)
  define mc2 where "mc2 l = mc1\<lparr>mc_rpc := l, mc_sent := mc_sent mc1 @
    (if checkSignerMsgType (out_type m) then signer_to E (mc_rpc mc) (receivers m) ?ps else [])\<rparr>" for l
  let ?signers = "if checkSignerMsgType (out_type m) then sendToSigner E (receivers m) ?ps mc1 else Some mc1"
  have mc2: "if packs_enough m then \<exists>l. ?signers = Some (mc2 l) \<and> stream_of E l = stream_of E (mc_rpc mc) else ?signers = None"
    using sendToSigner_exact [of "receivers m" ?ps E mc1] not_enough_packed [of m E st pool]
    by (auto simp: mc2_def frame packs_enough_def intro: exI [of _ "mc_rpc mc"])
  have rest: "Some (if checkTrackerMsgType (out_type m) then snd (sendToTracker N E m
        (if checkSEMsgType (out_type m) then sendToSE E (receivers m) m (getApiPath (out_type m)) (mc2 l) else mc2 l))
      else if checkSEMsgType (out_type m) then sendToSE E (receivers m) m (getApiPath (out_type m)) (mc2 l) else mc2 l) =
     Some (mc\<lparr>mc_rpc := l, mc_sent := mc_sent mc @ sends_of E st pool (mc_conn mc) (mc_rpc mc) m\<rparr>)" for l
    using sendToSE_exact [of E "mc2 l" "receivers m" m] assms(2)
    by (simp add: sends_of_def Let_def sendToTracker_exact mc2_def mc1_def)
  show ?thesis
    using mc2 rest by (auto simp: pack_and_send_def sendMessage_def mc1 Let_def split: if_splits)
qed

section \<open>Properties\<close>

text \<open>C19. What the fetcher of the output queue sends, exactly and in order. With well-formed tables, and when the
  receivers of messages for mergers are in the table of mergers: the loop ends with an empty queue and has
  appended to what was sent, message by message in the order of the queue, the packed message for the reached mergers
  (all of them, or the first reached receiver), one packed message for each receiver with a stream, the body for the
  connected service endpoints and for the connected tracker, each as the type says; the tables stay. If some message
  for signers without an authentication code has more than one receiver, the loop reads past the one packed
  message and does not return.\<close>

theorem out_queue_sent:
  assumes "mergers.well_formed E (mc_conn mc)" "endpoints.well_formed E (mc_conn mc)" "\<forall>m \<in> set q. mergers_known E (mc_conn mc) m"
  shows "if \<forall>m \<in> set q. packs_enough m
    then \<exists>mc'. out_fetch N E st pool q mc = Some ([], mc') \<and> mc_conn mc' = mc_conn mc \<and>
         mc_sent mc' = mc_sent mc @ concat (map (sends_of E st pool (mc_conn mc) (mc_rpc mc)) q)
    else out_fetch N E st pool q mc = None"
  using assms
proof (induction q arbitrary: mc)
  case Nil
  then show ?case by (subst out_fetch.simps) simp
next
  case (Cons m q)
  have step: "out_fetch N E st pool (m # q) mc = Option.bind (pack_and_send N E st pool m mc) (out_fetch N E st pool q)"
    by (subst out_fetch.simps) (simp add: output_fetch_def)
  show ?case
  proof (cases "packs_enough m")
    case True
    then obtain l where l: "pack_and_send N E st pool m mc =
        Some (mc\<lparr>mc_rpc := l, mc_sent := mc_sent mc @ sends_of E st pool (mc_conn mc) (mc_rpc mc) m\<rparr>)"
      "stream_of E l = stream_of E (mc_rpc mc)"
      using pack_and_send_exact [OF Cons.prems(1,2), of m N st pool] Cons.prems(3) by auto
    have "sends_of E st pool cm l = sends_of E st pool cm (mc_rpc mc)" for cm
      by (rule ext) (simp add: sends_of_def signer_to_def l(2) Let_def)
    with Cons.IH [of "mc\<lparr>mc_rpc := l, mc_sent := mc_sent mc @ sends_of E st pool (mc_conn mc) (mc_rpc mc) m\<rparr>"] Cons.prems
    show ?thesis using True by (auto simp: step l(1) split: if_splits)
  next
    case False
    then have "pack_and_send N E st pool m mc = None"
      using pack_and_send_exact [OF Cons.prems(1,2), of m N st pool] Cons.prems(3) by auto
    with False show ?thesis by (simp add: step)
  qed
qed

text \<open>C21. A message without receivers that waits in the output queue reaches every connected merger. Provided that no
  queued message for signers has more receivers than packed messages, that the type is one of those sent to mergers
  (\<open>checkMergerMsgType\<close>, so not \<open>MSG_HEADER\<close>), that the body fits the schema of the type, compresses by at most 3:1 and
  packs into less than 2^31 bytes, and that the chain id has its eight bytes: the fetcher sends it to the
  address of each such merger, and what is sent unpacks at the other side, whatever signer pool, input queue and sender
  it has, to the same type and body.\<close>

theorem broadcast_received:
  assumes "\<forall>m \<in> set out. packs_enough m" "mergers.well_formed E (mc_conn mc)"
    "\<lparr>out_type = t, out_body = body, receivers = []\<rparr> \<in> set out" "checkMergerMsgType t"
    "(k, info) \<in> set (m_merger_info (mc_conn mc))" "reached (mc_conn mc) info"
    "length (m_localchain_id st) = CHAIN_ID_TYPE_SIZE" "lz4_law E" "dump_law E"
    "length (stringToBytes (json_dump E body)) \<le> 3 * length (compressData E (stringToBytes (json_dump E body)))"
    "HEADER_LENGTH + length (compressData E (stringToBytes (json_dump E body))) < 2 ^ 31" "validateSchema body t"
  shows "\<exists>mc' p. out_fetch N E st pool out mc = Some ([], mc') \<and> ToMerger (node_address info) p \<in> set (mc_sent mc') \<and>
    unpackMsg E pool' p rid q = Some (RPC_OK, sender_field st, input_push t body q)"
proof -
  have t: "\<nexists>b. t = MSG_RAW b" "t \<noteq> MSG_ACCEPT" "t \<noteq> MSG_REQ_SSIG" using assms(4) by (auto simp: checkMergerMsgType_def)
  obtain p where p: "packMsg E st pool \<lparr>out_type = t, out_body = body, receivers = []\<rparr> = [p]"
    "unpackMsg E pool' p rid q = Some (RPC_OK, sender_field st, input_push t body q)"
    using unpack_packMsg [OF assms(7) t assms(8-12), where pool' = pool and pool = pool' and rs = "[]"] by blast
  obtain mc' where mc': "out_fetch N E st pool out mc = Some ([], mc')" "set (merger_sends (mc_conn mc) p) \<subseteq> set (mc_sent mc')"
    using out_fetch_sends [OF assms(1,2), of N st pool] assms(3,4) p(1) by fastforce
  have "ToMerger (node_address info) p \<in> set (merger_sends (mc_conn mc) p)"
    using assms(5,6) by (force simp: merger_sends_def getAllMergerInfo_def)
  with mc' p show ?thesis by blast
qed

text \<open>An answer for a merger that is not in the table is lost when the tracker is not reachable: the missing answer
  of the tracker counts as information, an entry without address is marked as connected, and the message goes
  to the address \<open>:\<close> instead of to the next receiver.\<close>

theorem unreachable_tracker_accepted:
  assumes "\<not> getTrackerStatus (mc_conn mc)" "\<not> hasMergerInfo E r (mc_conn mc)" "mergers.well_formed E (mc_conn mc)"
  shows "mc_sent (sendToMerger N E (r # rs) p mc) = mc_sent mc @ [ToMerger '':'' p] \<and>
    map_of (m_merger_info (mc_conn (sendToMerger N E (r # rs) p mc))) (encodeBase64 E r) =
      Some (new_node_info\<lparr>mi_id := r, mi_conn_status := True\<rparr>)"
proof -
  define info where "info = new_node_info\<lparr>mi_id := r\<rparr>"
  define cm where "cm = setMergerInfo E info True (mc_conn mc)"
  have ask: "ask_tracker N E r mc = (True, mc\<lparr>mc_conn := cm\<rparr>)"
    using assms(1) by (simp add: ask_tracker_def sendToTracker_def cm_def info_def getStringK_def getString_def new_node_info_def)
  have wf: "mergers.well_formed E cm" unfolding cm_def by (rule mergers.set_info_well_formed [OF assms(3)])
  have known: "map_of (m_merger_info cm) (encodeBase64 E r) = Some (info\<lparr>mi_conn_status := True\<rparr>)"
    by (simp add: cm_def mergers.set_info_lookup info_def)
  have mem: "info\<lparr>mi_conn_status := True\<rparr> \<in> set (getAllMergerInfo (mc_conn (mc\<lparr>mc_conn := cm\<rparr>)))"
    using map_of_SomeD [OF known] by (force simp: getAllMergerInfo_def)
  have "sendToMerger N E (r # rs) p mc = sendMsgToMerger p (info\<lparr>mi_conn_status := True\<rparr>) (mc\<lparr>mc_conn := cm\<rparr>)"
    using assms(2) ask getMergerInfo_known [OF wf known] send_if_connected_entry [OF _ mem] wf
    by (simp add: sendToMerger_def reached_def)
  then show ?thesis using known by (simp add: sendMsgToMerger_def net_out_def node_address_def info_def new_node_info_def)
qed

section \<open>Witnesses\<close>

definition net_w :: net where
  "net_w = \<lparr>http_reply = (\<lambda>_ _. None), http_up = (\<lambda>_. False), conn_check = (\<lambda>_. True)\<rparr>"

definition peer_w :: MergerInfo where
  "peer_w = new_node_info\<lparr>mi_id := [7], mi_address := ''h'', mi_port := ''1'', mi_conn_status := True\<rparr>"

definition client_w :: "ext \<Rightarrow> MergerClient" where
  "client_w E = \<lparr>mc_conn = setMergerInfo E peer_w True (new_conn_manager []), mc_rpc = (\<lambda>_. None), mc_sent = []\<rparr>"

definition req_status_w :: json where
  "req_status_w = json_obj [(''mID'', JStr ''m''), (''time'', JStr ''1'')]"

lemma client_w_ok: "mergers.well_formed E (mc_conn (client_w E))" "(encodeBase64 E [7], peer_w) \<in> set (m_merger_info (mc_conn (client_w E)))"
  by (auto simp: client_w_def mergers.well_formed_def setMergerInfo_def new_conn_manager_def peer_w_def)

definition server_room_w :: "ext \<Rightarrow> MergerClient" where
  "server_room_w E = (client_w E)\<lparr>
     mc_conn := setSeInfo E (new_node_info\<lparr>mi_id := [8], mi_address := ''s'', mi_port := ''2''\<rparr>) True (mc_conn (client_w E)),
     mc_rpc := setReplyMsg (encodeBase64 E [9]) 3 3 (\<lambda>_. None)\<rparr>"

theorem out_queue_sent_witness:
  "\<exists>mc' p p'. out_fetch net_w ext0 st_w [] [\<lparr>out_type = MSG_PING, out_body = JNull, receivers = []\<rparr>,
       \<lparr>out_type = MSG_CHALLENGE, out_body = JNull, receivers = [[9]]\<rparr>] (server_room_w ext0) = Some ([], mc') \<and>
     mc_sent mc' = [ToMerger ''h:1'' p, HttpPost ''s:2/api/ping'' (json_dump ext0 JNull), ToSigner 3 (Some 3) p']"
proof -
  have "mergers.well_formed ext0 (mc_conn (server_room_w ext0))" "endpoints.well_formed ext0 (mc_conn (server_room_w ext0))"
    by (auto simp: server_room_w_def client_w_def mergers.well_formed_def endpoints.well_formed_def setMergerInfo_def setSeInfo_def
        new_conn_manager_def peer_w_def new_node_info_def)
  from out_queue_sent [OF this, of "[\<lparr>out_type = MSG_PING, out_body = JNull, receivers = []\<rparr>,
       \<lparr>out_type = MSG_CHALLENGE, out_body = JNull, receivers = [[9]]\<rparr>]" net_w st_w "[]"]
  show ?thesis
    by (auto simp: mergers_known_def packs_enough_def sends_of_def merger_to_def merger_sends_def signer_to_def se_to_def
        checkMergerMsgType_def checkSignerMsgType_def checkSEMsgType_def checkTrackerMsgType_def getAllMergerInfo_def getAllSeInfo_def
        server_room_w_def client_w_def setMergerInfo_def setSeInfo_def new_conn_manager_def peer_w_def new_node_info_def reached_def
        node_address_def getApiPath_def packMsg_def stream_of_def setReplyMsg_def map_filter_simps)
qed
theorem broadcast_received_witness:
  "\<exists>mc' p. out_fetch net_w (ext_for req_status_w) st_w [] [\<lparr>out_type = MSG_REQ_STATUS, out_body = req_status_w, receivers = []\<rparr>]
       (client_w (ext_for req_status_w)) = Some ([], mc') \<and>
     ToMerger (node_address peer_w) p \<in> set (mc_sent mc') \<and>
     unpackMsg (ext_for req_status_w) [] p [] [] = Some (RPC_OK, sender_field st_w, input_push MSG_REQ_STATUS req_status_w [])"
proof (rule broadcast_received [OF _ client_w_ok(1) _ _ client_w_ok(2) _ st_w_chain ext_for_laws(5,3)])
  show "validateSchema req_status_w MSG_REQ_STATUS" by code_simp
qed (simp_all add: packs_enough_def checkSignerMsgType_def checkMergerMsgType_def reached_def peer_w_def
    compressData_def ext_for_def ext0_def stringToBytes_def HEADER_LENGTH_def)

theorem unreachable_tracker_accepted_witness:
  "mc_sent (sendToMerger net_w ext0 [[8], [7]] [1] (client_w ext0)) = [ToMerger '':'' [1]]"
proof -
  have "decodeBase64 ext0 (encodeBase64 ext0 [8]) \<noteq> decodeBase64 ext0 (encodeBase64 ext0 [7])" by (simp add: decode_encode ext0_laws(1))
  then have "encodeBase64 ext0 [8] \<noteq> encodeBase64 ext0 [7]" by metis
  then have "\<not> hasMergerInfo ext0 [8] (mc_conn (client_w ext0))" "\<not> getTrackerStatus (mc_conn (client_w ext0))"
    by (simp_all add: hasMergerInfo_def client_w_def mergers.set_info_lookup new_conn_manager_def peer_w_def getTrackerStatus_def
        setMergerInfo_def new_node_info_def)
  from unreachable_tracker_accepted [OF this(2,1) client_w_ok(1), of net_w "[[7]]" "[1]"] show ?thesis by (simp add: client_w_def)
qed

end
