(* ===== verification/Transaction.thy ===== *)
theory Transaction
  imports Ext_Instance
begin

text \<open>
  \<open>class Transaction\<close> of \<open>src/chain/transaction.hpp\<close>: identifiers, digests, validity and the JSON
  form. The lemmas show that the JSON form reads back and that a transaction that was given its
  id and signed with a matching key is valid.
\<close>

section \<open>Definitions\<close>

record Transaction =
  m_transaction_id :: tx_id_type
  m_sent_time :: timestamp_t
  m_requestor_id :: id_type
  m_transaction_type :: TransactionType
  m_tx_signature :: signature_type
  m_content_list :: "content_type list"

definition new_transaction :: Transaction where
  "new_transaction = \<lparr>m_transaction_id = replicate 32 0, m_sent_time = 0, m_requestor_id = [],
     m_transaction_type = TX_UNKNOWN, m_tx_signature = [], m_content_list = []\<rparr>"

definition txTypeToStr :: "TransactionType \<Rightarrow> string" where
  "txTypeToStr transaction_type = TX_TYPE_TO_STRING transaction_type"

definition strToTxType :: "string \<Rightarrow> TransactionType" where
  "strToTxType tx_type_str =
     (if tx_type_str = TXTYPE_DIGESTS then DIGESTS
      else if tx_type_str = TXTYPE_CERTIFICATES then CERTIFICATES
      else if tx_type_str = TXTYPE_IMMORTALSMS then IMMORTALSMS
      else TX_UNKNOWN)"

definition setContentsFromJson :: "json \<Rightarrow> Transaction \<Rightarrow> Transaction" where
  "setContentsFromJson content_list tx =
     tx\<lparr>m_content_list := (if is_array content_list then map getString (json_elems content_list) else [])\<rparr>"

text \<open>The result is the returned boolean and the transaction. An id that is not 32 bytes long
  leaves the transaction as it was; a time that is not a number throws after the id was set.\<close>

definition setJson :: "ext \<Rightarrow> json \<Rightarrow> Transaction \<Rightarrow> (bool \<times> Transaction) option" where
  "setJson E tx_json tx =
     (let new_txid_bytes = getBytesFromB64 E tx_json ''txid''
      in if length new_txid_bytes \<noteq> 32 then Some (False, tx)
         else do {
           time \<leftarrow> getTime tx_json ''time'';
           let tx1 = tx\<lparr>m_transaction_id := bytesToArray TRANSACTION_ID_TYPE_SIZE [] new_txid_bytes,
                        m_sent_time := time,
                        m_requestor_id := getBytesFromB64 E tx_json ''rID'',
                        m_transaction_type := strToTxType (getStringK tx_json ''type'')\<rparr>;
           content \<leftarrow> json_at tx_json ''content'';
           let tx2 = (if is_array content then setContentsFromJson content tx1 else tx1);
           Some (True, tx2\<lparr>m_tx_signature := getBytesFromB64 E tx_json ''rSig''\<rparr>) })"

definition tx_getJson :: "ext \<Rightarrow> Transaction \<Rightarrow> json" where
  "tx_getJson E tx = json_obj
     [(''txid'', JStr (encodeBase64 E (m_transaction_id tx))),
      (''time'', JStr (to_string (unat (m_sent_time tx)))),
      (''rID'', JStr (encodeBase64 E (m_requestor_id tx))),
      (''type'', JStr (txTypeToStr (m_transaction_type tx))),
      (''rSig'', JStr (encodeBase64 E (m_tx_signature tx))),
      (''content'', JArr (map JStr (m_content_list tx)))]"

definition getIdB64 :: "ext \<Rightarrow> Transaction \<Rightarrow> string" where
  "getIdB64 E tx = encodeBase64 E (m_transaction_id tx)"

text \<open>The contents are read in pairs; \<open>m_content_list[i + 1]\<close> is past the end when their number is
  odd. \<open>insert\<close> keeps the first certificate of a key.\<close>

fun content_pairs :: "content_type list \<Rightarrow> (string \<times> string) list option" where
  "content_pairs [] = Some []"
| "content_pairs [x] = None"
| "content_pairs (x # y # rest) = do { ps \<leftarrow> content_pairs rest; Some ((x, y) # ps) }"

definition getCertsIf :: "Transaction \<Rightarrow> (string \<rightharpoonup> string) option" where
  "getCertsIf tx =
     (if m_transaction_type tx = CERTIFICATES then map_option map_of (content_pairs (m_content_list tx))
      else Some Map.empty)"

definition getBeforeDigestByte :: "Transaction \<Rightarrow> bytes" where
  "getBeforeDigestByte tx =
     getBytes (fold append_str (m_content_list tx)
       (append_str (txTypeToStr (m_transaction_type tx))
         (append_vec (m_requestor_id tx)
           (append_u64 (m_sent_time tx)
             (append_vec (m_transaction_id tx) bb_new)))))"

definition buildTxId :: "ext \<Rightarrow> Transaction \<Rightarrow> tx_id_type" where
  "buildTxId E tx =
     bytesToArray TRANSACTION_ID_TYPE_SIZE []
       (sha256 E (getBytes (fold append_str (m_content_list tx)
         (append_str (txTypeToStr (m_transaction_type tx))
           (append_vec (m_requestor_id tx)
             (append_u64 (m_sent_time tx) bb_new))))))"

definition genNewTxId :: "ext \<Rightarrow> Transaction \<Rightarrow> Transaction" where
  "genNewTxId E tx = tx\<lparr>m_transaction_id := buildTxId E tx\<rparr>"

definition tx_isValid :: "ext \<Rightarrow> string \<Rightarrow> Transaction \<Rightarrow> bool" where
  "tx_isValid E pk_pem tx =
     (if m_content_list tx = [] \<or> m_tx_signature tx = [] \<or> pk_pem = [] then False
      else if m_transaction_id tx \<noteq> buildTxId E tx then False
      else doVerify E pk_pem (getBeforeDigestByte tx) (m_tx_signature tx))"

definition refreshSignature :: "ext \<Rightarrow> string \<Rightarrow> string \<Rightarrow> Transaction \<Rightarrow> Transaction" where
  "refreshSignature E pem_sk pem_pass tx =
     tx\<lparr>m_tx_signature := doSign E pem_sk (getBeforeDigestByte tx) pem_pass\<rparr>"

definition getDigest :: "ext \<Rightarrow> Transaction \<Rightarrow> hash_t" where
  "getDigest E tx = sha256 E (getBeforeDigestByte tx @ m_tx_signature tx)"

section \<open>JSON form\<close>

lemma strToTxType_inverse [simp]: "strToTxType (txTypeToStr t) = t"
  by (cases t) (simp_all add: strToTxType_def txTypeToStr_def TXTYPE_DIGESTS_def TXTYPE_CERTIFICATES_def TXTYPE_IMMORTALSMS_def)

text \<open>A transaction whose id has its 32 bytes and whose time can be printed and parsed.\<close>

definition tx_ok :: "Transaction \<Rightarrow> bool" where
  "tx_ok tx \<longleftrightarrow> length (m_transaction_id tx) = 32 \<and> unat (m_sent_time tx) < 2 ^ 63"

lemma bytesToArray_full: "length b = S \<Longrightarrow> bytesToArray S u b = b"
  by (simp add: bytesToArray_def)

lemma setJson_written:
  assumes "base64_law E" "tx_ok tx"
  shows "setJson E (tx_getJson E tx) tx' = Some (True, tx)"
proof -
  let ?j = "tx_getJson E tx"
  have k: "getStringK ?j ''txid'' = encodeBase64 E (m_transaction_id tx)"
    "getStringK ?j ''rID'' = encodeBase64 E (m_requestor_id tx)"
    "getStringK ?j ''rSig'' = encodeBase64 E (m_tx_signature tx)"
    "getStringK ?j ''time'' = to_string (unat (m_sent_time tx))"
    "getStringK ?j ''type'' = txTypeToStr (m_transaction_type tx)"
    "json_at ?j ''content'' = Some (JArr (map JStr (m_content_list tx)))"
    by (simp_all add: tx_getJson_def)
  have t: "getTime ?j ''time'' = Some (m_sent_time tx)"
    using getTime_written [OF k(4)] assms(2) by (simp add: tx_ok_def)
  show ?thesis
    using assms(2) t k(5,6) getBytesFromB64_written [OF assms(1) k(1)] getBytesFromB64_written [OF assms(1) k(2)]
      getBytesFromB64_written [OF assms(1) k(3)]
    by (simp add: setJson_def Let_def tx_ok_def bytesToArray_full TRANSACTION_ID_TYPE_SIZE_def
        setContentsFromJson_def comp_def)
qed

lemma getStringK_txid: "getStringK (tx_getJson E tx) ''txid'' = encodeBase64 E (m_transaction_id tx)"
  by (simp add: tx_getJson_def)

section \<open>Validity\<close>

lemma length_buildTxId: "sha_law E \<Longrightarrow> length (buildTxId E tx) = 32"
  by (simp add: buildTxId_def sha_law_def bytesToArray_full TRANSACTION_ID_TYPE_SIZE_def)

text \<open>The id does not depend on the id or the signature, the signed bytes not on the signature.\<close>

lemma buildTxId_update [simp]:
  "buildTxId E (tx\<lparr>m_transaction_id := i\<rparr>) = buildTxId E tx"
  "buildTxId E (tx\<lparr>m_tx_signature := s\<rparr>) = buildTxId E tx"
  by (simp_all add: buildTxId_def)

lemma getBeforeDigestByte_update [simp]:
  "getBeforeDigestByte (tx\<lparr>m_tx_signature := s\<rparr>) = getBeforeDigestByte tx"
  by (simp add: getBeforeDigestByte_def)

lemma getBeforeDigestByte_eq:
  "getBeforeDigestByte tx = m_transaction_id tx @ be_bytes 8 (m_sent_time tx) @ m_requestor_id tx @
     stringToBytes (txTypeToStr (m_transaction_type tx)) @ concat (map stringToBytes (m_content_list tx))"
  by (simp add: getBeforeDigestByte_def builder_simps)

lemma doVerify_doSign:
  assumes "key_pair E sk pass pk"
  shows "doVerify E pk m (doSign E sk m pass)" "doSign E sk m pass \<noteq> []"
  using assms by (auto simp: key_pair_def doVerify_def doSign_def dest!: spec [of _ m])

lemma fresh_transaction_valid:
  assumes "key_pair E sk pass pk" "pk \<noteq> []" "m_content_list tx \<noteq> []"
  shows "tx_isValid E pk (refreshSignature E sk pass (genNewTxId E tx))"
  using assms doVerify_doSign [OF assms(1)]
  by (simp add: tx_isValid_def refreshSignature_def genNewTxId_def)

section \<open>Properties\<close>

text \<open>The JSON form of a transaction reads back: \<open>setJson\<close> applied to what \<open>getJson\<close> produced
  restores every field, whatever the receiving object held before.\<close>

theorem setJson_getJson:
  assumes "base64_law E" "tx_ok tx"
  shows "setJson E (tx_getJson E tx) tx' = Some (True, tx)"
  by (rule setJson_written [OF assms])

text \<open>A transaction that is given a fresh id and then signed with a key is valid under the
  matching certificate, and its id has the 32 bytes that \<open>setJson\<close> insists on.\<close>

theorem signed_transaction_valid:
  assumes "key_pair E sk pass pk" "pk \<noteq> []" "m_content_list tx \<noteq> []" "sha_law E"
  shows "tx_isValid E pk (refreshSignature E sk pass (genNewTxId E tx)) \<and>
    length (m_transaction_id (refreshSignature E sk pass (genNewTxId E tx))) = 32"
  using fresh_transaction_valid [OF assms(1-3)] length_buildTxId [OF assms(4)]
  by (simp add: refreshSignature_def genNewTxId_def)

section \<open>Witnesses\<close>

definition tx_a :: Transaction where
  "tx_a = refreshSignature ext0 ''key'' '''' (genNewTxId ext0 \<lparr>m_transaction_id = replicate 32 0, m_sent_time = 1000,
     m_requestor_id = [7], m_transaction_type = DIGESTS, m_tx_signature = [], m_content_list = [''d1'', ''d2'']\<rparr>)"

lemma tx_a_ok: "tx_ok tx_a" "length (m_transaction_id tx_a) = 32" "m_content_list tx_a = [''d1'', ''d2'']"
  "m_requestor_id tx_a = [7]" "m_transaction_type tx_a = DIGESTS"
  using length_buildTxId [OF ext0_laws(4)]
  by (simp_all add: tx_a_def tx_ok_def refreshSignature_def genNewTxId_def)

theorem setJson_getJson_witness: "setJson ext0 (tx_getJson ext0 tx_a) new_transaction = Some (True, tx_a)"
  by (rule setJson_getJson [OF ext0_laws(1) tx_a_ok(1)])

theorem signed_transaction_valid_witness: "tx_isValid ext0 ''key'' tx_a"
  unfolding tx_a_def using signed_transaction_valid [OF ext0_key_pair _ _ ext0_laws(4)] by simp

end
