(* ===== verification/Storage.thy ===== *)
theory Storage
  imports Ext_Instance
begin

text \<open>
  The block storage of \<open>src/services/storage.cpp\<close>: seven LevelDB databases with one write batch
  each, selected by \<open>DBType\<close>. A database is a finite map from keys to values, a batch the list
  of its operations, and \<open>Write\<close> applies the operations in order (I/O of LevelDB is assumed not
  to fail; a missing key reads as the empty string, as \<open>getValueByKey\<close> returns it).

  The lemmas show what a committed block reads back as, that batches are invisible until they
  are written, and that the audit path of \<open>getProof\<close> is accepted by \<open>isValidSiblings\<close>.
\<close>

section \<open>State\<close>

datatype batch_op = Put string string | Delete string

fun apply_op :: "batch_op \<Rightarrow> (string \<rightharpoonup> string) \<Rightarrow> (string \<rightharpoonup> string)" where
  "apply_op (Put k v) m = m(k \<mapsto> v)"
| "apply_op (Delete k) m = m(k := None)"

definition db_write :: "batch_op list \<Rightarrow> (string \<rightharpoonup> string) \<Rightarrow> (string \<rightharpoonup> string)" where
  "db_write ops m = fold apply_op ops m"

record Storage =
  m_db :: "DBType \<Rightarrow> string \<rightharpoonup> string"
  m_batch :: "DBType \<Rightarrow> batch_op list"

definition new_storage :: Storage where
  "new_storage = \<lparr>m_db = (\<lambda>_. Map.empty), m_batch = (\<lambda>_. [])\<rparr>"

fun getPrefix :: "DBType \<Rightarrow> string" where
  "getPrefix BLOCK_HEADER = ''B''"
| "getPrefix BLOCK_HEIGHT = ''H''"
| "getPrefix BLOCK_RAW = ''R''"
| "getPrefix BLOCK_LATEST = ''L''"
| "getPrefix TRANSACTION = ''T''"
| "getPrefix LEDGER = ''G''"
| "getPrefix BLOCK_BACKUP = ''S''"

definition DB_BLOCK_HEADER_SUFFIX :: "(string \<times> string) list" where
  "DB_BLOCK_HEADER_SUFFIX =
    [(''bID'', ''_bID''), (''ver'', ''_ver''), (''cID'', ''_cID''), (''time'', ''_time''),
     (''hgt'', ''_hgt''), (''SSig'', ''_ssig''), (''mID'', ''_mID''), (''prevbID'', ''_prevbID''),
     (''prevH'', ''_prevH''), (''txrt'', ''_txrt''), (''txids'', ''_txids'')]"

record storage_block_type =
  sb_id :: block_id_type
  sb_hash :: hash_t
  sb_prev_id :: block_id_type
  sb_prev_hash :: hash_t
  sb_time :: timestamp_t
  sb_height :: block_height_type
  sb_block_raw :: bytes
  sb_txs :: json

section \<open>Batches and reads\<close>

definition batch_add :: "DBType \<Rightarrow> batch_op \<Rightarrow> Storage \<Rightarrow> Storage" where
  "batch_add what op st = st\<lparr>m_batch := (m_batch st)(what := m_batch st what @ [op])\<rparr>"

text \<open>\<open>addBatch\<close> always returns true; only its effect is kept.\<close>

definition addBatch :: "DBType \<Rightarrow> string \<Rightarrow> string \<Rightarrow> Storage \<Rightarrow> Storage" where
  "addBatch what base_suffix_key value st = batch_add what (Put (getPrefix what @ base_suffix_key) value) st"

definition write_batch :: "DBType \<Rightarrow> Storage \<Rightarrow> Storage" where
  "write_batch what st = st\<lparr>m_db := (m_db st)(what := db_write (m_batch st what) (m_db st what))\<rparr>"

definition clear_batch :: "DBType \<Rightarrow> Storage \<Rightarrow> Storage" where
  "clear_batch what st = st\<lparr>m_batch := (m_batch st)(what := [])\<rparr>"

definition clearBatchAll :: "Storage \<Rightarrow> Storage" where
  "clearBatchAll st = clear_batch BLOCK_HEIGHT (clear_batch TRANSACTION
     (clear_batch BLOCK_LATEST (clear_batch BLOCK_RAW (clear_batch BLOCK_HEADER st))))"

definition commitBatchAll :: "Storage \<Rightarrow> Storage" where
  "commitBatchAll st = clearBatchAll (write_batch TRANSACTION (write_batch BLOCK_LATEST
     (write_batch BLOCK_RAW (write_batch BLOCK_HEIGHT (write_batch BLOCK_HEADER st)))))"

definition rollbackBatchAll :: "Storage \<Rightarrow> Storage" where
  "rollbackBatchAll st = clearBatchAll st"

definition getValueByKey :: "DBType \<Rightarrow> string \<Rightarrow> Storage \<Rightarrow> string" where
  "getValueByKey what base_suffix_keys st =
     (case m_db st what (getPrefix what @ base_suffix_keys) of Some v \<Rightarrow> v | None \<Rightarrow> [])"

section \<open>Links and heights\<close>

definition getNthBlockIdB64 :: "u64 \<Rightarrow> Storage \<Rightarrow> string" where
  "getNthBlockIdB64 height st =
     (if height = 0 then getValueByKey BLOCK_LATEST ''bID'' st
      else getValueByKey BLOCK_HEIGHT (to_string (unat height)) st)"

definition getNthBlockLinkInfo :: "ext \<Rightarrow> u64 \<Rightarrow> Storage \<Rightarrow> nth_link_type option" where
  "getNthBlockLinkInfo E t_height st =
     (let t_block_id_b64 =
        (if t_height = 0 then getValueByKey BLOCK_LATEST ''bID'' st
         else getValueByKey BLOCK_HEIGHT (to_string (unat t_height)) st)
      in if t_block_id_b64 \<noteq> [] then do {
           height \<leftarrow> getSize (getValueByKey BLOCK_HEADER (t_block_id_b64 @ ''_hgt'') st);
           time \<leftarrow> getTimeS (getValueByKey BLOCK_HEADER (t_block_id_b64 @ ''_time'') st);
           Some \<lparr>link_id = decodeBase64 E t_block_id_b64,
                 link_prev_id = decodeBase64 E (getValueByKey BLOCK_HEADER (t_block_id_b64 @ ''_prevbID'') st),
                 link_hash = stringToBytes (getValueByKey BLOCK_RAW (t_block_id_b64 @ ''_hash'') st),
                 link_prev_hash = decodeBase64 E (getValueByKey BLOCK_HEADER (t_block_id_b64 @ ''_prevH'') st),
                 link_height = height, link_time = time\<rparr> }
         else Some \<lparr>link_id = decodeBase64 E GENESIS_BLOCK_PREV_ID_B64, link_prev_id = [],
                    link_hash = decodeBase64 E GENESIS_BLOCK_PREV_HASH_B64, link_prev_hash = [],
                    link_height = 0, link_time = 0\<rparr>)"

text \<open>Only \<open>hash\<close> and \<open>height\<close> of the result are set.\<close>

definition getLatestHashAndHeight :: "ext \<Rightarrow> Storage \<Rightarrow> (hash_t \<times> u64) option" where
  "getLatestHashAndHeight E st =
     (let block_id = getValueByKey BLOCK_LATEST ''bID'' st
      in if block_id = [] then Some (decodeBase64 E GENESIS_BLOCK_PREV_HASH_B64, 0)
         else do { h \<leftarrow> getSize (getValueByKey BLOCK_LATEST ''hgt'' st);
                   Some (stringToBytes (getValueByKey BLOCK_RAW (block_id @ ''_hash'') st), h) })"

definition storage_empty :: "Storage \<Rightarrow> bool" where
  "storage_empty st = (getValueByKey BLOCK_LATEST ''bID'' st = [])"

section \<open>Saving a block\<close>

text \<open>The result is the returned boolean and the storage; \<^const>\<open>None\<close> is an exception of the JSON
  library or of a number conversion.\<close>

fun put_header_items :: "ext \<Rightarrow> json \<Rightarrow> string \<Rightarrow> (string \<times> string) list \<Rightarrow> Storage \<Rightarrow> (bool \<times> Storage) option" where
  "put_header_items E hdr bid [] st = Some (True, st)"
| "put_header_items E hdr bid ((name, suffix) # items) st =
     (if name = ''SSig'' then do {
        v \<leftarrow> json_at hdr name;
        if \<not> is_array v then Some (False, st)
        else put_header_items E hdr bid items
               (addBatch BLOCK_HEADER (bid @ suffix @ ''_n'') (to_string (json_size v))
                 (addBatch BLOCK_HEADER (bid @ suffix @ ''_c'') (bytesToString (to_cbor E v)) st)) }
      else if name = ''txids'' then do {
        v \<leftarrow> json_at hdr name;
        if \<not> is_array v then Some (False, st)
        else put_header_items E hdr bid items
               (addBatch BLOCK_HEADER (bid @ suffix) (json_dump E v) st) }
      else put_header_items E hdr bid items
             (addBatch BLOCK_HEADER (bid @ suffix) (getStringK hdr name) st))"

definition putBlockHeader :: "ext \<Rightarrow> json \<Rightarrow> string \<Rightarrow> Storage \<Rightarrow> (bool \<times> Storage) option" where
  "putBlockHeader E hdr block_id_b64 st = put_header_items E hdr block_id_b64 DB_BLOCK_HEADER_SUFFIX st"

definition putBlockHeight :: "json \<Rightarrow> string \<Rightarrow> Storage \<Rightarrow> (bool \<times> Storage) option" where
  "putBlockHeight hdr block_id_b64 st =
     Some (True, addBatch BLOCK_HEIGHT (getStringK hdr ''hgt'') block_id_b64 st)"

definition putBlockRaw :: "ext \<Rightarrow> bytes \<Rightarrow> string \<Rightarrow> Storage \<Rightarrow> (bool \<times> Storage) option" where
  "putBlockRaw E block_raw block_id_b64 st =
     Some (True, addBatch BLOCK_RAW (block_id_b64 @ ''_hash'') (bytesToString (sha256 E block_raw))
                   (addBatch BLOCK_RAW block_id_b64 (bytesToString block_raw) st))"

definition putLatestBlockHeader :: "ext \<Rightarrow> json \<Rightarrow> Storage \<Rightarrow> (bool \<times> Storage) option" where
  "putLatestBlockHeader E hdr st = do {
     latest_block_info \<leftarrow> getNthBlockLinkInfo E 0 st;
     hgt \<leftarrow> getInt hdr ''hgt'';
     if hgt \<le> link_height latest_block_info then Some (True, st)
     else Some (True, addBatch BLOCK_LATEST ''hgt'' (getStringK hdr ''hgt'')
                        (addBatch BLOCK_LATEST ''bID'' (getStringK hdr ''bID'') st)) }"

fun put_txs :: "ext \<Rightarrow> string \<Rightarrow> nat \<Rightarrow> json list \<Rightarrow> Storage \<Rightarrow> Storage" where
  "put_txs E bid i [] st = st"
| "put_txs E bid i (tx_json # txs) st =
     (let txid_b64 = getStringK tx_json ''txid''
      in put_txs E bid (i + 1) txs
           (addBatch TRANSACTION (txid_b64 @ ''_bID'') bid
             (addBatch TRANSACTION (txid_b64 @ ''_mPos'') (to_string i)
               (addBatch TRANSACTION (txid_b64 @ ''_c'') (bytesToString (to_cbor E tx_json)) st))))"

definition putTransaction :: "ext \<Rightarrow> json \<Rightarrow> string \<Rightarrow> Storage \<Rightarrow> (bool \<times> Storage) option" where
  "putTransaction E body block_id_b64 st = do {
     txs \<leftarrow> json_at body ''tx'';
     if \<not> is_array txs then Some (False, st)
     else do {
       mtree \<leftarrow> json_at body ''mtree'';
       Some (True, addBatch TRANSACTION (block_id_b64 @ ''_txCnt'') (getStringK body ''txCnt'')
                     (addBatch TRANSACTION (block_id_b64 @ ''_mtree'') (json_dump E mtree)
                       (put_txs E block_id_b64 0 (json_elems txs) st))) } }"

text \<open>The conjunction of the five steps stops at the first that returns false.\<close>

definition and_then :: "(bool \<times> 's) option \<Rightarrow> ('s \<Rightarrow> (bool \<times> 's) option) \<Rightarrow> (bool \<times> 's) option" where
  "and_then r f = do { (ok, st) \<leftarrow> r; if ok then f st else Some (False, st) }"

definition saveBlock :: "ext \<Rightarrow> bytes \<Rightarrow> json \<Rightarrow> json \<Rightarrow> Storage \<Rightarrow> (bool \<times> Storage) option" where
  "saveBlock E block_raw block_header block_transaction st =
     (let block_id_b64 = getStringK block_header ''bID''
      in do {
        (ok, st') \<leftarrow>
          and_then (and_then (and_then (and_then
            (putBlockHeader E block_header block_id_b64 st)
            (putBlockHeight block_header block_id_b64))
            (putLatestBlockHeader E block_header))
            (putTransaction E block_transaction block_id_b64))
            (putBlockRaw E block_raw block_id_b64);
        if ok then Some (True, commitBatchAll st') else Some (False, rollbackBatchAll st') })"

definition saveBlock_b64 :: "ext \<Rightarrow> string \<Rightarrow> json \<Rightarrow> json \<Rightarrow> Storage \<Rightarrow> (bool \<times> Storage) option" where
  "saveBlock_b64 E block_raw_b64 block_header block_transaction st =
     saveBlock E (decodeBase64 E block_raw_b64) block_header block_transaction st"

section \<open>Reading blocks\<close>

text \<open>A CBOR error is caught and logged as fatal, and a fatal log entry ends the program: \<^const>\<open>None\<close>.\<close>

fun read_txs :: "ext \<Rightarrow> json list \<Rightarrow> Storage \<Rightarrow> json list option" where
  "read_txs E [] st = Some []"
| "read_txs E (each_txid # rest) st = do {
     tx \<leftarrow> from_cbor E (stringToBytes (getValueByKey TRANSACTION (getString each_txid @ ''_c'') st));
     txs \<leftarrow> read_txs E rest st;
     Some (tx # txs) }"

text \<open>
  The fields not set when there is no such block are left at their defaults. For height 0 the
  stored latest height is parsed first (and may throw), but the result's height is then
  overwritten by the argument.
\<close>

definition readBlock :: "ext \<Rightarrow> u64 \<Rightarrow> Storage \<Rightarrow> storage_block_type option" where
  "readBlock E height st =
     (let block_id_b64 = getNthBlockIdB64 height st
      in if block_id_b64 = [] then
           Some \<lparr>sb_id = [], sb_hash = [], sb_prev_id = [], sb_prev_hash = [], sb_time = 0,
                 sb_height = 0, sb_block_raw = [], sb_txs = JNull\<rparr>
         else do {
           _ \<leftarrow> (if height = 0 \<and> getValueByKey BLOCK_LATEST ''hgt'' st \<noteq> []
                then stoll (getValueByKey BLOCK_LATEST ''hgt'' st) else Some 0);
           let txids_json_str = getValueByKey BLOCK_HEADER (block_id_b64 @ ''_txids'') st;
           txs_json \<leftarrow> (if txids_json_str = [] then Some []
                        else read_txs E (json_elems (parseJsonAsArray E txids_json_str)) st);
           link_info \<leftarrow> getNthBlockLinkInfo E height st;
           Some \<lparr>sb_id = link_id link_info, sb_hash = link_hash link_info,
                 sb_prev_id = link_prev_id link_info, sb_prev_hash = link_prev_hash link_info,
                 sb_time = link_time link_info, sb_height = height,
                 sb_block_raw = stringToBytes (getValueByKey BLOCK_RAW block_id_b64 st),
                 sb_txs = JArr txs_json\<rparr> })"

definition getNthTxIdList :: "ext \<Rightarrow> u64 \<Rightarrow> Storage \<Rightarrow> string list" where
  "getNthTxIdList E t_height st =
     (let t_block_id_b64 = getNthBlockIdB64 t_height st
      in if t_block_id_b64 = [] then []
         else let s = getValueByKey BLOCK_HEADER (t_block_id_b64 @ ''_txids'') st
              in if s = [] then [] else map getString (json_elems (parseJsonAsArray E s)))"

definition isDuplicatedTx :: "string \<Rightarrow> Storage \<Rightarrow> bool" where
  "isDuplicatedTx txid_b64 st = (getValueByKey TRANSACTION (txid_b64 @ ''_bID'') st \<noteq> [])"

section \<open>Audit paths\<close>

text \<open>
  The loop of \<open>getProof\<close>. \<open>i\<close> counts the levels done, \<open>levels\<close> those left; \<open>node_idx\<close>, \<open>base_offset\<close> and
  \<open>merkle_tree_size\<close> are the source's variables, \<open>N\<close> is the number of leaves. An index past the
  tree or an empty encoding clears the siblings and stops.
\<close>

fun proof_loop :: "ext \<Rightarrow> nat \<Rightarrow> hash_t list \<Rightarrow> nat \<Rightarrow> nat \<Rightarrow> nat \<Rightarrow> nat \<Rightarrow> nat \<Rightarrow> (bool \<times> string) list \<Rightarrow> (bool \<times> string) list" where
  "proof_loop E N mtree 0 i node_idx base_offset merkle_tree_size sibs = sibs"
| "proof_loop E N mtree (Suc levels) i node_idx base_offset merkle_tree_size sibs =
     (let node_idx = (if node_idx mod 2 \<noteq> 0 then node_idx - 1 else node_idx + 1)
      in if length mtree \<le> node_idx then []
         else let sibling = encodeBase64 E (mtree ! node_idx)
              in if sibling = [] then []
                 else let base_offset = base_offset div 2;
                          merkle_tree_size = (if i \<noteq> 0 then merkle_tree_size + N div 2 ^ i else merkle_tree_size)
                      in proof_loop E N mtree levels (i + 1) (merkle_tree_size + base_offset) base_offset
                           merkle_tree_size (sibs @ [(node_idx mod 2 \<noteq> 0, sibling)]))"

text \<open>\<open>(int)log2(MAX_MERKLE_LEAVES)\<close>, which the source comments as \<open>log2(4096)=12\<close>.\<close>

definition MERKLE_TREE_HEIGHT :: nat where
  "MERKLE_TREE_HEIGHT = 12"

text \<open>
  \<open>stoi\<close> throws on the empty value a transaction without a record has; a negative stored
  position would be an out-of-range read.
\<close>

definition getProof :: "ext \<Rightarrow> string \<Rightarrow> Storage \<Rightarrow> proof_type option" where
  "getProof E txid_b64 st = do {
     pos \<leftarrow> stoi (getValueByKey TRANSACTION (txid_b64 @ ''_mPos'') st);
     if pos < 0 then None
     else
       let base_offset = nat pos;
           block_id_b64 = getValueByKey TRANSACTION (txid_b64 @ ''_bID'') st
       in if block_id_b64 = [] then Some \<lparr>proof_block_id_b64 = [], siblings = []\<rparr>
          else
            let mtree_json_str = getValueByKey TRANSACTION (block_id_b64 @ ''_mtree'') st
            in if mtree_json_str = [] then Some \<lparr>proof_block_id_b64 = block_id_b64, siblings = []\<rparr>
               else
                 let mtree_json = parseJson E mtree_json_str;
                     mtree_digests = map (\<lambda>i. decodeBase64 E (getStringI mtree_json i)) [0..<json_size mtree_json];
                     mtree = generate E mtree_digests (new_tree MAX_MERKLE_LEAVES);
                     my_digest_b64 = getStringI mtree_json base_offset
                 in if my_digest_b64 = [] then Some \<lparr>proof_block_id_b64 = block_id_b64, siblings = []\<rparr>
                    else Some \<lparr>proof_block_id_b64 = block_id_b64,
                               siblings = proof_loop E MAX_MERKLE_LEAVES mtree MERKLE_TREE_HEIGHT 0 base_offset
                                 base_offset MAX_MERKLE_LEAVES [(base_offset mod 2 \<noteq> 0, my_digest_b64)]\<rparr> }"

section \<open>Ledger and backup records\<close>

definition st_saveLedger :: "string \<Rightarrow> string \<Rightarrow> Storage \<Rightarrow> Storage" where
  "st_saveLedger key value st = addBatch LEDGER key value st"

definition st_readLedgerByKey :: "string \<Rightarrow> Storage \<Rightarrow> string" where
  "st_readLedgerByKey key st = getValueByKey LEDGER key st"

definition st_clearLedger :: "Storage \<Rightarrow> Storage" where
  "st_clearLedger st = clear_batch LEDGER st"

definition st_flushLedger :: "Storage \<Rightarrow> Storage" where
  "st_flushLedger st = st_clearLedger (write_batch LEDGER st)"

definition saveBackup :: "string \<Rightarrow> string \<Rightarrow> Storage \<Rightarrow> Storage" where
  "saveBackup key value st = addBatch BLOCK_BACKUP key value st"

definition readBackup :: "string \<Rightarrow> Storage \<Rightarrow> string" where
  "readBackup key st = getValueByKey BLOCK_BACKUP key st"

definition clearBackup :: "Storage \<Rightarrow> Storage" where
  "clearBackup st = clear_batch BLOCK_BACKUP st"

definition flushBackup :: "Storage \<Rightarrow> Storage" where
  "flushBackup st = clearBackup (write_batch BLOCK_BACKUP st)"

text \<open>\<open>delBackup\<close> passes the key to the batch as it is, without the database prefix.\<close>

definition delBackup :: "string \<Rightarrow> Storage \<Rightarrow> Storage" where
  "delBackup block_id_b64 st =
     (if block_id_b64 \<noteq> [] then batch_add BLOCK_BACKUP (Delete block_id_b64) st else st)"


section \<open>Pending contents\<close>

text \<open>What a database holds once its batch is written. A batched operation changes the pending
  contents of its own database only; reads see the written contents only.\<close>

definition pending :: "Storage \<Rightarrow> DBType \<Rightarrow> string \<rightharpoonup> string" where
  "pending st what = db_write (m_batch st what) (m_db st what)"

definition opt_str :: "string option \<Rightarrow> string" where
  "opt_str v = (case v of Some s \<Rightarrow> s | None \<Rightarrow> [])"

lemma opt_str_Some [simp]: "opt_str (Some s) = s"
  by (simp add: opt_str_def)

lemma pending_batch_add:
  "pending (batch_add w op st) w' = (if w' = w then apply_op op (pending st w) else pending st w')"
  by (simp add: pending_def batch_add_def db_write_def)

lemma pending_addBatch [simp]:
  "pending (addBatch w k v st) w' =
     (if w' = w then (pending st w)(getPrefix w @ k \<mapsto> v) else pending st w')"
  by (simp add: addBatch_def pending_batch_add)

lemma m_db_addBatch [simp]: "m_db (addBatch w k v st) = m_db st"
  by (simp add: addBatch_def batch_add_def)

lemma read_addBatch [simp]: "getValueByKey w k (addBatch w' k' v st) = getValueByKey w k st"
  by (simp add: getValueByKey_def)

lemma getValueByKey_opt: "getValueByKey w k st = opt_str (m_db st w (getPrefix w @ k))"
  by (simp add: getValueByKey_def opt_str_def)

definition block_db :: "DBType \<Rightarrow> bool" where
  "block_db w \<longleftrightarrow> w \<noteq> LEDGER \<and> w \<noteq> BLOCK_BACKUP"

lemma commit_db:
  "m_db (commitBatchAll st) w = (if block_db w then pending st w else m_db st w)"
  "m_batch (commitBatchAll st) w = (if block_db w then [] else m_batch st w)"
  by (cases w; simp add: commitBatchAll_def clearBatchAll_def clear_batch_def write_batch_def pending_def block_db_def)+

lemma rollback_db:
  "m_db (rollbackBatchAll st) w = m_db st w"
  "m_batch (rollbackBatchAll st) w = (if block_db w then [] else m_batch st w)"
  by (cases w; simp add: rollbackBatchAll_def clearBatchAll_def clear_batch_def block_db_def)+

lemma read_commit [simp]:
  "block_db w \<Longrightarrow> getValueByKey w k (commitBatchAll st) = opt_str (pending st w (getPrefix w @ k))"
  by (simp add: getValueByKey_opt commit_db)

lemma block_db_simps [simp]:
  "block_db BLOCK_HEADER" "block_db BLOCK_HEIGHT" "block_db BLOCK_RAW" "block_db BLOCK_LATEST"
  "block_db TRANSACTION" "\<not> block_db LEDGER" "\<not> block_db BLOCK_BACKUP"
  by (simp_all add: block_db_def)

section \<open>Key-value stores with batched writes\<close>

text \<open>The contract both the ledger and the backup records rest on: a save is invisible until
  the next flush, and a flush makes the last saved value of each key readable.\<close>

locale kv_store =
  fixes save :: "string \<Rightarrow> string \<Rightarrow> 's \<Rightarrow> 's" and flush :: "'s \<Rightarrow> 's" and read :: "string \<Rightarrow> 's \<Rightarrow> string"
  assumes read_save: "read k (save k' v s) = read k s"
    and read_flush_save: "read k (flush (save k' v s)) = (if k = k' then v else read k (flush s))"
begin

lemma read_saves: "read k (fold (\<lambda>(k, v). save k v) kvs s) = read k s"
  by (induction kvs arbitrary: s) (auto simp: read_save)

lemma read_flush_saves:
  "read k (flush (fold (\<lambda>(k, v). save k v) kvs s)) =
     (case map_of (rev kvs) k of Some v \<Rightarrow> v | None \<Rightarrow> read k (flush s))"
proof (induction kvs arbitrary: s)
  case (Cons kv kvs)
  obtain k' v where "kv = (k', v)" by (cases kv)
  with Cons show ?case
    by (auto simp: read_flush_save map_add_def split: option.splits)
qed simp

end

lemma flush_db:
  "m_db (st_flushLedger st) = (m_db st)(LEDGER := pending st LEDGER)"
  "m_db (flushBackup st) = (m_db st)(BLOCK_BACKUP := pending st BLOCK_BACKUP)"
  by (simp_all add: st_flushLedger_def st_clearLedger_def flushBackup_def clearBackup_def clear_batch_def
      write_batch_def pending_def)

interpretation ledger_kv: kv_store st_saveLedger st_flushLedger st_readLedgerByKey
  by unfold_locales (simp_all add: st_saveLedger_def st_readLedgerByKey_def getValueByKey_opt flush_db)

interpretation backup_kv: kv_store saveBackup flushBackup readBackup
  by unfold_locales (simp_all add: saveBackup_def readBackup_def getValueByKey_opt flush_db)

section \<open>Saving a block\<close>

text \<open>Every step of \<open>saveBlock\<close> only adds to batches.\<close>

lemma put_header_items_db:
  "put_header_items E hdr bid items st = Some (ok, st') \<Longrightarrow> m_db st' = m_db st"
  by (induction E hdr bid items st rule: put_header_items.induct)
    (auto split: if_splits Option.bind_splits simp: addBatch_def batch_add_def)

lemma put_txs_db [simp]: "m_db (put_txs E bid i txs st) = m_db st"
  by (induction E bid i txs st rule: put_txs.induct) (auto simp: Let_def)

lemma put_steps_db:
  "putBlockHeader E hdr bid st = Some (ok, st') \<Longrightarrow> m_db st' = m_db st"
  "putBlockHeight hdr bid st = Some (ok, st') \<Longrightarrow> m_db st' = m_db st"
  "putLatestBlockHeader E hdr st = Some (ok, st') \<Longrightarrow> m_db st' = m_db st"
  "putTransaction E body bid st = Some (ok, st') \<Longrightarrow> m_db st' = m_db st"
  "putBlockRaw E raw bid st = Some (ok, st') \<Longrightarrow> m_db st' = m_db st"
  by (auto simp: putBlockHeader_def putBlockHeight_def putLatestBlockHeader_def putTransaction_def putBlockRaw_def
      split: if_splits Option.bind_splits dest: put_header_items_db)

text \<open>The batches of the ledger and the backup are not touched.\<close>

lemma put_header_items_other:
  "put_header_items E hdr bid items st = Some (ok, st') \<Longrightarrow> w \<noteq> BLOCK_HEADER \<Longrightarrow> m_batch st' w = m_batch st w"
  by (induction E hdr bid items st rule: put_header_items.induct)
    (auto split: if_splits Option.bind_splits simp: addBatch_def batch_add_def)

lemma put_txs_other: "w \<noteq> TRANSACTION \<Longrightarrow> m_batch (put_txs E bid i txs st) w = m_batch st w"
  by (induction E bid i txs st rule: put_txs.induct) (auto simp: Let_def addBatch_def batch_add_def)

lemma put_steps_other:
  assumes "\<not> block_db w"
  shows "putBlockHeader E hdr bid st = Some (ok, st') \<Longrightarrow> m_batch st' w = m_batch st w"
    "putBlockHeight hdr bid st = Some (ok, st') \<Longrightarrow> m_batch st' w = m_batch st w"
    "putLatestBlockHeader E hdr st = Some (ok, st') \<Longrightarrow> m_batch st' w = m_batch st w"
    "putTransaction E body bid st = Some (ok, st') \<Longrightarrow> m_batch st' w = m_batch st w"
    "putBlockRaw E raw bid st = Some (ok, st') \<Longrightarrow> m_batch st' w = m_batch st w"
  using assms
  by (cases w; auto simp: putBlockHeader_def putBlockHeight_def putLatestBlockHeader_def putTransaction_def putBlockRaw_def
      addBatch_def batch_add_def put_txs_other split: if_splits Option.bind_splits dest: put_header_items_other)+

lemma and_thenE:
  assumes "and_then r f = Some (ok, st)"
  obtains st' where "r = Some (True, st')" "f st' = Some (ok, st)"
  | "r = Some (False, st)" "\<not> ok"
  using assms by (auto simp: and_then_def split: Option.bind_splits if_splits)

lemma saveBlock_False:
  assumes "saveBlock E raw hdr body st = Some (False, st')"
  shows "m_db st' = m_db st"
  using assms unfolding saveBlock_def
  by (auto simp: Let_def fun_eq_iff rollback_db split: Option.bind_splits if_splits prod.splits
      elim!: and_thenE dest!: put_steps_db)

text \<open>A successful save ran all five steps.\<close>

lemma saveBlock_TrueE:
  assumes "saveBlock E raw hdr body st = Some (True, st')"
  obtains s1 s2 s3 s4 s5 where
    "putBlockHeader E hdr (getStringK hdr ''bID'') st = Some (True, s1)"
    "putBlockHeight hdr (getStringK hdr ''bID'') s1 = Some (True, s2)"
    "putLatestBlockHeader E hdr s2 = Some (True, s3)"
    "putTransaction E body (getStringK hdr ''bID'') s3 = Some (True, s4)"
    "putBlockRaw E raw (getStringK hdr ''bID'') s4 = Some (True, s5)"
    "st' = commitBatchAll s5"
  using assms unfolding saveBlock_def
  by (auto simp: Let_def split: Option.bind_splits if_splits prod.splits elim!: and_thenE)

definition header_entries :: "ext \<Rightarrow> json \<Rightarrow> string \<Rightarrow> (string \<times> string) list" where
  "header_entries E hdr bid =
    [(''_bID'', getStringK hdr ''bID''), (''_ver'', getStringK hdr ''ver''), (''_cID'', getStringK hdr ''cID''),
     (''_time'', getStringK hdr ''time''), (''_hgt'', getStringK hdr ''hgt''),
     (''_ssig_c'', bytesToString (to_cbor E (the (json_at hdr ''SSig'')))),
     (''_ssig_n'', to_string (json_size (the (json_at hdr ''SSig'')))),
     (''_mID'', getStringK hdr ''mID''), (''_prevbID'', getStringK hdr ''prevbID''),
     (''_prevH'', getStringK hdr ''prevH''), (''_txrt'', getStringK hdr ''txrt''),
     (''_txids'', json_dump E (the (json_at hdr ''txids'')))]"

lemma put_header_value:
  assumes "name \<noteq> ''SSig''" "name \<noteq> ''txids''"
  shows "put_header_items E hdr bid ((name, suffix) # items) st =
    put_header_items E hdr bid items (addBatch BLOCK_HEADER (bid @ suffix) (getStringK hdr name) st)"
  using assms by simp

lemma putBlockHeader_batches:
  assumes "putBlockHeader E hdr bid st = Some (True, st')"
  shows "st' = fold (\<lambda>(s, v). addBatch BLOCK_HEADER (bid @ s) v) (header_entries E hdr bid) st"
    and "is_array (the (json_at hdr ''txids''))" "is_array (the (json_at hdr ''SSig''))"
  using assms unfolding putBlockHeader_def DB_BLOCK_HEADER_SUFFIX_def header_entries_def
  by (simp_all add: put_header_value split: Option.bind_splits if_splits)

lemma fold_addBatch_pending:
  "pending (fold (\<lambda>(s, v). addBatch w (bid @ s) v) es st) w' =
     (if w' = w then pending st w ++ map_of (rev (map (\<lambda>(s, v). (getPrefix w @ bid @ s, v)) es)) else pending st w')"
  by (induction es arbitrary: st) (auto simp: map_add_def fun_eq_iff split: option.splits)

lemma header_entries_lookup:
  assumes "(s, v) \<in> set (header_entries E hdr bid)"
  shows "map_of (rev (map (\<lambda>(s, v). (''B'' @ bid @ s, v)) (header_entries E hdr bid))) (''B'' @ bid @ s) = Some v"
proof (rule map_of_is_SomeI)
  show "distinct (map fst (rev (map (\<lambda>(s, v). (''B'' @ bid @ s, v)) (header_entries E hdr bid))))"
    by (simp add: header_entries_def)
qed (use assms in auto)

lemma putTransaction_batches:
  assumes "putTransaction E body bid st = Some (True, st')"
  shows "\<exists>txs mtree. json_at body ''tx'' = Some (JArr txs) \<and> json_at body ''mtree'' = Some mtree \<and>
    st' = addBatch TRANSACTION (bid @ ''_txCnt'') (getStringK body ''txCnt'')
            (addBatch TRANSACTION (bid @ ''_mtree'') (json_dump E mtree) (put_txs E bid 0 txs st))"
  using assms unfolding putTransaction_def
  by (auto split: Option.bind_splits if_splits) (metis is_array.elims(2) json_elems.simps(2))

lemma put_txs_pending_other: "w \<noteq> TRANSACTION \<Longrightarrow> pending (put_txs E bid i txs st) w = pending st w"
  by (induction E bid i txs st rule: put_txs.induct) (auto simp: Let_def)

text \<open>The record of a transaction does not change while others with another id are added.\<close>

lemma put_txs_frame:
  assumes "\<forall>tx \<in> set txs. getStringK tx ''txid'' \<noteq> txid" "s \<in> {''_c'', ''_mPos'', ''_bID''}"
  shows "pending (put_txs E bid i txs st) TRANSACTION (''T'' @ txid @ s) = pending st TRANSACTION (''T'' @ txid @ s)"
  using assms(1)
proof (induction E bid i txs st rule: put_txs.induct)
  case (2 E bid i tx txs st)
  then have "getStringK tx ''txid'' \<noteq> txid" by simp
  then have "txid @ s \<noteq> getStringK tx ''txid'' @ ''_c''" "txid @ s \<noteq> getStringK tx ''txid'' @ ''_mPos''"
    "txid @ s \<noteq> getStringK tx ''txid'' @ ''_bID''"
    using assms(2) by (auto simp: append_eq_append_conv2 append_eq_Cons_conv Cons_eq_append_conv)
  with "2" show ?case by (simp add: Let_def)
qed simp

definition tx_record :: "ext \<Rightarrow> string \<Rightarrow> nat \<Rightarrow> json \<Rightarrow> (string \<times> string) list" where
  "tx_record E bid i tx = [(''_c'', bytesToString (to_cbor E tx)), (''_mPos'', to_string i), (''_bID'', bid)]"

lemma put_txs_entry:
  assumes "distinct (map (\<lambda>tx. getStringK tx ''txid'') txs)" "n < length txs"
    "(s, v) \<in> set (tx_record E bid (i + n) (txs ! n))"
  shows "pending (put_txs E bid i txs st) TRANSACTION (''T'' @ getStringK (txs ! n) ''txid'' @ s) = Some v"
  using assms
proof (induction E bid i txs st arbitrary: n rule: put_txs.induct)
  case (2 E bid i tx txs st)
  show ?case
  proof (cases n)
    case 0
    then have "\<forall>t \<in> set txs. getStringK t ''txid'' \<noteq> getStringK tx ''txid''" "s \<in> {''_c'', ''_mPos'', ''_bID''}"
      using "2.prems" by (auto simp: tx_record_def image_iff)
    from put_txs_frame [OF this] show ?thesis
      using "2.prems" 0 by (auto simp: Let_def tx_record_def)
  next
    case (Suc m)
    with "2.prems" "2.IH" [OF refl, of m] show ?thesis by (simp add: Let_def)
  qed
qed simp

text \<open>The databases after a successful save, read through \<^const>\<open>getValueByKey\<close>.\<close>

lemma saveBlock_reads:
  assumes "saveBlock E raw hdr body st = Some (True, st')"
  defines "bid \<equiv> getStringK hdr ''bID''"
  shows "(s, v) \<in> set (header_entries E hdr bid) \<Longrightarrow> getValueByKey BLOCK_HEADER (bid @ s) st' = v"
    and "getValueByKey BLOCK_HEIGHT (getStringK hdr ''hgt'') st' = bid"
    and "getValueByKey BLOCK_RAW bid st' = bytesToString raw"
    and "getValueByKey BLOCK_RAW (bid @ ''_hash'') st' = bytesToString (sha256 E raw)"
proof -
  obtain s1 s2 s3 s4 s5 where steps:
    "putBlockHeader E hdr bid st = Some (True, s1)" "putBlockHeight hdr bid s1 = Some (True, s2)"
    "putLatestBlockHeader E hdr s2 = Some (True, s3)" "putTransaction E body bid s3 = Some (True, s4)"
    "putBlockRaw E raw bid s4 = Some (True, s5)" "st' = commitBatchAll s5"
    using saveBlock_TrueE [OF assms(1)] unfolding bid_def by blast
  have 3: "pending s3 w = pending s2 w" if "w \<noteq> BLOCK_LATEST" for w
    using steps(3) that by (auto simp: putLatestBlockHeader_def split: Option.bind_splits if_splits)
  have 4: "pending s4 w = pending s3 w" if "w \<noteq> TRANSACTION" for w
    using putTransaction_batches [OF steps(4)] that by (auto simp: put_txs_pending_other)
  show "(s, v) \<in> set (header_entries E hdr bid) \<Longrightarrow> getValueByKey BLOCK_HEADER (bid @ s) st' = v"
    using steps(2,5,6) 3 4 putBlockHeader_batches(1) [OF steps(1)] header_entries_lookup [of s v E hdr bid]
    by (auto simp: putBlockHeight_def putBlockRaw_def fold_addBatch_pending map_add_Some_iff [THEN iffD2])
  show "getValueByKey BLOCK_HEIGHT (getStringK hdr ''hgt'') st' = bid"
    using steps(2,5,6) 3 4 by (auto simp: putBlockHeight_def putBlockRaw_def)
  show "getValueByKey BLOCK_RAW bid st' = bytesToString raw"
    "getValueByKey BLOCK_RAW (bid @ ''_hash'') st' = bytesToString (sha256 E raw)"
    using steps(5,6) by (auto simp: putBlockRaw_def)
qed

lemma saveBlock_tx_reads:
  assumes "saveBlock E raw hdr body st = Some (True, st')" "json_at body ''tx'' = Some (JArr txs)"
    "distinct (map (\<lambda>tx. getStringK tx ''txid'') txs)" "n < length txs"
    "(s, v) \<in> set (tx_record E (getStringK hdr ''bID'') n (txs ! n))"
  shows "getValueByKey TRANSACTION (getStringK (txs ! n) ''txid'' @ s) st' = v"
proof -
  obtain s3 s4 s5 where steps:
    "putTransaction E body (getStringK hdr ''bID'') s3 = Some (True, s4)"
    "putBlockRaw E raw (getStringK hdr ''bID'') s4 = Some (True, s5)" "st' = commitBatchAll s5"
    using saveBlock_TrueE [OF assms(1)] by blast
  have s: "s \<in> {''_c'', ''_mPos'', ''_bID''}" using assms(5) by (auto simp: tx_record_def)
  show ?thesis
    using putTransaction_batches [OF steps(1)] steps(2,3) assms(2) s put_txs_entry [OF assms(3,4), of s v E _ 0] assms(5)
    by (auto simp: putBlockRaw_def append_eq_append_conv2 append_eq_Cons_conv Cons_eq_append_conv)
qed

lemma read_txs_stored:
  assumes "cbor_law E"
    "\<forall>tx \<in> set txs. getValueByKey TRANSACTION (getStringK tx ''txid'' @ ''_c'') st = bytesToString (to_cbor E tx)"
  shows "read_txs E (map (\<lambda>tx. JStr (getStringK tx ''txid'')) txs) st = Some txs"
  using assms by (induction txs) (simp_all add: cbor_law_def)

lemma read_stored_txs:
  assumes "saveBlock E raw hdr body st = Some (True, st')" "json_at body ''tx'' = Some (JArr txs)"
    "distinct (map (\<lambda>tx. getStringK tx ''txid'') txs)" "cbor_law E" "dump_law E"
    "json_at hdr ''txids'' = Some (JArr (map (\<lambda>tx. JStr (getStringK tx ''txid'')) txs))"
  defines "str \<equiv> getValueByKey BLOCK_HEADER (getStringK hdr ''bID'' @ ''_txids'') st'"
  shows "str \<noteq> []" "parseJsonAsArray E str = JArr (map (\<lambda>tx. JStr (getStringK tx ''txid'')) txs)"
    "read_txs E (map (\<lambda>tx. JStr (getStringK tx ''txid'')) txs) st' = Some txs"
proof -
  have "str = json_dump E (JArr (map (\<lambda>tx. JStr (getStringK tx ''txid'')) txs))"
    unfolding str_def using saveBlock_reads(1) [OF assms(1)] assms(6) by (simp add: header_entries_def)
  then show "str \<noteq> []" "parseJsonAsArray E str = JArr (map (\<lambda>tx. JStr (getStringK tx ''txid'')) txs)"
    using assms(5) by (simp_all add: dump_law_def parseJsonAsArray_def parseJson_def Let_def)
  have "getValueByKey TRANSACTION (getStringK tx ''txid'' @ ''_c'') st' = bytesToString (to_cbor E tx)"
    if tx: "tx \<in> set txs" for tx
  proof -
    obtain n where "n < length txs" "tx = txs ! n" using tx by (metis in_set_conv_nth)
    with saveBlock_tx_reads [OF assms(1-3), of n "''_c''"] show ?thesis by (simp add: tx_record_def)
  qed
  with read_txs_stored [OF assms(4)]
  show "read_txs E (map (\<lambda>tx. JStr (getStringK tx ''txid'')) txs) st' = Some txs" by blast
qed

text \<open>The link information of a saved block.\<close>

lemma saved_link_info:
  assumes "saveBlock E raw hdr body st = Some (True, st')"
    "getStringK hdr ''hgt'' = to_string h" "0 < h" "h < 2 ^ 63"
    "getStringK hdr ''time'' = to_string t" "t < 2 ^ 63" "getStringK hdr ''bID'' \<noteq> []"
  shows "getNthBlockIdB64 (word_of_nat h) st' = getStringK hdr ''bID''"
    "getNthBlockLinkInfo E (word_of_nat h) st' = Some
      \<lparr>link_id = decodeBase64 E (getStringK hdr ''bID''),
       link_prev_id = decodeBase64 E (getStringK hdr ''prevbID''),
       link_hash = sha256 E raw,
       link_prev_hash = decodeBase64 E (getStringK hdr ''prevH''),
       link_height = word_of_nat h, link_time = word_of_nat t\<rparr>"
proof -
  have u: "unat (word_of_nat h :: u64) = h"
    using assms(4) by (rule u64_of_nat)
  then have nz: "(word_of_nat h :: u64) \<noteq> 0" using assms(3,4) by (simp add: u64_of_nat_zero_iff)
  note reads = saveBlock_reads [OF assms(1)]
  have hd: "hd (to_string h) \<noteq> CHR ''-''"
    using to_string_digits [of "hd (to_string h)" h] by (metis digit_char_props(4) hd_in_set to_string_nonempty)
  have gs: "getSize (to_string h) = Some (word_of_nat h)"
    using hd assms(4) stoll_to_string [of h] by (cases "to_string h") (auto simp: getSize_def)
  have gt: "getTimeS (to_string t) = Some (word_of_nat t)"
    using assms(6) by (simp add: getTimeS_def stoll_to_string)
  show "getNthBlockIdB64 (word_of_nat h) st' = getStringK hdr ''bID''"
    using reads(2) assms(2) nz u by (simp add: getNthBlockIdB64_def)
  show "getNthBlockLinkInfo E (word_of_nat h) st' = Some
      \<lparr>link_id = decodeBase64 E (getStringK hdr ''bID''),
       link_prev_id = decodeBase64 E (getStringK hdr ''prevbID''),
       link_hash = sha256 E raw,
       link_prev_hash = decodeBase64 E (getStringK hdr ''prevH''),
       link_height = word_of_nat h, link_time = word_of_nat t\<rparr>"
    using reads(2-4) reads(1) [of "''_hgt''"] reads(1) [of "''_time''"] reads(1) [of "''_prevbID''"] reads(1) [of "''_prevH''"]
      assms(2,5,7) nz u gs gt
    by (simp add: getNthBlockLinkInfo_def header_entries_def Let_def)
qed

section \<open>Audit paths of stored transactions\<close>

lemma ancestor_snoc: "ancestor N (Suc l) i = N + ancestor N l i div 2"
  by (induction l arbitrary: i) simp_all

text \<open>The size that \<open>getProof\<close> has accumulated before level \<open>i\<close> is the offset of that level.\<close>

definition level_offset :: "nat \<Rightarrow> nat \<Rightarrow> nat" where
  "level_offset H i = (if i = 0 then 2 ^ H else 2 * 2 ^ H - 2 ^ (H + 1 - i))"

lemma level_offset_Suc:
  assumes "i < H"
  shows "(if i \<noteq> 0 then level_offset H i + 2 ^ H div 2 ^ i else level_offset H i) = level_offset H (Suc i)"
proof -
  have "(2::nat) ^ (H + 1 - i) = 2 * 2 ^ (H - i)" using assms by (simp add: Suc_diff_le)
  moreover have "(2::nat) ^ H div 2 ^ i = 2 ^ (H - i)" using assms by (simp add: power_diff)
  moreover have "(2::nat) ^ (H - i) \<le> 2 ^ H" by (intro power_increasing) auto
  ultimately show ?thesis by (auto simp: level_offset_def)
qed

lemma ancestor_offset:
  assumes "i < H" "p < 2 ^ H"
  shows "ancestor (2 ^ H) (Suc i) p = level_offset H (Suc i) + p div 2 ^ Suc i"
  using ancestor_pow2 [of "Suc i" H p] assms by (simp add: level_offset_def del: ancestor.simps)

lemma sibling_in_tree: "i div 2 < N - 1 \<Longrightarrow> sibling_idx i < 2 * N - 1"
  by (auto simp: sibling_idx_def)

lemma proof_loop_Suc:
  "proof_loop E N mtree (Suc n) i a b M sibs =
     (if length mtree \<le> sibling_idx a \<or> encodeBase64 E (mtree ! sibling_idx a) = [] then []
      else proof_loop E N mtree n (Suc i) ((if i \<noteq> 0 then M + N div 2 ^ i else M) + b div 2) (b div 2)
             (if i \<noteq> 0 then M + N div 2 ^ i else M)
             (sibs @ [(odd (sibling_idx a), encodeBase64 E (mtree ! sibling_idx a))]))"
  by (simp add: sibling_idx_def Let_def odd_iff_mod_2_eq_one)

lemma proof_loop_path:
  assumes "p < 2 ^ H" "length mtree = 2 * 2 ^ H - 1" "\<forall>h \<in> set mtree. encodeBase64 E h \<noteq> []" "i + n = H"
  shows "proof_loop E (2 ^ H) mtree n i (ancestor (2 ^ H) i p) (p div 2 ^ i) (level_offset H i) sibs =
    sibs @ map (\<lambda>(r, h). (r, encodeBase64 E h)) (audit_path (2 ^ H) mtree n (ancestor (2 ^ H) i p))"
  using assms(4)
proof (induction n arbitrary: i sibs)
  case (Suc n)
  let ?a = "ancestor (2 ^ H) i p"
  have i: "i < H" using Suc.prems by simp
  have len: "sibling_idx ?a < length mtree"
    using sibling_in_tree [OF ancestor_inner [OF i assms(1)]] assms(2) by simp
  then have enc: "encodeBase64 E (mtree ! sibling_idx ?a) \<noteq> []" using assms(3) by simp
  have up: "2 ^ H + ?a div 2 = ancestor (2 ^ H) (Suc i) p" by (rule ancestor_snoc [symmetric])
  have dv: "p div 2 ^ i div 2 = p div 2 ^ Suc i" by (metis div_mult2_eq power_Suc2)
  have "Suc i + n = H" using Suc.prems by simp
  note IH = Suc.IH [OF this]
  show ?case
    unfolding proof_loop_Suc level_offset_Suc [OF i] dv ancestor_offset [OF i assms(1), symmetric] IH
      audit_path.simps up
    using len enc by simp
qed simp

lemma proof_loop_accepted:
  assumes "lookup_law E" "base64_law E" "\<forall>h \<in> set tree. encodeBase64 E h \<noteq> []"
    "tree = generate_n E (2 ^ H) ds t" "length t = 2 * 2 ^ H - 1" "p < 2 ^ H"
  shows "isValidSiblings E (proof_loop E (2 ^ H) tree H 0 p p (2 ^ H) [(r, encodeBase64 E (tree ! p))])
    (encodeBase64 E (tree ! p)) (encodeBase64 E (last tree))"
proof -
  have len: "length tree = 2 * 2 ^ H - 1" using assms(4,5) by simp
  have "(1::nat) \<le> 2 ^ H" by simp
  then have "p < length tree" "tree \<noteq> []" using len assms(6) by auto
  then have enc: "encodeBase64 E (tree ! p) \<noteq> []" "encodeBase64 E (last tree) \<noteq> []"
    using assms(3) by simp_all
  have path: "proof_loop E (2 ^ H) tree H 0 p p (2 ^ H) [(r, encodeBase64 E (tree ! p))] =
      (r, encodeBase64 E (tree ! p)) #
        map (\<lambda>(r, h). (r, encodeBase64 E h)) (audit_path (2 ^ H) tree H p)"
    using proof_loop_path [OF assms(6) len assms(3), of 0 H] by (simp add: level_offset_def)
  have root: "fold_siblings E (audit_path (2 ^ H) tree H p) (tree ! p) = last tree"
    using audit_path_root [OF assms(1,5,6), of ds] assms(4) by simp
  have "map (\<lambda>(r, s). (r, decodeBase64 E s)) (map (\<lambda>(r, h). (r, encodeBase64 E h)) xs) = xs"
    for xs :: "(bool \<times> bytes) list"
    using decode_encode [OF assms(2)] by (induction xs) auto
  moreover have "tree ! p \<noteq> []" "last tree \<noteq> []"
    using enc base64_empty_iff [OF assms(2)] by (auto simp: encodeBase64_def)
  ultimately show ?thesis
    using enc root by (simp add: path isValidSiblings_def isValidSiblings_bytes_def decode_encode [OF assms(2)] del: map_map)
qed

lemma saveBlock_mtree_read:
  assumes "saveBlock E raw hdr body st = Some (True, st')" "json_at body ''mtree'' = Some mtree"
  shows "getValueByKey TRANSACTION (getStringK hdr ''bID'' @ ''_mtree'') st' = json_dump E mtree"
proof -
  obtain s3 s4 s5 where steps:
    "putTransaction E body (getStringK hdr ''bID'') s3 = Some (True, s4)"
    "putBlockRaw E raw (getStringK hdr ''bID'') s4 = Some (True, s5)" "st' = commitBatchAll s5"
    using saveBlock_TrueE [OF assms(1)] by blast
  then show ?thesis
    using putTransaction_batches [OF steps(1)] assms(2) by (auto simp: putBlockRaw_def)
qed

section \<open>The latest block\<close>

lemma append_eq_rev: "(xs @ s = ys @ s') \<longleftrightarrow> (rev s @ rev xs = rev s' @ rev ys)"
  by (metis rev_append rev_rev_ident)

text \<open>The height and time entries of another block are not overwritten.\<close>

lemma header_entries_other:
  assumes "old \<noteq> bid" "s \<in> {''_hgt'', ''_time''}"
  shows "map_of (rev (map (\<lambda>(s, v). (''B'' @ bid @ s, v)) (header_entries E hdr bid))) (''B'' @ old @ s) = None"
  using assms by (auto simp: header_entries_def append_eq_rev map_of_eq_None_iff)

lemma link_info_db: "m_db s = m_db s' \<Longrightarrow> getNthBlockLinkInfo E h s = getNthBlockLinkInfo E h s'"
proof -
  assume "m_db s = m_db s'"
  then have "getValueByKey w k s = getValueByKey w k s'" for w k by (simp add: getValueByKey_def)
  then show ?thesis by (simp add: getNthBlockLinkInfo_def Let_def)
qed

definition batches_empty :: "Storage \<Rightarrow> bool" where
  "batches_empty st \<longleftrightarrow> (\<forall>w. block_db w \<longrightarrow> m_batch st w = [])"

lemma pending_empty: "batches_empty st \<Longrightarrow> block_db w \<Longrightarrow> pending st w = m_db st w"
  by (simp add: batches_empty_def pending_def db_write_def)

lemma saveBlock_batches_empty: "saveBlock E raw hdr body st = Some (ok, st') \<Longrightarrow> batches_empty st'"
  unfolding saveBlock_def batches_empty_def
  by (auto simp: Let_def commit_db rollback_db split: Option.bind_splits if_splits)

lemma saveBlock_other_batches:
  assumes "saveBlock E raw hdr body st = Some (False, st')" "\<not> block_db w"
  shows "m_batch st' w = m_batch st w"
  using assms(1) unfolding saveBlock_def
  by (auto simp: Let_def rollback_db assms(2) split: Option.bind_splits if_splits prod.splits
      elim!: and_thenE dest!: put_steps_other [OF assms(2)])

text \<open>What a successful save does to the latest-block record and to the entries of other blocks.\<close>

text \<open>The block databases with their batches. The operations on ledgers and backups do not touch them.\<close>

definition block_dbs :: "Storage \<Rightarrow> DBType \<Rightarrow> ((string \<rightharpoonup> string) \<times> batch_op list) option" where
  "block_dbs st w = (if block_db w then Some (m_db st w, m_batch st w) else None)"

lemma block_dbs_frame [simp]:
  "block_dbs (st_saveLedger k v st) = block_dbs st" "block_dbs (st_flushLedger st) = block_dbs st"
  "block_dbs (saveBackup k v st) = block_dbs st" "block_dbs (flushBackup st) = block_dbs st"
  "block_dbs (delBackup k st) = block_dbs st"
  by (auto simp: fun_eq_iff block_dbs_def st_saveLedger_def st_flushLedger_def st_clearLedger_def saveBackup_def flushBackup_def
      clearBackup_def delBackup_def addBatch_def batch_add_def write_batch_def clear_batch_def)

lemma block_dbs_read: "block_dbs st = block_dbs st' \<Longrightarrow> block_db w \<Longrightarrow> getValueByKey w k st = getValueByKey w k st'"
  by (auto simp: fun_eq_iff block_dbs_def getValueByKey_def dest: spec [of _ w])

lemma block_dbs_batches: "block_dbs st = block_dbs st' \<Longrightarrow> batches_empty st = batches_empty st'"
  by (simp add: fun_eq_iff block_dbs_def batches_empty_def) (metis option.inject prod.inject)

lemma block_dbs_link: "block_dbs st = block_dbs st' \<Longrightarrow> getNthBlockLinkInfo E h st = getNthBlockLinkInfo E h st'"
  unfolding getNthBlockLinkInfo_def by (simp only: block_dbs_read [of st st'] block_db_simps)

lemma saveBlock_latest:
  assumes "saveBlock E raw hdr body st = Some (True, st')" "batches_empty st"
    "getNthBlockLinkInfo E 0 st = Some l" "getInt hdr ''hgt'' = Some hgt"
  shows "getValueByKey BLOCK_LATEST ''bID'' st' =
      (if hgt \<le> link_height l then getValueByKey BLOCK_LATEST ''bID'' st else getStringK hdr ''bID'')"
    and "old \<noteq> getStringK hdr ''bID'' \<Longrightarrow> s \<in> {''_hgt'', ''_time''} \<Longrightarrow>
      getValueByKey BLOCK_HEADER (old @ s) st' = getValueByKey BLOCK_HEADER (old @ s) st"
proof -
  let ?bid = "getStringK hdr ''bID''"
  obtain s1 s2 s3 s4 s5 where steps:
    "putBlockHeader E hdr ?bid st = Some (True, s1)" "putBlockHeight hdr ?bid s1 = Some (True, s2)"
    "putLatestBlockHeader E hdr s2 = Some (True, s3)" "putTransaction E body ?bid s3 = Some (True, s4)"
    "putBlockRaw E raw ?bid s4 = Some (True, s5)" "st' = commitBatchAll s5"
    using saveBlock_TrueE [OF assms(1)] by blast
  have db: "m_db s2 = m_db st" using put_steps_db(1) [OF steps(1)] put_steps_db(2) [OF steps(2)] by simp
  then have "getNthBlockLinkInfo E 0 s2 = Some l"
    using assms(3) link_info_db by metis
  with steps(3) assms(4) have s3: "s3 = (if hgt \<le> link_height l then s2
      else addBatch BLOCK_LATEST ''hgt'' (getStringK hdr ''hgt'') (addBatch BLOCK_LATEST ''bID'' ?bid s2))"
    by (auto simp: putLatestBlockHeader_def)
  have 4: "pending s4 w = pending s3 w" if "w \<noteq> TRANSACTION" for w
    using putTransaction_batches [OF steps(4)] that by (auto simp: put_txs_pending_other)
  note s1 = putBlockHeader_batches(1) [OF steps(1)]
  have p2: "pending s2 BLOCK_LATEST = m_db st BLOCK_LATEST"
    using steps(2) s1 pending_empty [OF assms(2)] by (auto simp: putBlockHeight_def fold_addBatch_pending)
  show "getValueByKey BLOCK_LATEST ''bID'' st' =
      (if hgt \<le> link_height l then getValueByKey BLOCK_LATEST ''bID'' st else ?bid)"
    using steps(5,6) s3 4 p2 by (auto simp: putBlockRaw_def getValueByKey_opt commit_db)
  assume old: "old \<noteq> ?bid" "s \<in> {''_hgt'', ''_time''}"
  have "pending s5 BLOCK_HEADER = pending s1 BLOCK_HEADER"
    using steps(2,5) s3 4 by (auto simp: putBlockHeight_def putBlockRaw_def)
  then show "getValueByKey BLOCK_HEADER (old @ s) st' = getValueByKey BLOCK_HEADER (old @ s) st"
    using header_entries_other [OF old, of E hdr] pending_empty [OF assms(2)]
    by (simp add: steps(6) s1 getValueByKey_opt commit_db fold_addBatch_pending map_add_def)
qed

section \<open>Properties\<close>

text \<open>The header and body of a block as the writers of this program produce them.\<close>

definition block_json_ok :: "json \<Rightarrow> json \<Rightarrow> nat \<Rightarrow> nat \<Rightarrow> json list \<Rightarrow> bool" where
  "block_json_ok hdr body h t txs \<longleftrightarrow>
     getStringK hdr ''bID'' \<noteq> [] \<and>
     getStringK hdr ''hgt'' = to_string h \<and> 0 < h \<and> h < 2 ^ 63 \<and>
     getStringK hdr ''time'' = to_string t \<and> t < 2 ^ 63 \<and>
     json_at body ''tx'' = Some (JArr txs) \<and> distinct (map (\<lambda>tx. getStringK tx ''txid'') txs) \<and>
     json_at hdr ''txids'' = Some (JArr (map (\<lambda>tx. JStr (getStringK tx ''txid'')) txs))"

text \<open>A block in that form is accepted whenever the latest-block record of the storage is readable.\<close>

lemma saveBlock_succeeds:
  assumes "block_json_ok hdr body h t txs" "json_at hdr ''SSig'' = Some (JArr ssigs)"
    "json_at body ''mtree'' = Some mtree" "getNthBlockLinkInfo E 0 st = Some l"
  shows "\<exists>st'. saveBlock E raw hdr body st = Some (True, st')"
proof -
  let ?bid = "getStringK hdr ''bID''"
  have ok: "getStringK hdr ''hgt'' = to_string h" "h < 2 ^ 63" "json_at body ''tx'' = Some (JArr txs)"
     "json_at hdr ''txids'' = Some (JArr (map (\<lambda>tx. JStr (getStringK tx ''txid'')) txs))"
    using assms(1) unfolding block_json_ok_def by blast+
  obtain s1 where s1: "putBlockHeader E hdr ?bid st = Some (True, s1)"
    using ok(4) assms(2) by (simp add: putBlockHeader_def DB_BLOCK_HEADER_SUFFIX_def put_header_value)
  obtain s2 where s2: "putBlockHeight hdr ?bid s1 = Some (True, s2)" by (simp add: putBlockHeight_def)
  have "getNthBlockLinkInfo E 0 s2 = Some l"
    using link_info_db [of s2 st E 0] put_steps_db(1) [OF s1] put_steps_db(2) [OF s2] assms(4) by simp
  then obtain s3 where s3: "putLatestBlockHeader E hdr s2 = Some (True, s3)"
    using getInt_written [OF ok(1,2)]
    by (cases "word_of_nat h \<le> link_height l") (simp_all add: putLatestBlockHeader_def)
  obtain s4 where s4: "putTransaction E body ?bid s3 = Some (True, s4)"
    using ok(3) assms(3) by (simp add: putTransaction_def)
  show ?thesis using s1 s2 s3 s4 by (simp add: saveBlock_def Let_def and_then_def putBlockRaw_def)
qed

lemma readBlock_saved:
  assumes "saveBlock E raw hdr body st = Some (True, st')" "block_json_ok hdr body h t txs"
    "cbor_law E" "dump_law E"
  shows "readBlock E (word_of_nat h) st' = Some
    \<lparr>sb_id = decodeBase64 E (getStringK hdr ''bID''), sb_hash = sha256 E raw,
     sb_prev_id = decodeBase64 E (getStringK hdr ''prevbID''),
     sb_prev_hash = decodeBase64 E (getStringK hdr ''prevH''),
     sb_time = word_of_nat t, sb_height = word_of_nat h, sb_block_raw = raw, sb_txs = JArr txs\<rparr>"
proof -
  have ok: "getStringK hdr ''bID'' \<noteq> []" "getStringK hdr ''hgt'' = to_string h" "0 < h" "h < 2 ^ 63"
     "getStringK hdr ''time'' = to_string t" "t < 2 ^ 63" "json_at body ''tx'' = Some (JArr txs)"
     "distinct (map (\<lambda>tx. getStringK tx ''txid'') txs)"
     "json_at hdr ''txids'' = Some (JArr (map (\<lambda>tx. JStr (getStringK tx ''txid'')) txs))"
    using assms(2) unfolding block_json_ok_def by blast+
  have nz: "(word_of_nat h :: u64) \<noteq> 0"
    using ok(3,4) by (simp add: u64_of_nat_zero_iff)
  show ?thesis
    using saved_link_info [OF assms(1) ok(2-6,1)] read_stored_txs [OF assms(1) ok(7,8) assms(3,4) ok(9)]
      saveBlock_reads(3) [OF assms(1)] ok(1) nz
    by (simp add: readBlock_def Let_def)
qed

text \<open>C11. A block that \<open>saveBlock\<close> accepts is read back by \<open>readBlock\<close> at its height: the same id,
  previous id, previous hash, time and raw bytes, the SHA-256 of the raw bytes as its hash, and its
  transactions in order.\<close>

theorem saveBlock_readBlock:
  assumes "saveBlock E raw hdr body st = Some (True, st')" "block_json_ok hdr body h t txs"
    "cbor_law E" "dump_law E"
  shows "readBlock E (word_of_nat h) st' = Some
    \<lparr>sb_id = decodeBase64 E (getStringK hdr ''bID''), sb_hash = sha256 E raw,
     sb_prev_id = decodeBase64 E (getStringK hdr ''prevbID''),
     sb_prev_hash = decodeBase64 E (getStringK hdr ''prevH''),
     sb_time = word_of_nat t, sb_height = word_of_nat h, sb_block_raw = raw, sb_txs = JArr txs\<rparr>"
  by (rule readBlock_saved [OF assms])

lemma saveBlock_raises:
  assumes "saveBlock E raw hdr body st = Some (True, st')" "block_json_ok hdr body h t txs"
    "batches_empty st" "getNthBlockLinkInfo E 0 st = Some l" "\<not> word_of_nat h \<le> link_height l"
  shows "map_option link_height (getNthBlockLinkInfo E 0 st') = Some (word_of_nat h)"
proof -
  have ok: "getStringK hdr ''bID'' \<noteq> []" "getStringK hdr ''hgt'' = to_string h" "0 < h" "h < 2 ^ 63"
     "getStringK hdr ''time'' = to_string t" "t < 2 ^ 63"
    using assms(2) unfolding block_json_ok_def by blast+
  have hgt: "getInt hdr ''hgt'' = Some (word_of_nat h)" by (rule getInt_written [OF ok(2,4)])
  have "getNthBlockIdB64 0 st' = getNthBlockIdB64 (word_of_nat h) st'"
    using saveBlock_latest(1) [OF assms(1,3,4) hgt] assms(5) saved_link_info(1) [OF assms(1) ok(2-6,1)]
    by (simp add: getNthBlockIdB64_def)
  then have "getNthBlockLinkInfo E 0 st' = getNthBlockLinkInfo E (word_of_nat h) st'"
    by (simp add: getNthBlockLinkInfo_def getNthBlockIdB64_def Let_def split: if_splits)
  then show ?thesis using saved_link_info(2) [OF assms(1) ok(2-6,1)] by simp
qed

text \<open>C22. The latest block of the storage is the highest one: after a successful save the height
  of the latest block is the maximum of its old value and the height of the saved block, so it
  never decreases.\<close>

theorem saveBlock_latest_height:
  assumes "saveBlock E raw hdr body st = Some (True, st')" "block_json_ok hdr body h t txs"
    "batches_empty st" "getNthBlockLinkInfo E 0 st = Some l"
    "getValueByKey BLOCK_LATEST ''bID'' st \<noteq> getStringK hdr ''bID''"
  shows "map_option link_height (getNthBlockLinkInfo E 0 st') = Some (max (link_height l) (word_of_nat h))"
proof -
  have ok: "getStringK hdr ''bID'' \<noteq> []" "getStringK hdr ''hgt'' = to_string h" "0 < h" "h < 2 ^ 63"
     "getStringK hdr ''time'' = to_string t" "t < 2 ^ 63"
    using assms(2) unfolding block_json_ok_def by blast+
  let ?old = "getValueByKey BLOCK_LATEST ''bID'' st"
  have hgt: "getInt hdr ''hgt'' = Some (word_of_nat h)" by (rule getInt_written [OF ok(2,4)])
  note latest = saveBlock_latest [OF assms(1,3,4) hgt]
  show ?thesis
  proof (cases "word_of_nat h \<le> link_height l")
    case True
    have "?old \<noteq> []"
      using assms(4) True ok(3,4) by (auto simp: getNthBlockLinkInfo_def Let_def u64_of_nat_zero_iff split: if_splits)
    moreover from this obtain t' where "getSize (getValueByKey BLOCK_HEADER (?old @ ''_hgt'') st) = Some (link_height l)"
      "getTimeS (getValueByKey BLOCK_HEADER (?old @ ''_time'') st) = Some t'"
      using assms(4) by (auto simp: getNthBlockLinkInfo_def Let_def bind_eq_Some_conv)
    ultimately show ?thesis
      using True latest(1) latest(2) [OF assms(5)] by (simp add: getNthBlockLinkInfo_def Let_def max.absorb1)
  next
    case False
    then show ?thesis using saveBlock_raises [OF assms(1-4)] by (simp add: max.absorb4 not_le)
  qed
qed

lemma getProof_saved:
  assumes "saveBlock E raw hdr body st = Some (True, st')" "block_json_ok hdr body h t txs"
    "json_at body ''mtree'' = Some (JArr (map (\<lambda>d. JStr (encodeBase64 E d)) ds))"
    "length ds = length txs" "length txs \<le> MAX_MERKLE_LEAVES" "\<forall>d \<in> set ds. length d = 32"
    "base64_law E" "dump_law E" "sha_law E" "lookup_law E" "n < length txs"
  shows "\<exists>p. getProof E (getStringK (txs ! n) ''txid'') st' = Some p \<and>
    proof_block_id_b64 p = getStringK hdr ''bID'' \<and>
    isValidSiblings E (siblings p) (encodeBase64 E (ds ! n))
      (encodeBase64 E (last (generate E ds (new_tree MAX_MERKLE_LEAVES))))"
proof -
  let ?bid = "getStringK hdr ''bID''" and ?tree = "generate E ds (new_tree MAX_MERKLE_LEAVES)"
  let ?mj = "JArr (map (\<lambda>d. JStr (encodeBase64 E d)) ds)"
  have ok: "?bid \<noteq> []" "json_at body ''tx'' = Some (JArr txs)" "distinct (map (\<lambda>tx. getStringK tx ''txid'') txs)"
    using assms(2) unfolding block_json_ok_def by blast+
  note rec = saveBlock_tx_reads [OF assms(1) ok(2,3) assms(11), unfolded tx_record_def]
  have N: "MAX_MERKLE_LEAVES = 2 ^ 12" by (simp add: MAX_MERKLE_LEAVES_def)
  have n: "n < 2 ^ 12" "n < length ds" using assms(4,5,11) N by auto
  have mt: "getValueByKey TRANSACTION (?bid @ ''_mtree'') st' = json_dump E ?mj"
    by (rule saveBlock_mtree_read [OF assms(1,3)])
  have digests: "map (\<lambda>i. decodeBase64 E (getStringI ?mj i)) [0..<json_size ?mj] = ds"
    by (rule nth_equalityI) (auto simp: decode_encode [OF assms(7)])
  have my: "getStringI ?mj n = encodeBase64 E (ds ! n)" using n by auto
  have len: "length (new_tree MAX_MERKLE_LEAVES) = 2 * 2 ^ 12 - 1" by (simp add: new_tree_def N)
  have tree: "?tree = generate_n E (2 ^ 12) ds (new_tree MAX_MERKLE_LEAVES)" by (simp add: generate_def N)
  have "length h = 32" if "h \<in> set ?tree" for h
    using that generate_n_length32 [OF assms(9,10,6) len] len
    by (metis in_set_conv_nth length_generate_n tree)
  then have enc: "\<forall>h \<in> set ?tree. encodeBase64 E h \<noteq> []"
    using base64_empty_iff [OF assms(7)] by (force simp: encodeBase64_def)
  have leaf: "?tree ! n = ds ! n"
    unfolding tree using n len by (simp add: generate_n_leaf leaf_of_def)
  have "n < length ?tree" using n len by (simp add: tree)
  then have dn: "encodeBase64 E (ds ! n) \<noteq> []" using enc leaf nth_mem by metis
  have "getProof E (getStringK (txs ! n) ''txid'') st' = Some \<lparr>proof_block_id_b64 = ?bid,
      siblings = proof_loop E (2 ^ 12) ?tree 12 0 n n (2 ^ 12) [(n mod 2 \<noteq> 0, encodeBase64 E (ds ! n))]\<rparr>"
    using rec [of "''_mPos''"] rec [of "''_bID''"] mt digests my n dn ok(1) assms(8)
    by (simp add: getProof_def stoi_to_string parseJson_def dump_law_def N MERKLE_TREE_HEIGHT_def
        del: getStringI.simps json_size.simps)
  moreover have "isValidSiblings E (proof_loop E (2 ^ 12) ?tree 12 0 n n (2 ^ 12) [(n mod 2 \<noteq> 0, encodeBase64 E (ds ! n))])
      (encodeBase64 E (ds ! n)) (encodeBase64 E (last ?tree))"
    using proof_loop_accepted [OF assms(10,7) enc tree len n(1)] by (simp only: leaf)
  ultimately show ?thesis by auto
qed

text \<open>C14. After a block is saved, \<open>getProof\<close> gives for each of its transactions the id of that
  block and an audit path that \<open>isValidSiblings\<close> accepts from the digest of the transaction to the
  root of the Merkle tree over the digests stored in the block.\<close>

theorem getProof_accepted:
  assumes "saveBlock E raw hdr body st = Some (True, st')" "block_json_ok hdr body h t txs"
    "json_at body ''mtree'' = Some (JArr (map (\<lambda>d. JStr (encodeBase64 E d)) ds))"
    "length ds = length txs" "length txs \<le> MAX_MERKLE_LEAVES" "\<forall>d \<in> set ds. length d = 32"
    "base64_law E" "dump_law E" "sha_law E" "lookup_law E" "n < length txs"
  shows "\<exists>p. getProof E (getStringK (txs ! n) ''txid'') st' = Some p \<and>
    proof_block_id_b64 p = getStringK hdr ''bID'' \<and>
    isValidSiblings E (siblings p) (encodeBase64 E (ds ! n))
      (encodeBase64 E (last (generate E ds (new_tree MAX_MERKLE_LEAVES))))"
  by (rule getProof_saved [OF assms])

text \<open>C23. A rejected save is rolled back: when \<open>saveBlock\<close> returns false, no database has changed, the
  batches of the five block databases are empty, so that the next save starts clean, and the batches of the
  ledger and the backup hold what they held before.\<close>

theorem saveBlock_rollback:
  assumes "saveBlock E raw hdr body st = Some (False, st')"
  shows "m_db st' = m_db st \<and> m_batch st' w = (if block_db w then [] else m_batch st w)"
  using saveBlock_False [OF assms] saveBlock_batches_empty [OF assms] saveBlock_other_batches [OF assms, of w]
  by (simp add: batches_empty_def)

text \<open>Ledger records are batched: after any sequence of saves the next flush makes the last
  saved value of each key readable, and until then every read sees the old value.\<close>

theorem ledger_saves_flush:
  "st_readLedgerByKey k (st_flushLedger (fold (\<lambda>(k, v). st_saveLedger k v) kvs st)) =
     (case map_of (rev kvs) k of Some v \<Rightarrow> v | None \<Rightarrow> st_readLedgerByKey k (st_flushLedger st)) \<and>
   st_readLedgerByKey k (fold (\<lambda>(k, v). st_saveLedger k v) kvs st) = st_readLedgerByKey k st"
  using ledger_kv.read_flush_saves ledger_kv.read_saves by blast

text \<open>\<open>delBackup\<close> does not remove a backup: the saved record of a block is still read after
  the deletion is flushed, because the deleted key lacks the database prefix (unless the id itself
  starts with the prefix of another saved key).\<close>

theorem delBackup_keeps_record:
  assumes "k \<noteq> ''S'' @ k'"
  shows "readBackup k' (flushBackup (delBackup k (flushBackup (saveBackup k' v st)))) = v"
proof -
  have "pending (flushBackup s) BLOCK_BACKUP = pending s BLOCK_BACKUP" for s
    by (simp add: flushBackup_def clearBackup_def clear_batch_def write_batch_def pending_def db_write_def)
  then show ?thesis
    using assms by (auto simp: delBackup_def readBackup_def getValueByKey_opt flush_db pending_batch_add saveBackup_def)
qed

section \<open>Witnesses\<close>

definition hdr0 :: json where
  "hdr0 = json_obj [(''bID'', JStr ''!b''), (''hgt'', JStr (to_string 1)), (''time'', JStr (to_string 7)),
     (''prevbID'', JStr ''!p''), (''prevH'', JStr ''!q''), (''SSig'', JArr []),
     (''txids'', JArr [JStr ''!t''])]"

definition tx0 :: json where
  "tx0 = json_obj [(''txid'', JStr ''!t'')]"

definition body0 :: json where
  "body0 = json_obj [(''tx'', JArr [tx0]), (''mtree'', JArr [JStr (encodeBase64 ext0 dummy_leaf)]), (''txCnt'', JStr ''1'')]"

lemma block0_ok: "block_json_ok hdr0 body0 1 7 [tx0]"
  by (simp add: block_json_ok_def hdr0_def body0_def tx0_def)

lemma link0: "getNthBlockLinkInfo ext0 0 new_storage = Some \<lparr>link_id = decodeBase64 ext0 GENESIS_BLOCK_PREV_ID_B64,
    link_prev_id = [], link_hash = decodeBase64 ext0 GENESIS_BLOCK_PREV_HASH_B64, link_prev_hash = [],
    link_height = 0, link_time = 0\<rparr>"
  by (simp add: getNthBlockLinkInfo_def getValueByKey_def new_storage_def)

lemma save0: "\<exists>st'. saveBlock ext0 [1, 2] hdr0 body0 new_storage = Some (True, st')"
  by (rule saveBlock_succeeds [OF block0_ok _ _ link0]) (simp_all add: hdr0_def body0_def)

theorem saveBlock_readBlock_witness:
  "\<exists>st'. saveBlock ext0 [1, 2] hdr0 body0 new_storage = Some (True, st') \<and>
     map_option (\<lambda>b. (sb_block_raw b, sb_txs b)) (readBlock ext0 (word_of_nat 1) st') = Some ([1, 2], JArr [tx0])"
proof -
  obtain st' where "saveBlock ext0 [1, 2] hdr0 body0 new_storage = Some (True, st')" using save0 by blast
  with saveBlock_readBlock [OF this block0_ok ext0_laws(2,3)] show ?thesis by auto
qed

theorem saveBlock_latest_height_witness:
  "\<exists>st'. saveBlock ext0 [1, 2] hdr0 body0 new_storage = Some (True, st') \<and>
     map_option link_height (getNthBlockLinkInfo ext0 0 st') = Some (max 0 (word_of_nat 1))"
proof -
  obtain st' where s: "saveBlock ext0 [1, 2] hdr0 body0 new_storage = Some (True, st')" using save0 by blast
  have "batches_empty new_storage" "getValueByKey BLOCK_LATEST ''bID'' new_storage \<noteq> getStringK hdr0 ''bID''"
    by (simp_all add: batches_empty_def new_storage_def getValueByKey_def hdr0_def)
  from saveBlock_latest_height [OF s block0_ok this(1) link0 this(2)] s show ?thesis by auto
qed

theorem getProof_accepted_witness:
  "\<exists>st' p. saveBlock ext0 [1, 2] hdr0 body0 new_storage = Some (True, st') \<and>
     getProof ext0 ''!t'' st' = Some p \<and> proof_block_id_b64 p = ''!b'' \<and>
     isValidSiblings ext0 (siblings p) (encodeBase64 ext0 dummy_leaf)
       (encodeBase64 ext0 (last (generate ext0 [dummy_leaf] (new_tree MAX_MERKLE_LEAVES))))"
proof -
  obtain st' where s: "saveBlock ext0 [1, 2] hdr0 body0 new_storage = Some (True, st')" using save0 by blast
  have m: "json_at body0 ''mtree'' = Some (JArr (map (\<lambda>d. JStr (encodeBase64 ext0 d)) [dummy_leaf]))"
    by (simp add: body0_def)
  have "length [dummy_leaf] = length [tx0]" "length [tx0] \<le> MAX_MERKLE_LEAVES" "\<forall>d \<in> set [dummy_leaf]. length d = 32"
    "0 < length [tx0]"
    by (simp_all add: MAX_MERKLE_LEAVES_def dummy_leaf_def)
  from getProof_accepted [OF s block0_ok m this(1-3) ext0_laws(1,3,4) ext0_lookup this(4)] s
  show ?thesis by (auto simp: tx0_def hdr0_def)
qed

text \<open>A header without signatures is refused while a record of the ledger waits for its flush.\<close>

theorem saveBlock_rollback_witness:
  "\<exists>st'. saveBlock ext0 [] (json_obj []) body0 (st_saveLedger ''k'' ''v'' new_storage) = Some (False, st') \<and>
     m_db st' = m_db new_storage \<and> m_batch st' LEDGER = [Put (getPrefix LEDGER @ ''k'') ''v'']"
proof -
  let ?st = "st_saveLedger ''k'' ''v'' new_storage"
  obtain st' where "saveBlock ext0 [] (json_obj []) body0 ?st = Some (False, st')"
    by (simp add: saveBlock_def putBlockHeader_def DB_BLOCK_HEADER_SUFFIX_def and_then_def Let_def)
  with saveBlock_rollback [OF this, of LEDGER] show ?thesis
    by (simp add: st_saveLedger_def addBatch_def batch_add_def new_storage_def)
qed

theorem delBackup_keeps_record_witness:
  "readBackup ''abc'' (flushBackup (delBackup ''abc'' (flushBackup (saveBackup ''abc'' ''v'' new_storage)))) = ''v''"
  by (rule delBackup_keeps_record) simp

end
