(* ===== verification/Block.thy ===== *)
theory Block
  imports Transaction Storage
begin

text \<open>
  \<open>class Block\<close> of \<open>src/chain/block.hpp\<close>: construction by the block generator, the raw form
  (compression byte, header length, compressed header, signature), parsing of received blocks and
  the two validity checks. The lemmas show that the raw form parses back to the header and the
  signature it was made of, that a finalised block survives serialisation and storage, and that a
  correctly produced block passes both checks.
\<close>

section \<open>Definitions\<close>

record BasicBlockInfo =
  bi_time :: timestamp_t
  bi_merger_id :: merger_id_type
  bi_chain_id :: localchain_id_type
  bi_height :: block_height_type
  bi_transaction_root :: hash_t
  bi_prev_id_b64 :: string
  bi_prev_hash_b64 :: string
  bi_transactions :: "Transaction list"

record Block =
  m_version :: u32
  m_time :: timestamp_t
  m_block_id :: block_id_type
  m_merger_id :: merger_id_type
  m_chain_id :: localchain_id_type
  m_height :: block_height_type
  m_tx_root :: hash_t
  m_prev_block_hash :: hash_t
  m_block_hash :: hash_t
  m_prev_block_id :: block_id_type
  m_signature :: bytes
  m_transactions :: "Transaction list"
  m_merkle_tree_node :: "hash_t list"
  m_ssigs :: "Signature list"
  m_user_certs :: "string \<rightharpoonup> string"
  m_block_raw :: bytes

text \<open>The members that no constructor sets start at the values this model gives them.\<close>

definition new_block :: Block where
  "new_block = \<lparr>m_version = 0, m_time = 0, m_block_id = [], m_merger_id = [], m_chain_id = [], m_height = 0,
     m_tx_root = [], m_prev_block_hash = [], m_block_hash = [], m_prev_block_id = [], m_signature = [],
     m_transactions = [], m_merkle_tree_node = [], m_ssigs = [], m_user_certs = Map.empty, m_block_raw = []\<rparr>"

definition block_eq :: "Block \<Rightarrow> Block \<Rightarrow> bool" where
  "block_eq b other \<longleftrightarrow> m_height b = m_height other \<and> m_block_hash b = m_block_hash other"

definition calcMerkleTreeNode :: "ext \<Rightarrow> Transaction list \<Rightarrow> hash_t list" where
  "calcMerkleTreeNode E txs = generate E (map (getDigest E) txs) (new_tree MAX_MERKLE_LEAVES)"

text \<open>A later transaction does not replace a certificate of an earlier one.\<close>

fun extractUserCertsIf :: "Transaction list \<Rightarrow> (string \<rightharpoonup> string) option" where
  "extractUserCertsIf [] = Some Map.empty"
| "extractUserCertsIf (tx # txs) = do {
     certs \<leftarrow> getCertsIf tx;
     rest \<leftarrow> extractUserCertsIf txs;
     Some (rest ++ certs) }"

definition initialize_info :: "ext \<Rightarrow> BasicBlockInfo \<Rightarrow> hash_t list \<Rightarrow> Block \<Rightarrow> Block option" where
  "initialize_info E basic_info merkle_Tree_node b = do {
     certs \<leftarrow> extractUserCertsIf (bi_transactions basic_info);
     Some (b\<lparr>m_time := bi_time basic_info, m_merger_id := bi_merger_id basic_info,
             m_chain_id := bi_chain_id basic_info, m_height := bi_height basic_info,
             m_tx_root := bi_transaction_root basic_info, m_transactions := bi_transactions basic_info,
             m_merkle_tree_node := (if merkle_Tree_node = [] then calcMerkleTreeNode E (bi_transactions basic_info)
                                    else merkle_Tree_node),
             m_user_certs := certs\<rparr>) }"

text \<open>
  The four length bytes are combined as \<open>int\<close>, so that a first byte above 127 gives a negative
  number, which the cast to \<open>size_t\<close> makes larger than any block.
\<close>

definition getHeaderEnd :: "bytes \<Rightarrow> nat" where
  "getHeaderEnd raw =
     (if length raw \<le> 5 then 0
      else let header_end = unat (word_of_int (sint (word_of_nat (be_nat (take 4 (drop 1 raw))) :: u32)) :: u64)
           in if length raw \<le> header_end then 0 else header_end)"

definition getBlockMetaHeaderRaw :: "bytes \<Rightarrow> bytes" where
  "getBlockMetaHeaderRaw raw = (let header_end = getHeaderEnd raw in if header_end = 0 then [] else take header_end raw)"

definition getBlockSignature :: "bytes \<Rightarrow> bytes" where
  "getBlockSignature raw = (let header_end = getHeaderEnd raw in if header_end = 0 then [] else drop header_end raw)"

text \<open>A header length below 5 makes the iterator range of the string constructor negative, which
  throws.\<close>

definition getBlockHeader :: "ext \<Rightarrow> bytes \<Rightarrow> json option" where
  "getBlockHeader E raw =
     (if raw = [] then Some (JObj [])
      else let header_end = getHeaderEnd raw
           in if header_end = 0 then Some (JObj [])
              else if header_end < 5 then None
              else let block_header_comp = drop 5 (take header_end raw)
                   in case comp_of_byte (raw ! 0) of
                        COMP_LZ4 \<Rightarrow> Some (parseJson E (bytesToString (decompressData E block_header_comp)))
                      | COMP_MessagePack \<Rightarrow> Some (case from_msgpack E block_header_comp of Some j \<Rightarrow> j | None \<Rightarrow> JNull)
                      | COMP_CBOR \<Rightarrow> Some (case from_cbor E block_header_comp of Some j \<Rightarrow> j | None \<Rightarrow> JNull)
                      | COMP_NONE \<Rightarrow> Some (parseJson E (bytesToString block_header_comp))
                      | COMP_RAW _ \<Rightarrow> Some JNull)"

definition setSupportSignaturesFromJson :: "ext \<Rightarrow> json \<Rightarrow> Block \<Rightarrow> bool \<times> Block" where
  "setSupportSignaturesFromJson E ssigs b =
     (if \<not> is_array ssigs then (False, b)
      else (True, b\<lparr>m_ssigs := map (\<lambda>each_ssig.
             \<lparr>sig_signer_id = getBytesFromB64 E each_ssig ''sID'',
              sig_signer_signature = getBytesFromB64 E each_ssig ''sig'', sig_height = 0\<rparr>) (json_elems ssigs)\<rparr>))"

definition setSupportSignatures :: "Signature list \<Rightarrow> Block \<Rightarrow> bool \<times> Block" where
  "setSupportSignatures ssigs b = (if ssigs = [] then (False, b) else (True, b\<lparr>m_ssigs := ssigs\<rparr>))"

text \<open>The result of \<open>setJson\<close> is ignored: a transaction it refuses stays the default one.\<close>

fun read_transactions :: "ext \<Rightarrow> json list \<Rightarrow> Transaction list option" where
  "read_transactions E [] = Some []"
| "read_transactions E (j # js) = do {
     (_, tx) \<leftarrow> setJson E j new_transaction;
     rest \<leftarrow> read_transactions E js;
     Some (tx # rest) }"

definition setTransactions :: "ext \<Rightarrow> json \<Rightarrow> Block \<Rightarrow> (bool \<times> Block) option" where
  "setTransactions E txs_json b =
     (if \<not> is_array txs_json then Some (False, b)
      else do { txs \<leftarrow> read_transactions E (json_elems txs_json); Some (True, b\<lparr>m_transactions := txs\<rparr>) })"

text \<open>The members read from the header. \<open>mem\<close> is the uninitialised memory the chain id array is
  created on.\<close>

definition initialize_header :: "ext \<Rightarrow> bytes \<Rightarrow> json \<Rightarrow> Block \<Rightarrow> Block option" where
  "initialize_header E mem hdr b = do {
     ver \<leftarrow> getInt hdr ''ver'';
     time \<leftarrow> getTime hdr ''time'';
     hgt \<leftarrow> getInt hdr ''hgt'';
     Some (b\<lparr>m_version := ucast ver, m_time := time,
             m_merger_id := getBytesFromB64 E hdr ''mID'',
             m_chain_id := base64ToArray E CHAIN_ID_TYPE_SIZE mem (getStringK hdr ''cID''),
             m_height := hgt, m_tx_root := getBytesFromB64 E hdr ''txrt'',
             m_prev_block_hash := getBytesFromB64 E hdr ''prevH'',
             m_prev_block_id := getBytesFromB64 E hdr ''prevbID'',
             m_block_id := getBytesFromB64 E hdr ''bID''\<rparr>) }"

definition initialize_raw :: "ext \<Rightarrow> bytes \<Rightarrow> bytes \<Rightarrow> json \<Rightarrow> Block \<Rightarrow> (bool \<times> Block) option" where
  "initialize_raw E mem block_raw_bytes block_txs b =
     (if block_raw_bytes = [] then Some (False, b)
      else do {
        hdr \<leftarrow> getBlockHeader E block_raw_bytes;
        if json_empty hdr then Some (False, b)
        else do {
          b1 \<leftarrow> initialize_header E mem hdr b;
          ssig \<leftarrow> json_at hdr ''SSig'';
          let (ok, b2) = setSupportSignaturesFromJson E ssig b1;
          if \<not> ok then Some (False, b2)
          else do {
            (ok, b3) \<leftarrow> setTransactions E block_txs b2;
            if \<not> ok then Some (False, b3)
            else do {
              certs \<leftarrow> extractUserCertsIf (m_transactions b3);
              Some (True, b3\<lparr>m_merkle_tree_node := calcMerkleTreeNode E (m_transactions b3),
                             m_user_certs := certs, m_block_raw := block_raw_bytes,
                             m_block_hash := sha256 E block_raw_bytes,
                             m_signature := getBlockSignature block_raw_bytes\<rparr>) } } } })"

definition initialize_stored :: "ext \<Rightarrow> bytes \<Rightarrow> storage_block_type \<Rightarrow> Block \<Rightarrow> (bool \<times> Block) option" where
  "initialize_stored E mem read_block b = initialize_raw E mem (sb_block_raw read_block) (sb_txs read_block) b"

definition initialize_msg :: "ext \<Rightarrow> bytes \<Rightarrow> json \<Rightarrow> Block \<Rightarrow> (bool \<times> Block) option" where
  "initialize_msg E mem msg_body b = do {
     txs \<leftarrow> json_at msg_body ''tx'';
     initialize_raw E mem (getBytesFromB64 E msg_body ''blockraw'') txs b }"

definition linkPreviousBlock :: "ext \<Rightarrow> string \<Rightarrow> string \<Rightarrow> Block \<Rightarrow> Block" where
  "linkPreviousBlock E last_id_b64 last_hash_b64 b =
     b\<lparr>m_version := DEFAULT_VERSION, m_prev_block_id := decodeBase64 E last_id_b64,
       m_prev_block_hash := decodeBase64 E last_hash_b64,
       m_block_id := sha256 E (getBytes (append_vec (m_merger_id b) (append_u64 (m_height b)
                       (append_vec (m_chain_id b) bb_new))))\<rparr>"

text \<open>\<open>push_back\<close> on a missing member makes it an array; without a transaction or a support signature
  the member is not there at all.\<close>

definition getBlockHeaderJson :: "ext \<Rightarrow> Block \<Rightarrow> json" where
  "getBlockHeaderJson E b = json_obj
     ([(''ver'', JStr (to_string (unat (m_version b)))),
       (''cID'', JStr (encodeBase64 E (m_chain_id b))),
       (''prevH'', JStr (encodeBase64 E (m_prev_block_hash b))),
       (''prevbID'', JStr (encodeBase64 E (m_prev_block_id b))),
       (''bID'', JStr (encodeBase64 E (m_block_id b))),
       (''time'', JStr (to_string (unat (m_time b)))),
       (''hgt'', JStr (to_string (unat (m_height b)))),
       (''txrt'', JStr (encodeBase64 E (m_tx_root b)))] @
      (if m_transactions b = [] then []
       else [(''txids'', JArr (map (\<lambda>tx. JStr (encodeBase64 E (m_transaction_id tx))) (m_transactions b)))]) @
      (if m_ssigs b = [] then []
       else [(''SSig'', JArr (map (\<lambda>s. json_obj [(''sID'', JStr (encodeBase64 E (sig_signer_id s))),
                                              (''sig'', JStr (encodeBase64 E (sig_signer_signature s)))]) (m_ssigs b)))]) @
      [(''mID'', JStr (encodeBase64 E (m_merger_id b)))])"

definition getBlockTXsAsJson :: "ext \<Rightarrow> Block \<Rightarrow> json" where
  "getBlockTXsAsJson E b = JArr (map (tx_getJson E) (m_transactions b))"

text \<open>\<open>m_merkle_tree_node[i]\<close> is past the end when there are more transactions than nodes.\<close>

definition getBlockBodyJson :: "ext \<Rightarrow> Block \<Rightarrow> json option" where
  "getBlockBodyJson E b =
     (if length (m_merkle_tree_node b) < length (m_transactions b) then None
      else Some (json_obj
        [(''mtree'', JArr (map (\<lambda>h. JStr (encodeBase64 E h)) (take (length (m_transactions b)) (m_merkle_tree_node b)))),
         (''txCnt'', JStr (to_string (length (m_transactions b)))),
         (''tx'', getBlockTXsAsJson E b)]))"

definition DEFAULT_BLOCKRAW_COMP_ALGO :: CompressionAlgorithmType where
  "DEFAULT_BLOCKRAW_COMP_ALGO = COMP_LZ4"

definition generateMetaWithCompHeader :: "ext \<Rightarrow> Block \<Rightarrow> bytes" where
  "generateMetaWithCompHeader E b =
     (let block_header = getBlockHeaderJson E b;
          compressed_json =
            (case DEFAULT_BLOCKRAW_COMP_ALGO of
               COMP_LZ4 \<Rightarrow> compressData E (stringToBytes (json_dump E block_header))
             | COMP_MessagePack \<Rightarrow> to_msgpack E block_header
             | COMP_CBOR \<Rightarrow> to_cbor E block_header
             | _ \<Rightarrow> stringToBytes (json_dump E block_header));
          header_end = word_of_nat (length compressed_json + 5) :: u32
      in getBytes (append_vec compressed_json (append_u32_n header_end 4
           (append_byte (comp_to_byte DEFAULT_BLOCKRAW_COMP_ALGO) bb_new))))"

definition finalize :: "ext \<Rightarrow> string \<Rightarrow> string \<Rightarrow> Block \<Rightarrow> Block" where
  "finalize E ecdsa_sk ecdsa_sk_pass b =
     (let block_meta_comp_header = generateMetaWithCompHeader E b;
          sig = doSign E ecdsa_sk block_meta_comp_header ecdsa_sk_pass;
          raw = getBytes (append_vec sig (append_vec block_meta_comp_header bb_new))
      in b\<lparr>m_signature := sig, m_block_raw := raw, m_block_hash := sha256 E raw\<rparr>)"

definition getTxIds :: "Block \<Rightarrow> tx_id_type list" where
  "getTxIds b = map m_transaction_id (m_transactions b)"

definition getSupportSigMessageCommon :: "Block \<Rightarrow> bytes" where
  "getSupportSigMessageCommon b =
     getBytes (append_vec (m_tx_root b) (append_u64 (m_height b) (append_vec (m_chain_id b)
       (append_vec (m_merger_id b) (append_u64 (m_time b) bb_new)))))"

text \<open>A certificate carried by the block itself is preferred to one of the ledger, whose lookup may throw.\<close>

fun check_ssigs :: "ext \<Rightarrow> (string \<Rightarrow> timestamp_t \<Rightarrow> string option) \<Rightarrow> bytes \<Rightarrow> Block \<Rightarrow> Signature list \<Rightarrow> bool option" where
  "check_ssigs E get_user_cert common b [] = Some True"
| "check_ssigs E get_user_cert common b (ssig # rest) = do {
     let msg = getBytes (append_vec common (append_vec (sig_signer_id ssig) bb_new));
     let user_id_b64 = encodeBase64 E (sig_signer_id ssig);
     user_pk_pem \<leftarrow> (case m_user_certs b user_id_b64 of Some c \<Rightarrow> Some c | None \<Rightarrow> get_user_cert user_id_b64 (m_time b));
     if user_pk_pem = [] then Some False
     else if \<not> doVerify E user_pk_pem msg (sig_signer_signature ssig) then Some False
     else check_ssigs E get_user_cert common b rest }"

definition isValidLate :: "ext \<Rightarrow> (string \<Rightarrow> timestamp_t \<Rightarrow> string option) \<Rightarrow> Block \<Rightarrow> bool option" where
  "isValidLate E get_user_cert b = check_ssigs E get_user_cert (getSupportSigMessageCommon b) b (m_ssigs b)"

fun check_txs :: "ext \<Rightarrow> (id_type \<Rightarrow> string) \<Rightarrow> Transaction list \<Rightarrow> bool" where
  "check_txs E get_cert [] = True"
| "check_txs E get_cert (tx # txs) =
     (if \<not> tx_isValid E (get_cert (m_requestor_id tx)) tx then False else check_txs E get_cert txs)"

text \<open>\<open>back()\<close> of an empty vector of nodes is undefined; \<open>initialize\<close> always fills it.\<close>

definition isValidEarly :: "ext \<Rightarrow> (id_type \<Rightarrow> string) \<Rightarrow> Block \<Rightarrow> bool option" where
  "isValidEarly E get_cert b =
     (if m_block_raw b = [] \<or> m_signature b = [] then Some False
      else if m_merkle_tree_node b = [] then None
      else if m_tx_root b \<noteq> last (m_merkle_tree_node b) then Some False
      else if \<not> check_txs E get_cert (m_transactions b) then Some False
      else let merger_pk_cert = get_cert (m_merger_id b)
           in if merger_pk_cert = [] then Some False
              else Some (doVerify E merger_pk_cert (getBlockMetaHeaderRaw (m_block_raw b)) (m_signature b)))"

definition serialize :: "ext \<Rightarrow> Block \<Rightarrow> string option" where
  "serialize E b = do {
     body \<leftarrow> getBlockBodyJson E b;
     Some (bytesToString (to_cbor E (case body of
        JObj kvs \<Rightarrow> JObj (ins_member ''blockraw'' (JStr (encodeBase64 E (m_block_raw b))) kvs)
      | j \<Rightarrow> j))) }"

text \<open>
  A JSON exception is caught and gives false; those of \<open>stoll\<close> are not JSON exceptions. Inside
  \<open>initialize\<close> the only JSON exception is that of \<open>block_header_json["SSig"]\<close> on a header that is not an
  object; the members of the block read before it have then been set.
\<close>

definition deserialize :: "ext \<Rightarrow> bytes \<Rightarrow> string \<Rightarrow> Block \<Rightarrow> (bool \<times> Block) option" where
  "deserialize E mem serialized_block b =
     (case from_cbor E (stringToBytes serialized_block) of
        None \<Rightarrow> Some (False, b)
      | Some block_body \<Rightarrow>
          let block_raw = getBytesFromB64 E block_body ''blockraw''
          in case json_at block_body ''tx'' of
               None \<Rightarrow> Some (False, b)
             | Some txs \<Rightarrow>
                 (case getBlockHeader E block_raw of
                    Some hdr \<Rightarrow>
                      if \<not> json_empty hdr \<and> json_at hdr ''SSig'' = None
                      then map_option (Pair False) (initialize_header E mem hdr b)
                      else initialize_raw E mem block_raw txs b
                  | None \<Rightarrow> initialize_raw E mem block_raw txs b))"

section \<open>The raw form\<close>

definition header_comp :: "ext \<Rightarrow> Block \<Rightarrow> bytes" where
  "header_comp E b = compressData E (stringToBytes (json_dump E (getBlockHeaderJson E b)))"

lemma generateMeta_eq:
  "generateMetaWithCompHeader E b =
     4 # be_bytes 4 (ucast (word_of_nat (length (header_comp E b) + 5) :: u32)) @ header_comp E b"
  by (simp add: generateMetaWithCompHeader_def header_comp_def DEFAULT_BLOCKRAW_COMP_ALGO_def Let_def builder_simps)

text \<open>The header length fits the positive half of the four length bytes, and the header compresses
  by at most the factor three that \<open>decompressData\<close> allows for.\<close>

definition header_fits :: "ext \<Rightarrow> Block \<Rightarrow> bool" where
  "header_fits E b \<longleftrightarrow> length (header_comp E b) + 5 < 2 ^ 31 \<and>
     length (json_dump E (getBlockHeaderJson E b)) \<le> 3 * length (header_comp E b)"

lemma u32_of_small_nat:
  assumes "n < 2 ^ 31"
  shows "be_nat (be_bytes 4 (ucast (word_of_nat n :: u32))) = n"
    and "unat (word_of_int (sint (word_of_nat n :: u32)) :: u64) = n"
proof -
  have u: "unat (word_of_nat n :: u32) = n" using assms by (simp add: unat_of_nat take_bit_nat_eq_self)
  then show "be_nat (be_bytes 4 (ucast (word_of_nat n :: u32))) = n"
    using assms by (simp add: be_nat_be_bytes unsigned_ucast_eq take_bit_nat_eq_self)
  have "sint (word_of_nat n :: u32) = int n"
    using assms by (simp add: sint_uint uint_nat u signed_take_bit_int_eq_self)
  then show "unat (word_of_int (sint (word_of_nat n :: u32)) :: u64) = n"
    using assms by (simp add: unat_of_nat take_bit_nat_eq_self)
qed

lemma getHeaderEnd_meta:
  assumes "length (header_comp E b) + 5 < 2 ^ 31" "sig \<noteq> []"
  shows "getHeaderEnd (generateMetaWithCompHeader E b @ sig) = length (header_comp E b) + 5"
  using assms u32_of_small_nat [OF assms(1)] by (simp add: getHeaderEnd_def generateMeta_eq Let_def)

lemma raw_split:
  assumes "length (header_comp E b) + 5 < 2 ^ 31" "sig \<noteq> []"
  shows "getBlockMetaHeaderRaw (generateMetaWithCompHeader E b @ sig) = generateMetaWithCompHeader E b"
    and "getBlockSignature (generateMetaWithCompHeader E b @ sig) = sig"
  using getHeaderEnd_meta [OF assms]
  by (simp_all add: getBlockMetaHeaderRaw_def getBlockSignature_def Let_def) (simp_all add: generateMeta_eq)

lemma getBlockHeader_meta:
  assumes "header_fits E b" "sig \<noteq> []" "lz4_law E" "dump_law E"
  shows "getBlockHeader E (generateMetaWithCompHeader E b @ sig) = Some (getBlockHeaderJson E b)"
proof -
  have "drop 5 (take (length (header_comp E b) + 5) (generateMetaWithCompHeader E b @ sig)) = header_comp E b"
    by (simp add: generateMeta_eq drop_take drop_Cons')
  moreover have "decompressData E (header_comp E b) = stringToBytes (json_dump E (getBlockHeaderJson E b))"
    using assms(1) unfolding header_comp_def header_fits_def
    by (intro decompress_compress [OF assms(3)]) (simp add: stringToBytes_def)
  moreover have "(generateMetaWithCompHeader E b @ sig) ! 0 = 4" by (simp add: generateMeta_eq)
  moreover have "generateMetaWithCompHeader E b @ sig \<noteq> []" by (simp add: generateMeta_eq)
  ultimately show ?thesis
    using getHeaderEnd_meta [of E b sig] assms
    by (simp add: getBlockHeader_def Let_def comp_of_byte_def comp_codes_def parseJson_def dump_law_def header_fits_def)
qed

lemma finalize_raw:
  "m_block_raw (finalize E sk pass b) =
     generateMetaWithCompHeader E b @ doSign E sk (generateMetaWithCompHeader E b) pass"
  by (simp add: finalize_def Let_def builder_simps)

section \<open>Reading a finalised block\<close>

text \<open>A block as the generator completes it before \<open>finalize\<close>.\<close>

definition block_ok :: "ext \<Rightarrow> Block \<Rightarrow> bool" where
  "block_ok E b \<longleftrightarrow>
     unat (m_time b) < 2 ^ 63 \<and> unat (m_height b) < 2 ^ 63 \<and> length (m_chain_id b) = CHAIN_ID_TYPE_SIZE \<and>
     m_ssigs b \<noteq> [] \<and> (\<forall>s \<in> set (m_ssigs b). sig_height s = 0) \<and>
     (\<forall>tx \<in> set (m_transactions b). tx_ok tx) \<and>
     m_merkle_tree_node b = calcMerkleTreeNode E (m_transactions b) \<and>
     extractUserCertsIf (m_transactions b) = Some (m_user_certs b) \<and>
     header_fits E b"

lemma header_members:
  "getStringK (getBlockHeaderJson E b) ''ver'' = to_string (unat (m_version b))"
  "getStringK (getBlockHeaderJson E b) ''cID'' = encodeBase64 E (m_chain_id b)"
  "getStringK (getBlockHeaderJson E b) ''prevH'' = encodeBase64 E (m_prev_block_hash b)"
  "getStringK (getBlockHeaderJson E b) ''prevbID'' = encodeBase64 E (m_prev_block_id b)"
  "getStringK (getBlockHeaderJson E b) ''bID'' = encodeBase64 E (m_block_id b)"
  "getStringK (getBlockHeaderJson E b) ''time'' = to_string (unat (m_time b))"
  "getStringK (getBlockHeaderJson E b) ''hgt'' = to_string (unat (m_height b))"
  "getStringK (getBlockHeaderJson E b) ''txrt'' = encodeBase64 E (m_tx_root b)"
  "getStringK (getBlockHeaderJson E b) ''mID'' = encodeBase64 E (m_merger_id b)"
  by (simp_all add: getBlockHeaderJson_def)

lemma header_arrays:
  "m_ssigs b \<noteq> [] \<Longrightarrow> json_at (getBlockHeaderJson E b) ''SSig'' =
     Some (JArr (map (\<lambda>s. json_obj [(''sID'', JStr (encodeBase64 E (sig_signer_id s))),
                                 (''sig'', JStr (encodeBase64 E (sig_signer_signature s)))]) (m_ssigs b)))"
  "m_transactions b \<noteq> [] \<Longrightarrow> json_at (getBlockHeaderJson E b) ''txids'' =
     Some (JArr (map (\<lambda>tx. JStr (encodeBase64 E (m_transaction_id tx))) (m_transactions b)))"
  by (simp_all add: getBlockHeaderJson_def)

lemma fold_ins_nonempty: "acc \<noteq> [] \<Longrightarrow> fold (\<lambda>(k, v). ins_member k v) kvs acc \<noteq> []"
proof (induction kvs arbitrary: acc)
  case (Cons kv kvs)
  have "ins_member k v acc \<noteq> []" for k v by (cases acc) (auto split: if_splits)
  then show ?case by (cases kv) (simp add: Cons.IH)
qed simp

lemma json_empty_obj: "json_empty (json_obj kvs) \<longleftrightarrow> kvs = []"
proof (cases kvs)
  case (Cons kv rest)
  then show ?thesis using fold_ins_nonempty [of "[kv]" rest] by (cases kv) (simp add: json_obj_def)
qed (simp add: json_obj_def)

lemma header_not_empty: "\<not> json_empty (getBlockHeaderJson E b)"
  by (simp add: getBlockHeaderJson_def json_empty_obj)

lemma initialize_header_written:
  assumes "base64_law E" "unat (m_time b) < 2 ^ 63" "unat (m_height b) < 2 ^ 63"
    "length (m_chain_id b) = CHAIN_ID_TYPE_SIZE"
  shows "initialize_header E mem (getBlockHeaderJson E b) b0 =
    Some (b0\<lparr>m_version := m_version b, m_time := m_time b, m_merger_id := m_merger_id b, m_chain_id := m_chain_id b,
             m_height := m_height b, m_tx_root := m_tx_root b, m_prev_block_hash := m_prev_block_hash b,
             m_prev_block_id := m_prev_block_id b, m_block_id := m_block_id b\<rparr>)"
proof -
  have "unat (m_version b) < 2 ^ 32" using unsigned_less [of "m_version b"] by simp
  then have v: "getInt (getBlockHeaderJson E b) ''ver'' = Some (word_of_nat (unat (m_version b)))"
    using getInt_written [OF header_members(1)] by simp
  have t: "getTime (getBlockHeaderJson E b) ''time'' = Some (m_time b)"
    using getTime_written [OF header_members(6) assms(2)] by simp
  have h: "getInt (getBlockHeaderJson E b) ''hgt'' = Some (m_height b)"
    using getInt_written [OF header_members(7) assms(3)] by simp
  have c: "base64ToArray E CHAIN_ID_TYPE_SIZE mem (encodeBase64 E (m_chain_id b)) = m_chain_id b"
    using assms(4) by (simp add: base64ToArray_def decode_encode [OF assms(1)])
  have "ucast (word_of_nat (unat (m_version b)) :: u64) = m_version b"
    by (simp add: word_eq_iff_unsigned unsigned_ucast_eq take_bit_word_eq_self)
  then show ?thesis
    by (simp add: initialize_header_def v t h c header_members(2)
        getBytesFromB64_written [OF assms(1) header_members(3)] getBytesFromB64_written [OF assms(1) header_members(4)]
        getBytesFromB64_written [OF assms(1) header_members(5)] getBytesFromB64_written [OF assms(1) header_members(8)]
        getBytesFromB64_written [OF assms(1) header_members(9)])
qed

lemma ssigs_written:
  assumes "base64_law E" "\<forall>s \<in> set ssigs. sig_height s = 0"
  shows "map (\<lambda>each_ssig. \<lparr>sig_signer_id = getBytesFromB64 E each_ssig ''sID'',
      sig_signer_signature = getBytesFromB64 E each_ssig ''sig'', sig_height = 0\<rparr>)
    (map (\<lambda>s. json_obj [(''sID'', JStr (encodeBase64 E (sig_signer_id s))),
                    (''sig'', JStr (encodeBase64 E (sig_signer_signature s)))]) ssigs) = ssigs"
  using assms(2)
proof (induction ssigs)
  case (Cons s ssigs)
  let ?j = "json_obj [(''sID'', JStr (encodeBase64 E (sig_signer_id s))),
                    (''sig'', JStr (encodeBase64 E (sig_signer_signature s)))]"
  have "getBytesFromB64 E ?j ''sID'' = sig_signer_id s" "getBytesFromB64 E ?j ''sig'' = sig_signer_signature s"
    by (rule getBytesFromB64_written [OF assms(1)], simp)+
  with Cons show ?case by simp
qed simp

lemma read_transactions_written:
  assumes "base64_law E" "\<forall>tx \<in> set txs. tx_ok tx"
  shows "read_transactions E (map (tx_getJson E) txs) = Some txs"
  using assms(2) by (induction txs) (simp_all add: setJson_written [OF assms(1)])

lemma block_eqI:
  "m_version b = m_version b' \<Longrightarrow> m_time b = m_time b' \<Longrightarrow> m_block_id b = m_block_id b' \<Longrightarrow>
   m_merger_id b = m_merger_id b' \<Longrightarrow> m_chain_id b = m_chain_id b' \<Longrightarrow> m_height b = m_height b' \<Longrightarrow>
   m_tx_root b = m_tx_root b' \<Longrightarrow> m_prev_block_hash b = m_prev_block_hash b' \<Longrightarrow>
   m_block_hash b = m_block_hash b' \<Longrightarrow> m_prev_block_id b = m_prev_block_id b' \<Longrightarrow>
   m_signature b = m_signature b' \<Longrightarrow> m_transactions b = m_transactions b' \<Longrightarrow>
   m_merkle_tree_node b = m_merkle_tree_node b' \<Longrightarrow> m_ssigs b = m_ssigs b' \<Longrightarrow>
   m_user_certs b = m_user_certs b' \<Longrightarrow> m_block_raw b = m_block_raw b' \<Longrightarrow> b = (b' :: Block)"
  by (cases b; cases b') simp

text \<open>Parsing the raw form with the transactions gives the finalised block itself.\<close>

lemma initialize_finalized:
  assumes "block_ok E b" "base64_law E" "lz4_law E" "dump_law E"
    "doSign E sk (generateMetaWithCompHeader E b) pass \<noteq> []"
  shows "initialize_raw E mem (m_block_raw (finalize E sk pass b)) (getBlockTXsAsJson E b) b0 =
    Some (True, finalize E sk pass b)"
proof -
  let ?fb = "finalize E sk pass b"
  have ok: "unat (m_time b) < 2 ^ 63" "unat (m_height b) < 2 ^ 63" "length (m_chain_id b) = CHAIN_ID_TYPE_SIZE"
     "m_ssigs b \<noteq> []" "\<forall>s \<in> set (m_ssigs b). sig_height s = 0" "\<forall>tx \<in> set (m_transactions b). tx_ok tx"
     "m_merkle_tree_node b = calcMerkleTreeNode E (m_transactions b)"
     "extractUserCertsIf (m_transactions b) = Some (m_user_certs b)" "header_fits E b"
    using assms(1) unfolding block_ok_def by blast+
  note hdr = getBlockHeader_meta [OF ok(9) assms(5,3,4)]
  have raw: "m_block_raw ?fb \<noteq> []" by (simp add: finalize_raw generateMeta_eq)
  have sig: "getBlockSignature (m_block_raw ?fb) = m_signature ?fb"
    using raw_split(2) [of E b, OF _ assms(5)] ok(9)
    by (simp add: finalize_raw header_fits_def) (simp add: finalize_def Let_def)
  show ?thesis
    using raw sig hdr initialize_header_written [OF assms(2) ok(1-3)] header_arrays(1) [OF ok(4)]
      read_transactions_written [OF assms(2) ok(6)] ssigs_written [OF assms(2) ok(5)] ok(7,8)
    by (simp add: initialize_raw_def finalize_raw header_not_empty setSupportSignaturesFromJson_def
        setTransactions_def getBlockTXsAsJson_def del: map_map)
      (simp add: finalize_def Let_def builder_simps block_eqI)
qed

section \<open>Body, serialisation and storage\<close>

lemma json_obj_snoc: "json_obj (kvs @ [(k, v)]) = (case json_obj kvs of JObj ms \<Rightarrow> JObj (ins_member k v ms) | j \<Rightarrow> j)"
  by (simp add: json_obj_def)

lemma length_calcMerkleTreeNode [simp]: "length (calcMerkleTreeNode E txs) = 2 * MAX_MERKLE_LEAVES - 1"
  by (simp add: calcMerkleTreeNode_def generate_def length_new_tree)

text \<open>The first nodes of the tree are the digests of the transactions.\<close>

lemma take_merkle_leaves:
  assumes "length txs \<le> MAX_MERKLE_LEAVES"
  shows "take (length txs) (calcMerkleTreeNode E txs) = map (getDigest E) txs"
proof (rule nth_equalityI)
  fix i assume "i < length (take (length txs) (calcMerkleTreeNode E txs))"
  then have "i < length txs" "i < MAX_MERKLE_LEAVES" using assms by auto
  then show "take (length txs) (calcMerkleTreeNode E txs) ! i = map (getDigest E) txs ! i"
    by (simp add: calcMerkleTreeNode_def generate_def generate_n_leaf length_new_tree leaf_of_def)
qed (use assms in \<open>simp add: MAX_MERKLE_LEAVES_def\<close>)

lemma body_json:
  assumes "m_merkle_tree_node b = calcMerkleTreeNode E (m_transactions b)"
    "length (m_transactions b) \<le> MAX_MERKLE_LEAVES"
  shows "getBlockBodyJson E b = Some (json_obj
    [(''mtree'', JArr (map (\<lambda>h. JStr (encodeBase64 E h)) (map (getDigest E) (m_transactions b)))),
     (''txCnt'', JStr (to_string (length (m_transactions b)))),
     (''tx'', getBlockTXsAsJson E b)])"
  using assms take_merkle_leaves [OF assms(2), of E]
  by (simp add: getBlockBodyJson_def MAX_MERKLE_LEAVES_def del: map_map)

lemma finalize_fields [simp]:
  "m_transactions (finalize E sk pass b) = m_transactions b" "m_ssigs (finalize E sk pass b) = m_ssigs b"
  "m_merkle_tree_node (finalize E sk pass b) = m_merkle_tree_node b" "m_tx_root (finalize E sk pass b) = m_tx_root b"
  "m_height (finalize E sk pass b) = m_height b" "m_time (finalize E sk pass b) = m_time b"
  "m_merger_id (finalize E sk pass b) = m_merger_id b" "m_block_id (finalize E sk pass b) = m_block_id b"
  "m_prev_block_id (finalize E sk pass b) = m_prev_block_id b"
  "m_prev_block_hash (finalize E sk pass b) = m_prev_block_hash b"
  "getBlockTXsAsJson E' (finalize E sk pass b) = getBlockTXsAsJson E' b"
  "getBlockHeaderJson E' (finalize E sk pass b) = getBlockHeaderJson E' b"
  "getBlockBodyJson E' (finalize E sk pass b) = getBlockBodyJson E' b"
  "m_block_hash (finalize E sk pass b) = sha256 E (m_block_raw (finalize E sk pass b))"
  "m_signature (finalize E sk pass b) = doSign E sk (generateMetaWithCompHeader E b) pass"
  by (simp_all add: finalize_def Let_def getBlockTXsAsJson_def getBlockHeaderJson_def getBlockBodyJson_def)

lemma serialize_finalized:
  assumes "block_ok E b" "length (m_transactions b) \<le> MAX_MERKLE_LEAVES"
  shows "serialize E (finalize E sk pass b) = Some (bytesToString (to_cbor E (json_obj
    [(''mtree'', JArr (map (\<lambda>h. JStr (encodeBase64 E h)) (map (getDigest E) (m_transactions b)))),
     (''txCnt'', JStr (to_string (length (m_transactions b)))),
     (''tx'', getBlockTXsAsJson E b),
     (''blockraw'', JStr (encodeBase64 E (m_block_raw (finalize E sk pass b))))])))"
proof -
  have "m_merkle_tree_node b = calcMerkleTreeNode E (m_transactions b)" using assms(1) by (simp add: block_ok_def)
  from body_json [OF this assms(2)] show ?thesis
    using json_obj_snoc [of "[(''mtree'', JArr (map (\<lambda>h. JStr (encodeBase64 E h)) (map (getDigest E) (m_transactions b)))),
     (''txCnt'', JStr (to_string (length (m_transactions b)))), (''tx'', getBlockTXsAsJson E b)]"
     "''blockraw''" "JStr (encodeBase64 E (m_block_raw (finalize E sk pass b)))"]
    by (simp add: serialize_def)
qed

lemma block_json_written:
  assumes "block_ok E b" "base64_law E" "0 < m_height b" "m_transactions b \<noteq> []" "m_block_id b \<noteq> []"
    "distinct (getTxIds b)" "length (m_transactions b) \<le> MAX_MERKLE_LEAVES" "getBlockBodyJson E b = Some body"
  shows "block_json_ok (getBlockHeaderJson E b) body (unat (m_height b)) (unat (m_time b))
    (map (tx_getJson E) (m_transactions b))"
proof -
  have "distinct (map (\<lambda>tx. encodeBase64 E (m_transaction_id tx)) (m_transactions b))"
    using assms(6) base64_inj [OF assms(2)]
    by (simp add: getTxIds_def distinct_map inj_on_def encodeBase64_def)
  then have d: "distinct (map (\<lambda>tx. getStringK tx ''txid'') (map (tx_getJson E) (m_transactions b)))"
    by (simp add: comp_def getStringK_txid)
  have "json_at body ''tx'' = Some (getBlockTXsAsJson E b)"
    using assms(1,7,8) body_json [of b E] by (auto simp: block_ok_def)
  moreover have "encodeBase64 E (m_block_id b) \<noteq> []"
    using assms(5) base64_empty_iff [OF assms(2)] by (simp add: encodeBase64_def)
  ultimately show ?thesis
    using assms(1,3) d header_arrays(2) [OF assms(4), of E]
    by (simp add: block_json_ok_def block_ok_def header_members getBlockTXsAsJson_def getStringK_txid comp_def
        unat_gt_0 word_greater_zero_iff)
qed

lemma finalized_early:
  assumes "header_fits E b" "m_merkle_tree_node b \<noteq> []" "m_tx_root b = last (m_merkle_tree_node b)"
    "check_txs E get_cert (m_transactions b)" "key_pair E sk pass (get_cert (m_merger_id b))"
    "get_cert (m_merger_id b) \<noteq> []"
  shows "isValidEarly E get_cert (finalize E sk pass b) = Some True"
proof -
  let ?m = "generateMetaWithCompHeader E b"
  have sig: "doSign E sk ?m pass \<noteq> []" "doVerify E (get_cert (m_merger_id b)) ?m (doSign E sk ?m pass)"
    using doVerify_doSign [OF assms(5)] by simp_all
  have "getBlockMetaHeaderRaw (m_block_raw (finalize E sk pass b)) = ?m"
    using raw_split(1) [OF _ sig(1)] assms(1) by (simp add: finalize_raw header_fits_def)
  then show ?thesis
    using assms(2,3,4,6) sig by (simp add: isValidEarly_def finalize_raw)
qed

section \<open>Properties\<close>

text \<open>C24. A finalised block of the form the generator makes, whose header compresses by at most 3:1, parses back: \<open>initialize\<close> applied to its raw bytes and its transactions
  restores the whole block, down to hash, signature, Merkle tree and user certificates.\<close>

theorem initialize_finalize:
  assumes "block_ok E b" "base64_law E" "lz4_law E" "dump_law E" "key_pair E sk pass pk"
  shows "initialize_raw E mem (m_block_raw (finalize E sk pass b)) (getBlockTXsAsJson E b) b0 =
    Some (True, finalize E sk pass b)"
  by (rule initialize_finalized [OF assms(1-4) doVerify_doSign(2) [OF assms(5)]])

text \<open>\<open>deserialize\<close> inverts \<open>serialize\<close> on finalised blocks.\<close>

theorem deserialize_serialize:
  assumes "block_ok E b" "base64_law E" "lz4_law E" "dump_law E" "cbor_law E" "key_pair E sk pass pk"
    "length (m_transactions b) \<le> MAX_MERKLE_LEAVES"
  shows "\<exists>s. serialize E (finalize E sk pass b) = Some s \<and>
    deserialize E mem s b0 = Some (True, finalize E sk pass b)"
proof -
  let ?fb = "finalize E sk pass b"
  let ?j = "json_obj
    [(''mtree'', JArr (map (\<lambda>h. JStr (encodeBase64 E h)) (map (getDigest E) (m_transactions b)))),
     (''txCnt'', JStr (to_string (length (m_transactions b)))),
     (''tx'', getBlockTXsAsJson E b), (''blockraw'', JStr (encodeBase64 E (m_block_raw ?fb)))]"
  have raw: "getBytesFromB64 E ?j ''blockraw'' = m_block_raw ?fb"
    by (rule getBytesFromB64_written [OF assms(2)]) simp
  have sig: "doSign E sk (generateMetaWithCompHeader E b) pass \<noteq> []" by (rule doVerify_doSign(2) [OF assms(6)])
  have "header_fits E b" "m_ssigs b \<noteq> []" using assms(1) by (simp_all add: block_ok_def)
  then have hdr: "getBlockHeader E (m_block_raw ?fb) = Some (getBlockHeaderJson E b)"
    "json_at (getBlockHeaderJson E b) ''SSig'' \<noteq> None"
    using getBlockHeader_meta [OF _ sig assms(3,4)] header_arrays(1) [of b E] by (simp_all add: finalize_raw)
  have "json_at ?j ''tx'' = Some (getBlockTXsAsJson E b)" by simp
  then have "deserialize E mem (bytesToString (to_cbor E ?j)) b0 = Some (True, ?fb)"
    using assms(5) raw hdr initialize_finalized [OF assms(1-4) sig]
    by (simp add: deserialize_def cbor_law_def del: json_at_obj)
  with serialize_finalized [OF assms(1,7)] show ?thesis by blast
qed

text \<open>C25. A block whose root is that of its Merkle tree and whose transactions are valid passes
  \<open>isValidEarly\<close> after it was finalised with the key of its merger.\<close>

theorem finalized_block_valid:
  assumes "header_fits E b" "m_merkle_tree_node b \<noteq> []" "m_tx_root b = last (m_merkle_tree_node b)"
    "check_txs E get_cert (m_transactions b)" "key_pair E sk pass (get_cert (m_merger_id b))"
    "get_cert (m_merger_id b) \<noteq> []"
  shows "isValidEarly E get_cert (finalize E sk pass b) = Some True"
  using assms by (rule finalized_early)

text \<open>C8. A finalised block of the form the generator makes, whose header compresses by at most 3:1, can be saved, and is then restored from the storage: reading its height
  and initialising a block with the result gives the same block again.\<close>

theorem saved_block_restored:
  assumes "block_ok E b" "base64_law E" "lz4_law E" "dump_law E" "cbor_law E" "key_pair E sk pass pk"
    "0 < m_height b" "m_transactions b \<noteq> []" "m_block_id b \<noteq> []" "distinct (getTxIds b)"
    "length (m_transactions b) \<le> MAX_MERKLE_LEAVES" "getBlockBodyJson E b = Some body"
    "getNthBlockLinkInfo E 0 st = Some l"
  shows "\<exists>st' rb.
    saveBlock E (m_block_raw (finalize E sk pass b)) (getBlockHeaderJson E b) body st = Some (True, st') \<and>
    readBlock E (m_height b) st' = Some rb \<and> sb_hash rb = m_block_hash (finalize E sk pass b) \<and>
    initialize_stored E mem rb b0 = Some (True, finalize E sk pass b)"
proof -
  note written = block_json_written [OF assms(1,2,7-12)]
  have "m_ssigs b \<noteq> []" "m_merkle_tree_node b = calcMerkleTreeNode E (m_transactions b)"
    using assms(1) by (simp_all add: block_ok_def)
  then obtain ssigs mtree where "json_at (getBlockHeaderJson E b) ''SSig'' = Some (JArr ssigs)"
    "json_at body ''mtree'' = Some mtree"
    using header_arrays(1) body_json [OF _ assms(11)] assms(12) by auto
  from saveBlock_succeeds [OF written this assms(13)] obtain st' where
    st': "saveBlock E (m_block_raw (finalize E sk pass b)) (getBlockHeaderJson E b) body st = Some (True, st')" by blast
  show ?thesis
    using st' readBlock_saved [OF st' written assms(5,4)]
      initialize_finalized [OF assms(1-4) doVerify_doSign(2) [OF assms(6)]]
    by (simp add: initialize_stored_def getBlockTXsAsJson_def)
qed

text \<open>Every transaction of a saved block has a proof that the storage gives out, that starts with the digest
  of this transaction and that is accepted against the transaction root in the block.\<close>

theorem saved_block_proofs:
  assumes "block_ok E b" "base64_law E" "dump_law E" "sha_law E" "lookup_law E"
    "0 < m_height b" "m_transactions b \<noteq> []" "m_block_id b \<noteq> []" "distinct (getTxIds b)"
    "length (m_transactions b) \<le> MAX_MERKLE_LEAVES" "getBlockBodyJson E b = Some body"
    "m_tx_root b = last (m_merkle_tree_node b)"
    "saveBlock E raw (getBlockHeaderJson E b) body st = Some (True, st')" "tx \<in> set (m_transactions b)"
  shows "\<exists>p. getProof E (getIdB64 E tx) st' = Some p \<and> snd (siblings p ! 0) = encodeBase64 E (getDigest E tx) \<and>
    isValidSiblings_proof E p (encodeBase64 E (m_tx_root b)) = Some True"
proof -
  let ?ds = "map (getDigest E) (m_transactions b)"
  obtain n where n: "n < length (m_transactions b)" "tx = m_transactions b ! n"
    using assms(14) by (metis in_set_conv_nth)
  have nodes: "m_merkle_tree_node b = calcMerkleTreeNode E (m_transactions b)" using assms(1) by (simp add: block_ok_def)
  then have mt: "json_at body ''mtree'' = Some (JArr (map (\<lambda>d. JStr (encodeBase64 E d)) ?ds))"
    using body_json [OF _ assms(10)] assms(11) by auto
  have len: "length ?ds = length (map (tx_getJson E) (m_transactions b))"
    "length (map (tx_getJson E) (m_transactions b)) \<le> MAX_MERKLE_LEAVES"
    "\<forall>d \<in> set ?ds. length d = 32" "n < length (map (tx_getJson E) (m_transactions b))"
    using assms(4,10) n by (auto simp: sha_law_def getDigest_def)
  obtain p where p: "getProof E (getIdB64 E tx) st' = Some p"
    "isValidSiblings E (siblings p) (encodeBase64 E (?ds ! n)) (encodeBase64 E (m_tx_root b))"
    using getProof_saved [OF assms(13) block_json_written [OF assms(1,2,6-11)] mt len(1-3) assms(2-5) len(4)] n nodes assms(12)
    by (auto simp: getStringK_txid getIdB64_def calcMerkleTreeNode_def)
  then have "siblings p \<noteq> []" "snd (siblings p ! 0) = encodeBase64 E (?ds ! n)"
    by (auto simp: isValidSiblings_def split: if_splits)
  with p n show ?thesis by (simp add: isValidSiblings_proof_def)
qed

section \<open>Witnesses\<close>

definition blk_pre :: Block where
  "blk_pre = \<lparr>m_version = 1, m_time = 1000, m_block_id = [1], m_merger_id = [2], m_chain_id = replicate 8 3, m_height = 1,
     m_tx_root = last (calcMerkleTreeNode ext0 [tx_a]), m_prev_block_hash = [4], m_block_hash = [], m_prev_block_id = [5],
     m_signature = [], m_transactions = [tx_a], m_merkle_tree_node = calcMerkleTreeNode ext0 [tx_a],
     m_ssigs = [\<lparr>sig_signer_id = [6], sig_signer_signature = [7], sig_height = 0\<rparr>],
     m_user_certs = Map.empty, m_block_raw = []\<rparr>"

text \<open>The instance whose serialiser is short on the header of this block.\<close>

definition ext1 :: ext where
  "ext1 = ext_for (getBlockHeaderJson ext0 blk_pre)"

lemma ext1_laws: "base64_law ext1" "cbor_law ext1" "dump_law ext1" "sha_law ext1" "lz4_law ext1" "lookup_law ext1"
  "pk \<noteq> [] \<Longrightarrow> key_pair ext1 pk pass pk"
  unfolding ext1_def by (rule ext_for_laws; assumption?)+

lemma ext1_same: "calcMerkleTreeNode ext1 txs = calcMerkleTreeNode ext0 txs" "getBlockHeaderJson ext1 b = getBlockHeaderJson ext0 b"
proof -
  have "getDigest (ext_for j) = getDigest ext0" for j by (simp add: fun_eq_iff getDigest_def ext_for_same)
  then have *: "calcMerkleTreeNode (ext_for j) txs = calcMerkleTreeNode ext0 txs" for j
    by (simp add: calcMerkleTreeNode_def generate_ext_for)
  have "getBlockHeaderJson (ext_for j) b = getBlockHeaderJson ext0 b" for j
    unfolding getBlockHeaderJson_def ext_for_same ..
  then show "calcMerkleTreeNode ext1 txs = calcMerkleTreeNode ext0 txs" "getBlockHeaderJson ext1 b = getBlockHeaderJson ext0 b"
    using * by (simp_all add: ext1_def)
qed

lemma blk_pre_ok: "block_ok ext1 blk_pre"
proof -
  have "length (header_comp ext1 blk_pre) = 1" "length (json_dump ext1 (getBlockHeaderJson ext0 blk_pre)) = 1"
    by (simp_all add: header_comp_def compressData_def ext1_same stringToBytes_def)
      (simp_all add: ext1_def ext_for_def ext0_def)
  then have "header_fits ext1 blk_pre" by (simp add: header_fits_def ext1_same)
  then show ?thesis
    using tx_a_ok by (simp add: block_ok_def ext1_same) (simp add: blk_pre_def CHAIN_ID_TYPE_SIZE_def getCertsIf_def)
qed

lemma blk_pre_side:
  "0 < m_height blk_pre" "m_transactions blk_pre \<noteq> []" "m_block_id blk_pre \<noteq> []" "distinct (getTxIds blk_pre)"
  "length (m_transactions blk_pre) \<le> MAX_MERKLE_LEAVES" "tx_a \<in> set (m_transactions blk_pre)"
  "m_tx_root blk_pre = last (m_merkle_tree_node blk_pre)" "m_merger_id blk_pre = [2]" "m_transactions blk_pre = [tx_a]"
  by (simp_all add: blk_pre_def getTxIds_def MAX_MERKLE_LEAVES_def)

lemma blk_pre_body: "\<exists>body. getBlockBodyJson ext1 blk_pre = Some body"
  using body_json [of blk_pre ext1] blk_pre_ok blk_pre_side(5) by (simp add: block_ok_def)

lemma link1: "\<exists>l. getNthBlockLinkInfo ext1 0 new_storage = Some l"
  by (simp add: getNthBlockLinkInfo_def getValueByKey_def new_storage_def)

theorem initialize_finalize_witness:
  "initialize_raw ext1 [] (m_block_raw (finalize ext1 ''key'' [] blk_pre)) (getBlockTXsAsJson ext1 blk_pre) new_block =
    Some (True, finalize ext1 ''key'' [] blk_pre)"
  by (rule initialize_finalize [OF blk_pre_ok ext1_laws(1,5,3) ext1_laws(7)]) simp

theorem deserialize_serialize_witness:
  "\<exists>s. serialize ext1 (finalize ext1 ''key'' [] blk_pre) = Some s \<and>
    deserialize ext1 [] s new_block = Some (True, finalize ext1 ''key'' [] blk_pre)"
  by (rule deserialize_serialize [OF blk_pre_ok ext1_laws(1,5,3,2) ext1_laws(7) blk_pre_side(5)]) simp

lemma blk_pre_checks: "header_fits ext1 blk_pre" "m_merkle_tree_node blk_pre \<noteq> []" "check_txs ext1 (\<lambda>_. ''key'') (m_transactions blk_pre)"
proof -
  show "header_fits ext1 blk_pre" "m_merkle_tree_node blk_pre \<noteq> []"
    using blk_pre_ok length_calcMerkleTreeNode [of ext1 "m_transactions blk_pre"]
    by (auto simp: block_ok_def MAX_MERKLE_LEAVES_def simp del: length_calcMerkleTreeNode)
  have "tx_isValid ext0 ''key'' tx_a"
    unfolding tx_a_def by (rule fresh_transaction_valid [OF ext0_key_pair]) (simp_all add: genNewTxId_def)
  then show "check_txs ext1 (\<lambda>_. ''key'') (m_transactions blk_pre)"
    by (simp add: blk_pre_side(9) tx_isValid_def buildTxId_def doVerify_def ext1_def ext_for_same split: if_splits)
qed

theorem finalized_block_valid_witness:
  "isValidEarly ext1 (\<lambda>_. ''key'') (finalize ext1 ''key'' [] blk_pre) = Some True"
  by (rule finalized_block_valid [OF blk_pre_checks(1,2) _ blk_pre_checks(3)]) (simp_all add: blk_pre_side ext1_laws)

theorem saved_block_restored_witness:
  "\<exists>body st' rb. getBlockBodyJson ext1 blk_pre = Some body \<and>
    saveBlock ext1 (m_block_raw (finalize ext1 ''key'' [] blk_pre)) (getBlockHeaderJson ext1 blk_pre) body new_storage
      = Some (True, st') \<and>
    readBlock ext1 (m_height blk_pre) st' = Some rb \<and>
    initialize_stored ext1 [] rb new_block = Some (True, finalize ext1 ''key'' [] blk_pre)"
proof -
  obtain body l where b: "getBlockBodyJson ext1 blk_pre = Some body" "getNthBlockLinkInfo ext1 0 new_storage = Some l"
    using blk_pre_body link1 by blast
  have "key_pair ext1 ''key'' [] ''key''" by (simp add: ext1_laws)
  from saved_block_restored [OF blk_pre_ok ext1_laws(1,5,3,2) this blk_pre_side(1-5) b, of "[]" new_block] b
  show ?thesis by auto
qed

theorem saved_block_proofs_witness:
  "\<exists>body st' p. saveBlock ext1 [1] (getBlockHeaderJson ext1 blk_pre) body new_storage = Some (True, st') \<and>
    getProof ext1 (getIdB64 ext1 tx_a) st' = Some p \<and>
    isValidSiblings_proof ext1 p (encodeBase64 ext1 (m_tx_root blk_pre)) = Some True"
proof -
  obtain body l where b: "getBlockBodyJson ext1 blk_pre = Some body" "getNthBlockLinkInfo ext1 0 new_storage = Some l"
    using blk_pre_body link1 by blast
  have "m_ssigs blk_pre \<noteq> []" "m_merkle_tree_node blk_pre = calcMerkleTreeNode ext1 (m_transactions blk_pre)"
    using blk_pre_ok by (simp_all add: block_ok_def)
  then obtain ssigs mtree where "json_at (getBlockHeaderJson ext1 blk_pre) ''SSig'' = Some (JArr ssigs)"
    "json_at body ''mtree'' = Some mtree"
    using header_arrays(1) body_json [OF _ blk_pre_side(5)] b(1) by auto
  from saveBlock_succeeds [OF block_json_written [OF blk_pre_ok ext1_laws(1) blk_pre_side(1-5) b(1)] this b(2)]
  obtain st' where st': "saveBlock ext1 [1] (getBlockHeaderJson ext1 blk_pre) body new_storage = Some (True, st')" by blast
  from saved_block_proofs [OF blk_pre_ok ext1_laws(1,3,4,6) blk_pre_side(1-5) b(1) blk_pre_side(7) st' blk_pre_side(6)] st'
  show ?thesis by blast
qed

end
