(* ===== verification/Ledger.thy ===== *)
theory Ledger
  imports Block
begin

text \<open>
  The ledger layers: \<open>MemLedger\<close> (\<open>src/chain/mem_ledger.hpp\<close>) keeps the records of blocks that are
  not final yet, \<open>LayeredStorage\<close> (\<open>src/services/layered_storage.hpp\<close>) reads through a list of such
  blocks down to the storage, and the ledgers of \<open>src/ledger\<close> and \<open>CustomLedgerManager\<close> fill them.
  The lemmas show that moving the oldest layer to disk does not change what is read through the
  layers, and that a certificate registered in a block is the one \<open>getCertificate\<close> gives.
\<close>

section \<open>\<open>MemLedger\<close>\<close>

record LedgerRecord =
  rec_key :: string
  rec_value :: string
  rec_block_id_b64 :: string

type_synonym MemLedger = "LedgerRecord list"

definition ml_push :: "string \<Rightarrow> string \<Rightarrow> string \<Rightarrow> MemLedger \<Rightarrow> MemLedger" where
  "ml_push key value block_id_b64 l = l @ [\<lparr>rec_key = key, rec_value = value, rec_block_id_b64 = block_id_b64\<rparr>]"

definition ml_append :: "MemLedger \<Rightarrow> string \<Rightarrow> MemLedger \<Rightarrow> MemLedger" where
  "ml_append other_ledger prefix l =
     l @ (if prefix \<noteq> [] then map (\<lambda>r. r\<lparr>rec_key := prefix @ rec_key r\<rparr>) other_ledger else other_ledger)"

definition getVal :: "string \<Rightarrow> string \<Rightarrow> MemLedger \<Rightarrow> string option" where
  "getVal key block_id_b64 l =
     map_option rec_value (find (\<lambda>each. rec_key each = key \<and> rec_block_id_b64 each = block_id_b64) l)"

definition getKV :: "string \<Rightarrow> MemLedger \<Rightarrow> (string \<times> string) list" where
  "getKV block_id_b64 l = map (\<lambda>each. (rec_key each, rec_value each)) (filter (\<lambda>each. rec_block_id_b64 each = block_id_b64) l)"

definition dropKV :: "string \<Rightarrow> MemLedger \<Rightarrow> MemLedger" where
  "dropKV block_id_b64 l = filter (\<lambda>t. rec_block_id_b64 t \<noteq> block_id_b64) l"

section \<open>\<open>LayeredStorage\<close>\<close>

record LayeredStorage =
  m_storage :: Storage
  m_mem_ledger :: MemLedger
  m_block_layer :: block_layer_t

definition saveLedger_mem :: "MemLedger \<Rightarrow> string \<Rightarrow> LayeredStorage \<Rightarrow> LayeredStorage" where
  "saveLedger_mem mem_ledger prefix ls = ls\<lparr>m_mem_ledger := ml_append mem_ledger prefix (m_mem_ledger ls)\<rparr>"

definition ls_saveLedger :: "string \<Rightarrow> string \<Rightarrow> string \<Rightarrow> LayeredStorage \<Rightarrow> LayeredStorage" where
  "ls_saveLedger key value block_id_b64 ls =
     (if block_id_b64 = [] then ls\<lparr>m_storage := st_saveLedger key value (m_storage ls)\<rparr>
      else ls\<lparr>m_mem_ledger := ml_push key value block_id_b64 (m_mem_ledger ls)\<rparr>)"

definition setBlockLayer :: "block_layer_t \<Rightarrow> LayeredStorage \<Rightarrow> LayeredStorage" where
  "setBlockLayer block_layer ls = ls\<lparr>m_block_layer := block_layer\<rparr>"

fun read_layers :: "string \<Rightarrow> block_layer_t \<Rightarrow> MemLedger \<Rightarrow> string" where
  "read_layers key [] l = []"
| "read_layers key (each # rest) l = (case getVal key each l of Some v \<Rightarrow> v | None \<Rightarrow> read_layers key rest l)"

definition ls_readLedgerByKey :: "string \<Rightarrow> block_layer_t \<Rightarrow> LayeredStorage \<Rightarrow> string" where
  "ls_readLedgerByKey key block_layer ls =
     (let ret_val = (if block_layer = [] then read_layers key (m_block_layer ls) (m_mem_ledger ls)
                     else read_layers key block_layer (m_mem_ledger ls))
      in if ret_val = [] then st_readLedgerByKey key (m_storage ls) else ret_val)"

definition ls_flushLedger :: "LayeredStorage \<Rightarrow> LayeredStorage" where
  "ls_flushLedger ls = ls\<lparr>m_storage := st_flushLedger (m_storage ls)\<rparr>"

definition ls_clearLedger :: "LayeredStorage \<Rightarrow> LayeredStorage" where
  "ls_clearLedger ls = ls\<lparr>m_mem_ledger := []\<rparr>"

definition dropLedger :: "string \<Rightarrow> LayeredStorage \<Rightarrow> LayeredStorage" where
  "dropLedger block_id_b64 ls = ls\<lparr>m_mem_ledger := dropKV block_id_b64 (m_mem_ledger ls)\<rparr>"

definition moveToDiskLedger :: "string \<Rightarrow> LayeredStorage \<Rightarrow> LayeredStorage" where
  "moveToDiskLedger block_id_b64 ls =
     (let kv_vector = getKV block_id_b64 (m_mem_ledger ls);
          st = fold (\<lambda>(k, v). st_saveLedger k v) kv_vector (m_storage ls)
      in dropLedger block_id_b64 (ls\<lparr>m_storage := st_flushLedger st\<rparr>))"

section \<open>\<open>Ledger\<close> and its subclasses\<close>

text \<open>The base class prefixes keys: \<open>C\<close> for certificates, \<open>D\<close> for digests and \<open>S\<close> for messages.\<close>

definition ledger_save :: "string \<Rightarrow> string \<Rightarrow> string \<Rightarrow> string \<Rightarrow> LayeredStorage \<Rightarrow> LayeredStorage" where
  "ledger_save prefix key value block_id_b64 ls = ls_saveLedger (prefix @ key) value block_id_b64 ls"

definition ledger_save_mem :: "string \<Rightarrow> MemLedger \<Rightarrow> LayeredStorage \<Rightarrow> LayeredStorage" where
  "ledger_save_mem prefix ledger ls = ls_flushLedger (saveLedger_mem ledger prefix ls)"

definition ledger_read :: "string \<Rightarrow> string \<Rightarrow> LayeredStorage \<Rightarrow> string" where
  "ledger_read prefix key ls = ls_readLedgerByKey (prefix @ key) [] ls"

definition ledger_read_on_layer :: "string \<Rightarrow> string \<Rightarrow> block_layer_t \<Rightarrow> LayeredStorage \<Rightarrow> string" where
  "ledger_read_on_layer prefix key block_layer ls = ls_readLedgerByKey (prefix @ key) block_layer ls"

text \<open>\<open>std::to_string(int)\<close>.\<close>

definition int_to_string :: "int \<Rightarrow> string" where
  "int_to_string i = (if i < 0 then CHR ''-'' # to_string (nat (- i)) else to_string (nat i))"

text \<open>A certificate is stored with its validity period; one that does not parse gives the empty
  string, exceptions of any kind being swallowed.\<close>

definition parseCert :: "ext \<Rightarrow> string \<Rightarrow> string" where
  "parseCert E pem =
     (case x509_parse E pem of
        None \<Rightarrow> []
      | Some cert \<Rightarrow> json_dump E (JArr [JStr (to_string (unat (not_before cert))),
                                      JStr (to_string (unat (not_after cert))), JStr pem]))"

text \<open>The number of certificates of a user is kept under its id and the \<open>n\<close>-th one under the id
  followed by an underscore and \<open>n\<close>. The count is increased even when the certificate does not parse.\<close>

definition register_cert ::
  "ext \<Rightarrow> string \<Rightarrow> block_layer_t \<Rightarrow> string \<Rightarrow> string \<Rightarrow> LayeredStorage \<Rightarrow> LayeredStorage option" where
  "register_cert E block_id_b64 block_layer user_id_b64 pem ls =
     (let cert_idx = ledger_read_on_layer ''C'' user_id_b64 block_layer ls
      in do {
        value \<leftarrow> (if cert_idx = [] then Some ''1''
                 else do { n \<leftarrow> stoi cert_idx; if n + 1 < 2 ^ 31 then Some (int_to_string (n + 1)) else None });
        let ls1 = ledger_save ''C'' user_id_b64 value block_id_b64 ls;
        let key = user_id_b64 @ (if cert_idx = [] then ''_0'' else ''_'' @ cert_idx);
        let value = parseCert E pem;
        Some (if value = [] then ls1 else ledger_save ''C'' key value block_id_b64 ls1) })"

fun register_contents :: "ext \<Rightarrow> string \<Rightarrow> block_layer_t \<Rightarrow> json list \<Rightarrow> LayeredStorage \<Rightarrow> LayeredStorage option" where
  "register_contents E bid layer [] ls = Some ls"
| "register_contents E bid layer [u] ls =
     register_cert E bid layer (case get_string u of Some s \<Rightarrow> s | None \<Rightarrow> []) [] ls"
| "register_contents E bid layer (u # p # rest) ls = do {
     ls' \<leftarrow> register_cert E bid layer (case get_string u of Some s \<Rightarrow> s | None \<Rightarrow> [])
              (case get_string p of Some s \<Rightarrow> s | None \<Rightarrow> []) ls;
     register_contents E bid layer rest ls' }"

text \<open>The list is constant here, so a certificate transaction without a \<open>content\<close> member is undefined.\<close>

fun blockToLedger :: "ext \<Rightarrow> json list \<Rightarrow> string \<Rightarrow> block_layer_t \<Rightarrow> LayeredStorage \<Rightarrow> LayeredStorage option" where
  "blockToLedger E [] bid layer ls = Some ls"
| "blockToLedger E (tx_json # txs) bid layer ls =
     (if getStringK tx_json ''type'' \<noteq> TXTYPE_CERTIFICATES then blockToLedger E txs bid layer ls
      else do {
        content \<leftarrow> json_find tx_json ''content'';
        if \<not> is_array content then blockToLedger E txs bid layer ls
        else do {
          ls' \<leftarrow> register_contents E bid layer (json_elems content) ls;
          blockToLedger E txs bid layer ls' } })"

definition procBlock :: "ext \<Rightarrow> json \<Rightarrow> string \<Rightarrow> block_layer_t \<Rightarrow> LayeredStorage \<Rightarrow> (bool \<times> LayeredStorage) option" where
  "procBlock E txs_json block_id_b64 block_layer ls =
     (if \<not> is_array txs_json then Some (False, ls)
      else do { ls' \<leftarrow> blockToLedger E (json_elems txs_json) block_id_b64 block_layer ls; Some (True, ls') })"

text \<open>The digest and message ledgers keep nothing. The manager runs its registered ledgers in order.\<close>

type_synonym ledger_proc = "json \<Rightarrow> string \<Rightarrow> block_layer_t \<Rightarrow> LayeredStorage \<Rightarrow> (bool \<times> LayeredStorage) option"

definition digest_procBlock :: ledger_proc where
  "digest_procBlock txs_json block_id_b64 block_layer ls = Some (True, ls)"

definition sms_procBlock :: ledger_proc where
  "sms_procBlock txs_json block_id_b64 block_layer ls = Some (True, ls)"

definition m_ledgers :: "ext \<Rightarrow> ledger_proc list" where
  "m_ledgers E = [procBlock E, digest_procBlock, sms_procBlock]"

definition procLedgerBlock :: "ext \<Rightarrow> json \<Rightarrow> string \<Rightarrow> block_layer_t \<Rightarrow> LayeredStorage \<Rightarrow> LayeredStorage option" where
  "procLedgerBlock E txs_json block_id_b64 block_layer ls =
     fold_opt (\<lambda>ledger ls. map_option snd (ledger txs_json block_id_b64 block_layer ls)) (m_ledgers E) ls"

lemma procLedgerBlock_certificates:
  "procLedgerBlock E txs_json bid layer ls = map_option snd (procBlock E txs_json bid layer ls)"
  by (cases "procBlock E txs_json bid layer ls")
    (auto simp: procLedgerBlock_def m_ledgers_def digest_procBlock_def sms_procBlock_def)

text \<open>The ledgers write no block database.\<close>

lemma register_cert_frame: "register_cert E bid layer u pem ls = Some ls' \<Longrightarrow> block_dbs (m_storage ls') = block_dbs (m_storage ls)"
  by (auto simp: register_cert_def ledger_save_def ls_saveLedger_def Let_def split: if_splits Option.bind_splits)

lemma register_contents_frame: "register_contents E bid layer cs ls = Some ls' \<Longrightarrow> block_dbs (m_storage ls') = block_dbs (m_storage ls)"
  by (induction E bid layer cs ls rule: register_contents.induct) (auto dest!: register_cert_frame split: Option.bind_splits)

lemma blockToLedger_frame: "blockToLedger E txs bid layer ls = Some ls' \<Longrightarrow> block_dbs (m_storage ls') = block_dbs (m_storage ls)"
  by (induction E txs bid layer ls rule: blockToLedger.induct)
    (auto dest!: register_contents_frame split: if_splits Option.bind_splits)

lemma procLedgerBlock_frame: "procLedgerBlock E txs bid layer ls = Some ls' \<Longrightarrow> block_dbs (m_storage ls') = block_dbs (m_storage ls)"
  by (auto simp: procLedgerBlock_certificates procBlock_def dest!: blockToLedger_frame split: if_splits Option.bind_splits)

lemma fold_saveLedger_frame: "block_dbs (fold (\<lambda>(k, v). st_saveLedger k v) kvs st) = block_dbs st"
  by (induction kvs arbitrary: st) auto

lemma moveToDiskLedger_frame [simp]: "block_dbs (m_storage (moveToDiskLedger bid ls)) = block_dbs (m_storage ls)"
  by (simp add: moveToDiskLedger_def dropLedger_def Let_def fold_saveLedger_frame)

lemma dropLedgers_frame [simp]: "m_storage (fold dropLedger ids ls) = m_storage ls"
  by (induction ids arbitrary: ls) (auto simp: dropLedger_def)

text \<open>The scan for the certificate that became valid last among those valid at a time. It stops at
  the first record that is missing or not JSON.\<close>

fun cert_scan :: "ext \<Rightarrow> string \<Rightarrow> timestamp_t \<Rightarrow> nat \<Rightarrow> nat \<Rightarrow> timestamp_t \<Rightarrow> string \<Rightarrow> LayeredStorage \<Rightarrow> string option" where
  "cert_scan E user at_this_time 0 i lastest_valid_begin ret_cert ls = Some ret_cert"
| "cert_scan E user at_this_time (Suc n) i lastest_valid_begin ret_cert ls =
     (let cert_json = parseJson E (ledger_read ''C'' (user @ ''_'' @ to_string i) ls)
      in if json_empty cert_json then Some ret_cert
         else do {
           valid_begin \<leftarrow> getTimeS (getStringI cert_json 0);
           valid_end \<leftarrow> getTimeS (getStringI cert_json 1);
           if valid_begin < at_this_time \<and> at_this_time < valid_end \<and> lastest_valid_begin < valid_begin
           then cert_scan E user at_this_time n (i + 1) valid_begin (getStringI cert_json 2) ls
           else cert_scan E user at_this_time n (i + 1) lastest_valid_begin ret_cert ls })"

definition getCertificate :: "ext \<Rightarrow> string \<Rightarrow> timestamp_t \<Rightarrow> LayeredStorage \<Rightarrow> string option" where
  "getCertificate E user_id_b64 at_this_time ls =
     (let cert_size = ledger_read ''C'' user_id_b64 ls
      in if cert_size = [] then Some []
         else do {
           num_certs \<leftarrow> stoi cert_size;
           if at_this_time = 0 then
             let latest_cert_json = parseJsonAsArray E (ledger_read ''C'' (user_id_b64 @ ''_'' @ int_to_string (num_certs - 1)) ls)
             in Some (if json_empty latest_cert_json then [] else getStringI latest_cert_json 2)
           else cert_scan E user_id_b64 at_this_time (nat num_certs) 0 0 [] ls })"

definition getCertificate_id :: "ext \<Rightarrow> signer_id_type \<Rightarrow> timestamp_t \<Rightarrow> LayeredStorage \<Rightarrow> string option" where
  "getCertificate_id E uid at_this_time ls = getCertificate E (encodeBase64 E uid) at_this_time ls"

definition isDuplicatedCert :: "ext \<Rightarrow> string \<Rightarrow> string \<Rightarrow> bool" where
  "isDuplicatedCert E user_pem pem_in_db =
     (if user_pem = [] \<or> pem_in_db = [] \<or> user_pem = pem_in_db then True
      else case x509_parse E user_pem of
             None \<Rightarrow> True
           | Some cert \<Rightarrow> (case x509_parse E pem_in_db of
                None \<Rightarrow> True
              | Some cert_in_db \<Rightarrow> serial_number cert = serial_number cert_in_db))"

definition validTime :: "timestamp_t \<Rightarrow> x509 \<Rightarrow> bool" where
  "validTime current_time cert \<longleftrightarrow> not_before cert < current_time \<and> current_time < not_after cert"

section \<open>Layers\<close>

lemma getVal_dropKV: "getVal k b (dropKV b' l) = (if b = b' then None else getVal k b l)"
  by (induction l) (auto simp: getVal_def dropKV_def)

lemma read_layers_dropKV: "bid \<notin> set layer \<Longrightarrow> read_layers k layer (dropKV bid l) = read_layers k layer l"
  by (induction layer) (auto simp: getVal_dropKV split: option.splits)

lemma getVal_getKV: "getVal k b l = map_of (getKV b l) k"
  by (induction l) (auto simp: getVal_def getKV_def)

lemma getVal_push: "getVal k b (ml_push k' v b' l) =
   (case getVal k b l of Some u \<Rightarrow> Some u | None \<Rightarrow> if k = k' \<and> b = b' then Some v else None)"
  by (auto simp: getVal_def ml_push_def find_append split: option.splits)

lemma map_of_rev_distinct: "distinct (map fst kvs) \<Longrightarrow> map_of (rev kvs) = map_of kvs"
  by (metis distinct_rev map_of_eqI map_of_inject_set rev_map rev_swap set_map set_rev)

text \<open>Reading through a list of layers and then the storage.\<close>

definition layered_view :: "block_layer_t \<Rightarrow> LayeredStorage \<Rightarrow> string \<Rightarrow> string" where
  "layered_view layer ls k =
     (let v = read_layers k layer (m_mem_ledger ls) in if v = [] then st_readLedgerByKey k (m_storage ls) else v)"

lemma ls_read_view:
  "ls_readLedgerByKey k layer ls = layered_view (if layer = [] then m_block_layer ls else layer) ls k"
  by (simp add: ls_readLedgerByKey_def layered_view_def Let_def)

lemma st_read_unflushed:
  assumes "m_batch st LEDGER = []"
  shows "st_readLedgerByKey k (st_flushLedger st) = st_readLedgerByKey k st"
  using assms by (simp add: st_readLedgerByKey_def getValueByKey_opt flush_db pending_def db_write_def)

lemma moveToDisk_reads:
  "st_readLedgerByKey k (m_storage (moveToDiskLedger bid ls)) =
     (case map_of (rev (getKV bid (m_mem_ledger ls))) k of Some v \<Rightarrow> v
      | None \<Rightarrow> st_readLedgerByKey k (st_flushLedger (m_storage ls)))"
  "m_mem_ledger (moveToDiskLedger bid ls) = dropKV bid (m_mem_ledger ls)"
  by (simp_all add: moveToDiskLedger_def Let_def dropLedger_def ledger_kv.read_flush_saves)

lemma read_layers_snoc:
  "read_layers k (layer @ [bid]) l =
     (if \<exists>b \<in> set layer. getVal k b l \<noteq> None then read_layers k layer l
      else case getVal k bid l of Some v \<Rightarrow> v | None \<Rightarrow> [])"
  by (induction layer) (auto split: option.splits)

lemma read_layers_None: "\<forall>b \<in> set layer. getVal k b l = None \<Longrightarrow> read_layers k layer l = []"
  by (induction layer) auto

lemma getVal_nonempty:
  assumes "\<forall>r \<in> set l. rec_value r \<noteq> []" "getVal k b l = Some v"
  shows "v \<noteq> []"
  using assms by (auto simp: getVal_def find_Some_iff)

lemma read_layers_nonempty:
  assumes "\<forall>r \<in> set l. rec_value r \<noteq> []" "b \<in> set layer" "getVal k b l \<noteq> None"
  shows "read_layers k layer l \<noteq> []"
  using assms(2,3) by (induction layer) (auto split: option.splits dest: getVal_nonempty [OF assms(1)])

lemma move_view:
  assumes "\<forall>r \<in> set (m_mem_ledger ls). rec_value r \<noteq> []" "distinct (map fst (getKV bid (m_mem_ledger ls)))"
    "m_batch (m_storage ls) LEDGER = []" "bid \<notin> set layer"
  shows "layered_view layer (moveToDiskLedger bid ls) k = layered_view (layer @ [bid]) ls k"
proof (cases "\<exists>b \<in> set layer. getVal k b (m_mem_ledger ls) \<noteq> None")
  case True
  then have "read_layers k layer (m_mem_ledger ls) \<noteq> []" using read_layers_nonempty [OF assms(1)] by blast
  with True show ?thesis
    by (simp add: layered_view_def moveToDisk_reads read_layers_dropKV [OF assms(4)] read_layers_snoc Let_def)
next
  case False
  then have "read_layers k layer (m_mem_ledger ls) = []" by (intro read_layers_None) auto
  then show ?thesis
    using False getVal_nonempty [OF assms(1), of k bid]
    by (auto simp: layered_view_def moveToDisk_reads read_layers_dropKV [OF assms(4)] read_layers_snoc Let_def
        getVal_getKV map_of_rev_distinct [OF assms(2)] st_read_unflushed [OF assms(3)] split: option.splits)
qed

section \<open>Certificates\<close>

lemma int_to_string_nat [simp]: "int_to_string (int n) = to_string n"
  by (simp add: int_to_string_def)

lemma ledger_save_mem_reads:
  assumes "bid \<noteq> []" "getVal (p @ k') bid (m_mem_ledger ls) = None"
  shows "getVal k bid (m_mem_ledger (ledger_save p k' v bid ls)) =
    (if k = p @ k' then Some v else getVal k bid (m_mem_ledger ls))"
  using assms by (auto simp: ledger_save_def ls_saveLedger_def getVal_push split: option.splits)

text \<open>What \<open>register_cert\<close> leaves in the memory ledger for a block that had no record of the user.\<close>

definition cert_count :: "string \<Rightarrow> nat" where
  "cert_count idx = (if idx = [] then 0 else nat (the (stoi idx)))"

lemma register_cert_reads:
  assumes "bid \<noteq> []" "\<And>s. getVal (''C'' @ user @ s) bid (m_mem_ledger ls) = None"
    "idx = ledger_read_on_layer ''C'' user layer ls" "idx = [] \<or> idx = to_string n \<and> 0 < n \<and> n + 1 < 2 ^ 31"
    "parseCert E pem \<noteq> []"
  shows "\<exists>ls'. register_cert E bid layer user pem ls = Some ls' \<and>
    getVal (''C'' @ user) bid (m_mem_ledger ls') = Some (to_string (Suc (cert_count idx))) \<and>
    getVal (''C'' @ user @ ''_'' @ to_string (cert_count idx)) bid (m_mem_ledger ls') = Some (parseCert E pem)"
proof -
  let ?v = "to_string (Suc (cert_count idx))" and ?k = "user @ ''_'' @ to_string (cert_count idx)"
  let ?ls1 = "ledger_save ''C'' user ?v bid ls" and ?ls2 = "ledger_save ''C'' ?k (parseCert E pem) bid (ledger_save ''C'' user ?v bid ls)"
  have one: "''1'' = to_string 1" "''0'' = to_string 0"
    by code_simp+
  have reg: "register_cert E bid layer user pem ls = Some ?ls2"
    using assms(4,5) one
    by (auto simp: register_cert_def Let_def assms(3) [symmetric] cert_count_def stoi_to_string int_to_string_def
        nat_add_distrib)
  have none: "getVal (''C'' @ user) bid (m_mem_ledger ls) = None" "getVal (''C'' @ ?k) bid (m_mem_ledger ls) = None"
    using assms(2) [of "[]"] assms(2) [of "''_'' @ to_string (cert_count idx)"] by simp_all
  note s1 = ledger_save_mem_reads [OF assms(1) none(1), of _ ?v]
  have "getVal (''C'' @ ?k) bid (m_mem_ledger ?ls1) = None" using none by (simp add: s1)
  note s2 = ledger_save_mem_reads [OF assms(1) this, simplified]
  show ?thesis using reg by (simp add: s1 s2)
qed

text \<open>Reading back through a layer list that starts with the block.\<close>

lemma ledger_read_top:
  assumes "m_block_layer ls = bid # layer" "getVal (p @ k) bid (m_mem_ledger ls) = Some v" "v \<noteq> []"
  shows "ledger_read p k ls = v"
  using assms by (simp add: ledger_read_def ls_readLedgerByKey_def)

lemma parseCert_array:
  assumes "dump_law E" "parseCert E pem \<noteq> []"
  shows "\<exists>nb na. parseJsonAsArray E (parseCert E pem) = JArr [JStr nb, JStr na, JStr pem]"
  using assms by (auto simp: parseCert_def dump_law_def parseJsonAsArray_def parseJson_def Let_def split: option.splits)

section \<open>Properties\<close>

text \<open>C17. Moving the oldest of the unresolved blocks to disk does not change what is read, when the block has at
  most one record for each key: reading through the remaining layers, of which there is at least one and
  none is of this block, gives the same value afterwards as reading through all of them before. The records
  in memory have non-empty values and no ledger record waits in the batch. (With two records for
  one key the first is read before the move and the last after it.)\<close>

theorem moveToDiskLedger_view:
  assumes "\<forall>r \<in> set (m_mem_ledger ls). rec_value r \<noteq> []" "distinct (map fst (getKV bid (m_mem_ledger ls)))"
    "m_batch (m_storage ls) LEDGER = []" "bid \<notin> set layer" "layer \<noteq> []"
  shows "ls_readLedgerByKey k layer (moveToDiskLedger bid ls) = ls_readLedgerByKey k (layer @ [bid]) ls"
  using move_view [OF assms(1-4)] assms(5) by (simp add: ls_read_view)

text \<open>A certificate registered by a block is what \<open>getCertificate\<close> returns for the latest
  certificate of the user once the block is on top of the block layer, and the number of certificates
  of the user has grown by one.\<close>

theorem registered_certificate_found:
  assumes "bid \<noteq> []" "\<And>s. getVal (''C'' @ user @ s) bid (m_mem_ledger ls) = None"
    "idx = ledger_read_on_layer ''C'' user layer ls" "idx = [] \<or> idx = to_string n \<and> 0 < n \<and> n + 1 < 2 ^ 31"
    "x509_parse E pem = Some cert" "dump_law E"
  shows "\<exists>ls'. register_cert E bid layer user pem ls = Some ls' \<and>
    getCertificate E user 0 (setBlockLayer (bid # layer) ls') = Some pem \<and>
    ledger_read ''C'' user (setBlockLayer (bid # layer) ls') = to_string (Suc (cert_count idx))"
proof -
  have pc: "parseCert E pem \<noteq> []" using assms(5,6) by (simp add: parseCert_def dump_law_def)
  from register_cert_reads [OF assms(1-4) pc] obtain ls' where ls':
    "register_cert E bid layer user pem ls = Some ls'"
    "getVal (''C'' @ user) bid (m_mem_ledger ls') = Some (to_string (Suc (cert_count idx)))"
    "getVal (''C'' @ user @ ''_'' @ to_string (cert_count idx)) bid (m_mem_ledger ls') = Some (parseCert E pem)" by blast
  let ?ls = "setBlockLayer (bid # layer) ls'"
  have fields: "m_block_layer ?ls = bid # layer" "m_mem_ledger ?ls = m_mem_ledger ls'"
    by (simp_all add: setBlockLayer_def)
  have count: "ledger_read ''C'' user ?ls = to_string (Suc (cert_count idx))"
    using ledger_read_top [OF fields(1), of "''C''" user] ls'(2) fields(2) by simp
  have rec: "ledger_read ''C'' (user @ ''_'' @ to_string (cert_count idx)) ?ls = parseCert E pem"
    using ledger_read_top [OF fields(1), of "''C''"] ls'(3) fields(2) pc by simp
  have "Suc (cert_count idx) < 2 ^ 31" using assms(4) by (auto simp: cert_count_def stoi_to_string)
  then have "stoi (to_string (Suc (cert_count idx))) = Some (int (Suc (cert_count idx)))" by (rule stoi_to_string)
  then have "getCertificate E user 0 ?ls = Some pem"
    using count rec parseCert_array [OF assms(6) pc] by (auto simp: getCertificate_def Let_def)
  with ls'(1) count show ?thesis by blast
qed

section \<open>Witnesses\<close>

definition ls_a :: LayeredStorage where
  "ls_a = \<lparr>m_storage = new_storage, m_mem_ledger =
     [\<lparr>rec_key = ''k1'', rec_value = ''old'', rec_block_id_b64 = ''b1''\<rparr>,
      \<lparr>rec_key = ''k2'', rec_value = ''two'', rec_block_id_b64 = ''b1''\<rparr>,
      \<lparr>rec_key = ''k1'', rec_value = ''new'', rec_block_id_b64 = ''b2''\<rparr>], m_block_layer = []\<rparr>"

theorem moveToDiskLedger_view_witness:
  "ls_readLedgerByKey ''k2'' [''b2''] (moveToDiskLedger ''b1'' ls_a) = ls_readLedgerByKey ''k2'' ([''b2''] @ [''b1'']) ls_a \<and>
   ls_readLedgerByKey ''k2'' [''b2'', ''b1''] ls_a = ''two''"
  using moveToDiskLedger_view [of ls_a "''b1''" "[''b2'']" "''k2''"]
  by (simp add: ls_a_def getKV_def new_storage_def) (simp add: ls_readLedgerByKey_def getVal_def)

theorem registered_certificate_found_witness:
  "\<exists>ls'. register_cert ext0 ''b3'' [''b2''] ''user'' ''pem'' ls_a = Some ls' \<and>
    getCertificate ext0 ''user'' 0 (setBlockLayer (''b3'' # [''b2'']) ls') = Some ''pem'' \<and>
    ledger_read ''C'' ''user'' (setBlockLayer (''b3'' # [''b2'']) ls') = to_string (Suc (cert_count []))"
proof (rule registered_certificate_found)
  show "[] = ledger_read_on_layer ''C'' ''user'' [''b2''] ls_a"
    by (simp add: ledger_read_on_layer_def ls_readLedgerByKey_def ls_a_def getVal_def st_readLedgerByKey_def
        getValueByKey_def new_storage_def)
  show "x509_parse ext0 ''pem'' = Some \<lparr>not_before = 0, not_after = 2000000000, serial_number = stringToBytes ''pem''\<rparr>"
    by (simp add: ext0_def)
qed (simp_all add: ls_a_def getVal_def ext0_laws)

end
