(* ===== verification/Unresolved_Block_Pool.thy ===== *)
theory Unresolved_Block_Pool
  imports Ledger
begin

text \<open>
  \<open>class UnresolvedBlockPool\<close> (\<open>src/modules/block_processor/unresolved_block_pool.cpp\<close>): received
  blocks that are not final yet, in bins by height above the last resolved block. Each block holds
  the index of its predecessor in the bin below. A block is resolved when the signatures of its
  subtree reach the confirmation level.

  The shared \<open>LayeredStorage\<close> (with the \<open>Storage\<close> in it) is the field \<open>m_layered_storage\<close>. Clock
  readings are arguments. An index out of range, a failed allocation or an uncaught exception is
  \<^const>\<open>None\<close>. The mutex is not modelled: every operation runs as one step.
\<close>

section \<open>State\<close>

record UnresolvedBlock =
  prev_vector_idx :: int
  linked :: bool
  confirm_level :: nat
  ub_block_layer :: block_layer_t
  ub_block :: Block

type_synonym BlockPosOnMap = "u64 \<times> nat"

record UnresolvedBlockPool =
  m_block_pool :: "UnresolvedBlock list list"
  m_last_block_id :: block_id_type
  ubp_prev_block_id :: block_id_type
  m_last_hash :: hash_t
  m_prev_hash :: hash_t
  m_last_height :: u64
  m_last_time :: u64
  m_height_range_max :: u64
  m_force_unresolved :: bool
  m_cache_possible_link :: "nth_link_type option"
  m_cache_possible_block_layer :: "block_layer_t option"
  m_cache_possible_pos :: "BlockPosOnMap option"
  m_layered_storage :: LayeredStorage

definition new_pool :: "LayeredStorage \<Rightarrow> UnresolvedBlockPool" where
  "new_pool ls = \<lparr>m_block_pool = [], m_last_block_id = [], ubp_prev_block_id = [], m_last_hash = [],
     m_prev_hash = [], m_last_height = 0, m_last_time = 0, m_height_range_max = 0, m_force_unresolved = False,
     m_cache_possible_link = None, m_cache_possible_block_layer = None, m_cache_possible_pos = None,
     m_layered_storage = ls\<rparr>"

definition UNRESOLVED_BLOCK_IDS_KEY :: string where
  "UNRESOLVED_BLOCK_IDS_KEY = ''UNRESOLVED_BLOCK_IDS_KEY''"

definition getBlockIdB64 :: "ext \<Rightarrow> Block \<Rightarrow> string" where
  "getBlockIdB64 E b = encodeBase64 E (m_block_id b)"

definition pool_storage :: "UnresolvedBlockPool \<Rightarrow> Storage" where
  "pool_storage p = m_storage (m_layered_storage p)"

definition set_pool_storage :: "Storage \<Rightarrow> UnresolvedBlockPool \<Rightarrow> UnresolvedBlockPool" where
  "set_pool_storage st p = p\<lparr>m_layered_storage := (m_layered_storage p)\<lparr>m_storage := st\<rparr>\<rparr>"

definition invalidateCaches :: "UnresolvedBlockPool \<Rightarrow> UnresolvedBlockPool" where
  "invalidateCaches p = p\<lparr>m_cache_possible_link := None, m_cache_possible_block_layer := None,
                         m_cache_possible_pos := None\<rparr>"

definition pool_clear :: "UnresolvedBlockPool \<Rightarrow> UnresolvedBlockPool" where
  "pool_clear p = p\<lparr>m_block_pool := []\<rparr>"

definition hasUnresolvedBlocks :: "UnresolvedBlockPool \<Rightarrow> bool" where
  "hasUnresolvedBlocks p = m_force_unresolved p"

text \<open>The previous hash is assigned to \<open>m_prev_block_id\<close>; \<open>m_prev_hash\<close> is not set.\<close>

definition setPool ::
  "block_id_type \<Rightarrow> block_id_type \<Rightarrow> hash_t \<Rightarrow> hash_t \<Rightarrow> u64 \<Rightarrow> u64 \<Rightarrow> UnresolvedBlockPool \<Rightarrow> UnresolvedBlockPool" where
  "setPool last_block_id prev_block_id last_hash prev_hash last_height last_time p =
     p\<lparr>m_last_block_id := last_block_id, ubp_prev_block_id := prev_hash, m_last_hash := last_hash,
       m_last_height := last_height, m_last_time := last_time, m_height_range_max := last_height\<rparr>"

section \<open>Bins\<close>

text \<open>\<open>static_cast<int>(height - m_last_height) - 1\<close>\<close>

definition bin_of :: "u64 \<Rightarrow> UnresolvedBlockPool \<Rightarrow> int" where
  "bin_of height p = cast_int (height - m_last_height p) - 1"

text \<open>
  All arithmetic wraps at 64 bits. \<open>bin_pos + 1\<close> is converted to \<open>size_t\<close> for the comparison, so a
  negative one asks for more elements than a container can hold.
\<close>

definition prepareBins :: "u64 \<Rightarrow> u64 \<Rightarrow> UnresolvedBlockPool \<Rightarrow> (bool \<times> UnresolvedBlockPool) option" where
  "prepareBins now t_height p =
     (if t_height \<le> m_last_height p then Some (False, p)
      else if now - m_last_time p < (t_height - m_last_height p - 1) * BP_INTERVAL then Some (False, p)
      else let bin_pos = bin_of t_height p
           in if bin_pos + 1 < 0 then None
              else if int (length (m_block_pool p)) < bin_pos + 1
                   then Some (True, p\<lparr>m_block_pool := m_block_pool p @
                          replicate (nat (bin_pos + 1) - length (m_block_pool p)) []\<rparr>)
                   else Some (True, p))"

section \<open>Layers and the longest chain\<close>

text \<open>The position of the first block with an id, bins from the lowest.\<close>

fun find_block_pos :: "ext \<Rightarrow> string \<Rightarrow> nat \<Rightarrow> UnresolvedBlock list list \<Rightarrow> (nat \<times> nat) option" where
  "find_block_pos E block_id_b64 i [] = None"
| "find_block_pos E block_id_b64 i (bin # bins) =
     (case find_index (\<lambda>u. getBlockIdB64 E (ub_block u) = block_id_b64) bin of
        Some j \<Rightarrow> Some (i, j)
      | None \<Rightarrow> find_block_pos E block_id_b64 (i + 1) bins)"

text \<open>The loop from a bin down to the lowest, with the blocks above the current position done.\<close>

definition block_at :: "UnresolvedBlock list list \<Rightarrow> nat \<Rightarrow> int \<Rightarrow> UnresolvedBlock option" where
  "block_at bins i q = (if i < length bins \<and> 0 \<le> q \<and> nat q < length (bins ! i) then Some (bins ! i ! nat q) else None)"

fun walk_layer :: "ext \<Rightarrow> string \<Rightarrow> UnresolvedBlock list list \<Rightarrow> nat \<Rightarrow> int \<Rightarrow> block_layer_t \<Rightarrow> block_layer_t option" where
  "walk_layer E block_id_b64 bins i queue_idx layer = do {
     u \<leftarrow> block_at bins i queue_idx;
     let new_id = getBlockIdB64 E (ub_block u);
     let layer = (if block_id_b64 \<noteq> new_id then layer @ [new_id] else layer);
     if prev_vector_idx u < 0 then Some []
     else (case i of 0 \<Rightarrow> Some layer | Suc i' \<Rightarrow> walk_layer E block_id_b64 bins i' (prev_vector_idx u) layer) }"

definition getBlockLayer :: "ext \<Rightarrow> string \<Rightarrow> UnresolvedBlockPool \<Rightarrow> block_layer_t option" where
  "getBlockLayer E block_id_b64 p =
     (if block_id_b64 = [] then Some []
      else case find_block_pos E block_id_b64 0 (m_block_pool p) of
             None \<Rightarrow> Some []
           | Some (i, j) \<Rightarrow> walk_layer E block_id_b64 (m_block_pool p) i (int j) [])"

text \<open>The search of \<open>getLongestBlockPos\<close>: \<open>levels\<close> counts the bins above \<open>bin_idx\<close> and bounds the depth of
  the recursion.\<close>

definition relax_pos :: "u64 \<Rightarrow> nat \<Rightarrow> BlockPosOnMap \<Rightarrow> BlockPosOnMap" where
  "relax_pos h i longest_pos = (if fst longest_pos < h then (h, i) else longest_pos)"

fun recSearchLongestLinkPos :: "UnresolvedBlock list list \<Rightarrow> nat \<Rightarrow> BlockPosOnMap \<Rightarrow> BlockPosOnMap" where
  "recSearchLongestLinkPos [] prev longest_pos = longest_pos"
| "recSearchLongestLinkPos (bin # bins) prev longest_pos =
     fold (\<lambda>i pos.
       if prev_vector_idx (bin ! i) = int prev
       then recSearchLongestLinkPos bins i (relax_pos (m_height (ub_block (bin ! i))) i pos)
       else pos) [0..<length bin] longest_pos"

text \<open>The outer loop is the search on the lowest bin for predecessor 0.\<close>

definition longest_pos :: "UnresolvedBlockPool \<Rightarrow> BlockPosOnMap" where
  "longest_pos p = recSearchLongestLinkPos (m_block_pool p) 0 (0, 0)"

definition getLongestBlockPos :: "UnresolvedBlockPool \<Rightarrow> BlockPosOnMap \<times> UnresolvedBlockPool" where
  "getLongestBlockPos p =
     (case m_cache_possible_pos p of
        Some pos \<Rightarrow> (pos, p)
      | None \<Rightarrow> (longest_pos p, p\<lparr>m_cache_possible_pos := Some (longest_pos p)\<rparr>))"

fun walk_ids :: "ext \<Rightarrow> UnresolvedBlock list list \<Rightarrow> nat \<Rightarrow> int \<Rightarrow> block_layer_t option" where
  "walk_ids E bins i queue_idx = do {
     u \<leftarrow> block_at bins i queue_idx;
     rest \<leftarrow> (case i of 0 \<Rightarrow> Some [] | Suc i' \<Rightarrow> walk_ids E bins i' (prev_vector_idx u));
     Some (getBlockIdB64 E (ub_block u) # rest) }"

declare walk_layer.simps [simp del] walk_ids.simps [simp del]

definition getMostPossibleBlockLayer :: "ext \<Rightarrow> UnresolvedBlockPool \<Rightarrow> (block_layer_t \<times> UnresolvedBlockPool) option" where
  "getMostPossibleBlockLayer E p =
     (case m_cache_possible_block_layer p of
        Some l \<Rightarrow> Some (l, p)
      | None \<Rightarrow>
          let (pos, p') = getLongestBlockPos p;
              bin_end = bin_of (fst pos) p'
          in do {
            l \<leftarrow> (if bin_end < 0 then Some [] else walk_ids E (m_block_pool p') (nat bin_end) (int (snd pos)));
            Some (l, p'\<lparr>m_cache_possible_block_layer := Some l\<rparr>) })"

text \<open>The previous hash and id of the block are assigned the wrong way round.\<close>

definition getMostPossibleLink :: "UnresolvedBlockPool \<Rightarrow> (nth_link_type \<times> UnresolvedBlockPool) option" where
  "getMostPossibleLink p =
     (case m_cache_possible_link p of
        Some l \<Rightarrow> Some (l, p)
      | None \<Rightarrow>
          let last_link = \<lparr>link_id = m_last_block_id p, link_prev_id = ubp_prev_block_id p, link_hash = m_last_hash p,
                           link_prev_hash = m_prev_hash p, link_height = m_last_height p, link_time = m_last_time p\<rparr>
          in if m_block_pool p = [] then Some (last_link, p\<lparr>m_cache_possible_link := Some last_link\<rparr>)
             else let (pos, p') = getLongestBlockPos p;
                      deque_idx = bin_of (fst pos) p'
                  in do {
                    link \<leftarrow>
                      (if m_last_height p < fst pos \<and> 0 \<le> deque_idx then do {
                         u \<leftarrow> block_at (m_block_pool p) (nat deque_idx) (int (snd pos));
                         let b = ub_block u;
                         Some \<lparr>link_id = m_block_id b, link_prev_id = m_prev_block_hash b, link_hash = m_block_hash b,
                               link_prev_hash = m_prev_block_id b, link_height = m_height b, link_time = m_time b\<rparr> }
                       else Some last_link);
                    Some (link, p'\<lparr>m_cache_possible_link := Some link\<rparr>) })"

text \<open>Only \<open>height\<close> and \<open>prev_hash\<close> of the result are set; height 0 means there is nothing to ask for.\<close>

definition getUnresolvedLowestLink :: "UnresolvedBlockPool \<Rightarrow> ((u64 \<times> hash_t) \<times> UnresolvedBlockPool) option" where
  "getUnresolvedLowestLink p =
     (let (pos, p') = getLongestBlockPos p;
          bin_idx = bin_of (fst pos) p'
      in if m_last_height p' \<le> fst pos \<and> fst pos < of_nat (length (m_block_pool p')) + m_last_height p'
         then if fst pos = m_last_height p' then Some ((m_last_height p' + 1, m_last_hash p'), p')
              else if 0 \<le> bin_idx then do {
                u \<leftarrow> block_at (m_block_pool p') (nat bin_idx) (int (snd pos));
                Some ((m_height (ub_block u) + 1, m_block_hash (ub_block u)), p') }
              else Some ((0, []), p')
         else Some ((0, []), p'))"

section \<open>Feeding the ledgers\<close>

definition upd_block :: "nat \<Rightarrow> nat \<Rightarrow> (UnresolvedBlock \<Rightarrow> UnresolvedBlock) \<Rightarrow> UnresolvedBlockPool \<Rightarrow> UnresolvedBlockPool" where
  "upd_block i j f p = p\<lparr>m_block_pool := (m_block_pool p)[i := (m_block_pool p ! i)[j := f (m_block_pool p ! i ! j)]]\<rparr>"

definition forwardBlockToLedgerAt :: "ext \<Rightarrow> nat \<Rightarrow> nat \<Rightarrow> UnresolvedBlockPool \<Rightarrow> (block_layer_t \<times> UnresolvedBlockPool) option" where
  "forwardBlockToLedgerAt E bin_idx vector_idx p =
     (case block_at (m_block_pool p) bin_idx (int vector_idx) of
        None \<Rightarrow> Some ([], p)
      | Some t_block \<Rightarrow> do {
          ls \<leftarrow> procLedgerBlock E (getBlockTXsAsJson E (ub_block t_block)) (getBlockIdB64 E (ub_block t_block))
                 (ub_block_layer t_block) (m_layered_storage p);
          Some (ub_block_layer t_block, p\<lparr>m_layered_storage := ls\<rparr>) })"

text \<open>
  The recursion goes up one bin per level, so as many levels as there are bins are enough. The
  local \<open>block_layer\<close> is shared by the iterations of the loop: the ids of earlier siblings stay in it.
\<close>

fun recBlockToLedger :: "ext \<Rightarrow> nat \<Rightarrow> nat \<Rightarrow> nat \<Rightarrow> block_layer_t \<Rightarrow> UnresolvedBlockPool \<Rightarrow> UnresolvedBlockPool option" where
  "recBlockToLedger E 0 bin_idx prev layer p = Some p"
| "recBlockToLedger E (Suc levels) bin_idx prev layer p =
     (if length (m_block_pool p) < bin_idx + 1 then Some p
      else map_option snd (fold_opt (\<lambda>i (layer, p).
        let each_block = m_block_pool p ! bin_idx ! i
        in if prev_vector_idx each_block = int prev then do {
             let p1 = upd_block bin_idx i (\<lambda>u. u\<lparr>ub_block_layer := layer\<rparr>) p;
             let layer1 = getBlockIdB64 E (ub_block each_block) # layer;
             (_, p2) \<leftarrow> forwardBlockToLedgerAt E bin_idx i p1;
             p3 \<leftarrow> recBlockToLedger E levels (bin_idx + 1) i layer1 p2;
             Some (layer1, p3) }
           else Some (layer, p)) [0..<length (m_block_pool p ! bin_idx)] (layer, p)))"

definition forwardBlocksToLedgerFrom :: "ext \<Rightarrow> nat \<Rightarrow> nat \<Rightarrow> UnresolvedBlockPool \<Rightarrow> UnresolvedBlockPool option" where
  "forwardBlocksToLedgerFrom E bin_idx vector_idx p =
     (case block_at (m_block_pool p) bin_idx (int vector_idx) of
        None \<Rightarrow> Some p
      | Some _ \<Rightarrow> do {
          (layer, p1) \<leftarrow> forwardBlockToLedgerAt E bin_idx vector_idx p;
          recBlockToLedger E (length (m_block_pool p1)) (bin_idx + 1) vector_idx layer p1 })"

section \<open>Backups\<close>

definition backupPool :: "ext \<Rightarrow> UnresolvedBlockPool \<Rightarrow> UnresolvedBlockPool option" where
  "backupPool E p = do {
     let blocks = map ub_block (concat (m_block_pool p));
     st \<leftarrow> fold_opt (\<lambda>b st. do { s \<leftarrow> serialize E b; Some (saveBackup (getBlockIdB64 E b) s st) }) blocks (pool_storage p);
     let id_array = JArr (map (\<lambda>b. JStr (getBlockIdB64 E b)) blocks);
     Some (set_pool_storage (flushBackup
       (saveBackup UNRESOLVED_BLOCK_IDS_KEY (bytesToString (to_cbor E id_array)) st)) p) }"

definition readBackupIds :: "ext \<Rightarrow> Storage \<Rightarrow> json" where
  "readBackupIds E st =
     (let backup_block_ids = readBackup UNRESOLVED_BLOCK_IDS_KEY st
      in if backup_block_ids = [] then JArr []
         else case from_cbor E (stringToBytes backup_block_ids) of Some j \<Rightarrow> j | None \<Rightarrow> JArr [])"

section \<open>Pushing a block\<close>

definition push_failed :: unblk_push_result_type where
  "push_failed = \<lparr>res_linked = False, res_duplicated = False, res_height = 0, res_block_layer = []\<rparr>"

text \<open>The index of the predecessor in the bin below, \<open>-1\<close> when it is not there.\<close>

definition find_prev :: "Block \<Rightarrow> UnresolvedBlock list \<Rightarrow> int" where
  "find_prev block bin =
     (case find_index (\<lambda>each. m_block_id (ub_block each) = m_prev_block_id block \<and>
                              m_block_hash (ub_block each) = m_prev_block_hash block) bin of
        Some i \<Rightarrow> int i | None \<Rightarrow> - 1)"

text \<open>Blocks of the next bin that waited for this one get its index.\<close>

definition link_next :: "Block \<Rightarrow> nat \<Rightarrow> UnresolvedBlock list \<Rightarrow> UnresolvedBlock list" where
  "link_next block queue_idx bin =
     map (\<lambda>each. if m_prev_block_id (ub_block each) = m_block_id block \<and>
                    m_prev_block_hash (ub_block each) = m_block_hash block \<and> prev_vector_idx each < 0
                 then each\<lparr>prev_vector_idx := int queue_idx\<rparr> else each) bin"

definition push_at ::
  "ext \<Rightarrow> Block \<Rightarrow> bool \<Rightarrow> nat \<Rightarrow> int \<Rightarrow> UnresolvedBlockPool \<Rightarrow> (unblk_push_result_type \<times> UnresolvedBlockPool) option" where
  "push_at E block is_restore bin_idx prev_queue_idx p = do {
     let queue_idx = length (m_block_pool p ! bin_idx);
     let p1 = p\<lparr>m_block_pool := (m_block_pool p)[bin_idx := m_block_pool p ! bin_idx @
        [\<lparr>prev_vector_idx = prev_queue_idx, linked = False, confirm_level = 0, ub_block_layer = [], ub_block = block\<rparr>]]\<rparr>;
     layer \<leftarrow> (if 0 < bin_idx then getBlockLayer E (getBlockIdB64 E block) p1 else Some []);
     let is_linked = (if bin_idx = 0 then True else layer \<noteq> []);
     let p2 = upd_block bin_idx queue_idx (\<lambda>u. u\<lparr>ub_block_layer := layer, linked := is_linked\<rparr>) p1;
     p3 \<leftarrow> (if \<not> is_restore then backupPool E p2 else Some p2);
     let p4 = (if bin_idx + 1 < length (m_block_pool p3)
               then p3\<lparr>m_block_pool := (m_block_pool p3)[bin_idx + 1 := link_next block queue_idx (m_block_pool p3 ! (bin_idx + 1))]\<rparr>
               else p3);
     p5 \<leftarrow> (if is_linked then forwardBlocksToLedgerFrom E bin_idx queue_idx p4 else Some p4);
     let p6 = (if m_height_range_max p5 < m_height block then p5\<lparr>m_height_range_max := m_height block\<rparr> else p5);
     (best, p7) \<leftarrow> getMostPossibleBlockLayer E (invalidateCaches p6);
     Some (\<lparr>res_linked = is_linked, res_duplicated = False, res_height = m_height block, res_block_layer = layer\<rparr>,
           p7\<lparr>m_layered_storage := setBlockLayer best (m_layered_storage p7)\<rparr>) }"

definition push ::
  "ext \<Rightarrow> u64 \<Rightarrow> Block \<Rightarrow> bool \<Rightarrow> UnresolvedBlockPool \<Rightarrow> (unblk_push_result_type \<times> UnresolvedBlockPool) option" where
  "push E now block is_restore p = do {
     let bin_idx = bin_of (m_height block) p;
     (ok, p') \<leftarrow> prepareBins now (m_height block) p;
     if \<not> ok then Some (push_failed, p')
     else if bin_idx < 0 then None
     else let i = nat bin_idx; bin = m_block_pool p' ! i
          in if \<exists>each \<in> set bin. block_eq (ub_block each) block
             then Some (push_failed\<lparr>res_height := m_height block, res_duplicated := True\<rparr>, p')
             else if 0 < i then push_at E block is_restore i (find_prev block (m_block_pool p' ! (i - 1))) p'
             else if m_prev_block_id block = m_last_block_id p' \<and> m_prev_block_hash block = m_last_hash p'
                  then push_at E block is_restore 0 0 p'
                  else Some (push_failed, p') }"

section \<open>Reading blocks\<close>

text \<open>Height 0 is never above \<open>m_last_height\<close>, so the branch of the source for it is not reached.\<close>

definition pool_bin :: "u64 \<Rightarrow> UnresolvedBlockPool \<Rightarrow> UnresolvedBlock list option option" where
  "pool_bin t_height p =
     (if m_block_pool p = [] then Some None
      else if t_height \<le> m_last_height p \<or> m_last_height p + of_nat (length (m_block_pool p)) < t_height then Some None
      else let bin_pos = bin_of t_height p
           in if bin_pos < 0 then Some None
              else if nat bin_pos < length (m_block_pool p) then Some (Some (m_block_pool p ! nat bin_pos))
              else None)"

definition getBlock_hash :: "u64 \<Rightarrow> hash_t \<Rightarrow> hash_t \<Rightarrow> UnresolvedBlockPool \<Rightarrow> Block option option" where
  "getBlock_hash t_height t_prev_hash t_hash p = do {
     r \<leftarrow> pool_bin t_height p;
     Some (case r of None \<Rightarrow> None
       | Some bin \<Rightarrow> map_option ub_block (find (\<lambda>each.
           (t_prev_hash = [] \<or> m_prev_block_hash (ub_block each) = t_prev_hash) \<and>
           (t_hash = [] \<or> m_block_hash (ub_block each) = t_hash)) bin)) }"

definition getBlock_height :: "u64 \<Rightarrow> UnresolvedBlockPool \<Rightarrow> Block option option" where
  "getBlock_height t_height p = do {
     r \<leftarrow> pool_bin t_height p;
     Some (case r of None \<Rightarrow> None
       | Some bin \<Rightarrow> map_option ub_block (find (\<lambda>each. m_height (ub_block each) = t_height) bin)) }"

section \<open>Resolving blocks\<close>

text \<open>Each block adds its own level to that of its predecessor, from the highest bin downwards.\<close>

definition add_levels :: "UnresolvedBlock list \<Rightarrow> UnresolvedBlock list \<Rightarrow> UnresolvedBlock list" where
  "add_levels upper bin =
     fold (\<lambda>each bin.
       if 0 \<le> prev_vector_idx each \<and> nat (prev_vector_idx each) < length bin
       then let q = nat (prev_vector_idx each)
            in bin[q := (bin ! q)\<lparr>confirm_level := confirm_level (bin ! q) + confirm_level each\<rparr>]
       else bin) upper bin"

fun confirm_bins :: "UnresolvedBlock list list \<Rightarrow> UnresolvedBlock list list" where
  "confirm_bins [] = []"
| "confirm_bins [bin] = [bin]"
| "confirm_bins (bin # bins) = (let bins' = confirm_bins bins in add_levels (hd bins') bin # bins')"

definition updateConfirmLevel :: "UnresolvedBlockPool \<Rightarrow> UnresolvedBlockPool" where
  "updateConfirmLevel p =
     p\<lparr>m_block_pool := confirm_bins (map (map (\<lambda>u. u\<lparr>confirm_level := length (m_ssigs (ub_block u))\<rparr>)) (m_block_pool p))\<rparr>"

text \<open>The first block of the lowest bin with the highest level above \<open>highest\<close>.\<close>

fun best_confirm :: "UnresolvedBlock list \<Rightarrow> nat \<Rightarrow> nat \<Rightarrow> nat option \<Rightarrow> nat \<times> nat option" where
  "best_confirm [] i highest idx = (highest, idx)"
| "best_confirm (u # us) i highest idx =
     (if prev_vector_idx u = 0 \<and> highest < confirm_level u then best_confirm us (i + 1) (confirm_level u) (Some i)
      else best_confirm us (i + 1) highest idx)"

text \<open>The guards of a step: the index in the lowest bin of the block to resolve, if any. Some block of
  the next bin has to link to it.\<close>

definition pick_resolved :: "UnresolvedBlock list list \<Rightarrow> nat option" where
  "pick_resolved bins =
     (if length bins < 2 \<or> bins ! 0 = [] \<or> bins ! 1 = [] then None
      else case best_confirm (bins ! 0) 0 0 None of
             (_, None) \<Rightarrow> None
           | (highest, Some r) \<Rightarrow>
               if highest < BLOCK_CONFIRM_LEVEL then None
               else if \<exists>each \<in> set (bins ! 1). prev_vector_idx each = int r then Some r else None)"

definition relink :: "Block \<Rightarrow> UnresolvedBlock list \<Rightarrow> UnresolvedBlock list" where
  "relink b bin =
     map (\<lambda>each. each\<lparr>prev_vector_idx :=
       (if m_prev_block_id (ub_block each) = m_block_id b \<and> m_prev_block_hash (ub_block each) = m_block_hash b
        then 0 else - 1)\<rparr>) bin"

definition dropped_ids :: "ext \<Rightarrow> Block \<Rightarrow> UnresolvedBlock list \<Rightarrow> string list" where
  "dropped_ids E b bin =
     (if 1 < length bin
      then map (\<lambda>each. getBlockIdB64 E (ub_block each)) (filter (\<lambda>each. m_block_id (ub_block each) \<noteq> m_block_id b) bin)
      else [])"

definition resolve_at :: "Block \<Rightarrow> UnresolvedBlockPool \<Rightarrow> UnresolvedBlockPool" where
  "resolve_at b p =
     p\<lparr>ubp_prev_block_id := m_last_block_id p, m_prev_hash := m_last_hash p,
       m_last_block_id := m_block_id b, m_last_hash := m_block_hash b, m_last_height := m_height b,
       m_block_pool := (case tl (m_block_pool p) of [] \<Rightarrow> [] | bin # bins \<Rightarrow> relink b bin # bins)\<rparr>"

text \<open>One step gives the pool and, when a block was resolved, that block and the ids that were dropped.\<close>

definition resolveBlocksStepByStep ::
  "ext \<Rightarrow> UnresolvedBlockPool \<Rightarrow> UnresolvedBlockPool \<times> (UnresolvedBlock \<times> string list) option" where
  "resolveBlocksStepByStep E p0 =
     (let p = updateConfirmLevel p0
      in case pick_resolved (m_block_pool p) of
           None \<Rightarrow> (p, None)
         | Some r \<Rightarrow>
             let u = m_block_pool p ! 0 ! r
             in (resolve_at (ub_block u) p, Some (u, dropped_ids E (ub_block u) (m_block_pool p ! 0))))"

lemma length_confirm_bins [simp]: "length (confirm_bins bins) = length bins"
  by (induction bins rule: confirm_bins.induct) (auto simp: Let_def)

lemma length_updateConfirmLevel [simp]: "length (m_block_pool (updateConfirmLevel p)) = length (m_block_pool p)"
  by (simp add: updateConfirmLevel_def)

lemma pick_resolved_bins: "pick_resolved bins = Some r \<Longrightarrow> \<exists>b0 b1 rest. bins = b0 # b1 # rest \<and> b0 \<noteq> [] \<and> b1 \<noteq> []"
  by (cases bins; cases "tl bins") (auto simp: pick_resolved_def split: if_splits)

lemma resolve_step_SomeE:
  assumes "resolveBlocksStepByStep E p = (p', Some (u, drops))"
  obtains r b0 b1 bins where "m_block_pool (updateConfirmLevel p) = b0 # b1 # bins"
    "pick_resolved (b0 # b1 # bins) = Some r" "u = b0 ! r" "drops = dropped_ids E (ub_block u) b0"
    "p' = resolve_at (ub_block u) (updateConfirmLevel p)" "m_block_pool p' = relink (ub_block u) b1 # bins"
proof -
  obtain r where r: "pick_resolved (m_block_pool (updateConfirmLevel p)) = Some r"
    and eqs: "u = m_block_pool (updateConfirmLevel p) ! 0 ! r" "drops = dropped_ids E (ub_block u) (m_block_pool (updateConfirmLevel p) ! 0)"
    "p' = resolve_at (ub_block u) (updateConfirmLevel p)"
    using assms by (auto simp: resolveBlocksStepByStep_def Let_def split: option.splits)
  obtain b0 b1 bins where bins: "m_block_pool (updateConfirmLevel p) = b0 # b1 # bins"
    using pick_resolved_bins [OF r] by blast
  then have "m_block_pool p' = relink (ub_block u) b1 # bins" using eqs by (simp add: resolve_at_def)
  with bins r eqs that show ?thesis by auto
qed

lemma resolve_step_shrinks:
  assumes "resolveBlocksStepByStep E p = (p', Some ud)"
  shows "length (m_block_pool p) = Suc (length (m_block_pool p'))"
proof -
  obtain u d where "ud = (u, d)" by (cases ud)
  with assms obtain b0 b1 bins where "m_block_pool (updateConfirmLevel p) = b0 # b1 # bins"
    "m_block_pool p' = relink (ub_block u) b1 # bins"
    using resolve_step_SomeE by metis
  then show ?thesis using length_updateConfirmLevel [of p] by simp
qed

text \<open>The \<open>do\<close> loop runs until a step resolves nothing; every other step removes a bin.\<close>

function resolve_loop ::
  "ext \<Rightarrow> UnresolvedBlockPool \<Rightarrow> UnresolvedBlock list \<Rightarrow> string list \<Rightarrow> UnresolvedBlockPool \<times> UnresolvedBlock list \<times> string list" where
  "resolve_loop E p resolved_blocks drop_blocks =
     (case resolveBlocksStepByStep E p of
        (p', None) \<Rightarrow> (p', resolved_blocks, drop_blocks)
      | (p', Some (u, drops)) \<Rightarrow> resolve_loop E p' (resolved_blocks @ [u]) (drop_blocks @ drops))"
  by pat_completeness auto

termination resolve_loop
  by (relation "measure (\<lambda>(E, p, _, _). length (m_block_pool p))")
    (auto dest!: resolve_step_shrinks [OF sym])

declare resolve_loop.simps [simp del]

definition getResolvedBlocks ::
  "ext \<Rightarrow> UnresolvedBlockPool \<Rightarrow> (UnresolvedBlock list \<times> string list) \<times> UnresolvedBlockPool" where
  "getResolvedBlocks E p =
     (let (p1, resolved_blocks, drop_blocks) = resolve_loop E p [] [];
          id_array = readBackupIds E (pool_storage p1)
      in if json_empty id_array \<or> \<not> is_array id_array then ((resolved_blocks, drop_blocks), p1)
         else let ids = filter (\<lambda>s. s \<noteq> []) (map getString (json_elems id_array));
                  is_resolved = (\<lambda>s. \<exists>u \<in> set resolved_blocks. s = getBlockIdB64 E (ub_block u));
                  del_ids = drop_blocks @ filter is_resolved ids;
                  new_ids = filter (\<lambda>s. \<not> is_resolved s) ids;
                  st = saveBackup UNRESOLVED_BLOCK_IDS_KEY (bytesToString (to_cbor E (JArr (map JStr new_ids)))) (pool_storage p1)
              in ((resolved_blocks, drop_blocks), set_pool_storage (flushBackup (fold delBackup del_ids st)) p1))"

section \<open>Restoring the pool\<close>

definition restore_one :: "ext \<Rightarrow> bytes \<Rightarrow> u64 \<Rightarrow> string \<Rightarrow> UnresolvedBlockPool \<Rightarrow> UnresolvedBlockPool option" where
  "restore_one E mem now block_id_b64 p =
     (if block_id_b64 = [] then Some p
      else let serialized_block = readBackup block_id_b64 (pool_storage p)
           in if serialized_block = [] then Some p
              else do {
                (ok, b) \<leftarrow> deserialize E mem serialized_block new_block;
                if \<not> ok then Some p
                else map_option snd (push E now b True p) })"

definition restorePool :: "ext \<Rightarrow> bytes \<Rightarrow> u64 \<Rightarrow> UnresolvedBlockPool \<Rightarrow> UnresolvedBlockPool option" where
  "restorePool E mem now p =
     (let id_array = readBackupIds E (pool_storage p)
      in if json_empty id_array \<or> \<not> is_array id_array then Some p
         else fold_opt (restore_one E mem now) (map getString (json_elems id_array)) p)"

end
