(* ===== verification/Pool_Invariant.thy ===== *)
theory Pool_Invariant
  imports Unresolved_Block_Pool
begin

text \<open>
  The link structure of the unresolved block pool. The \<open>skeleton\<close> of a pool is what its links
  depend on: the predecessor index and the block of every entry. The invariant says that a block lies in
  the bin of its height, that its index is the position of its predecessor exactly when the
  predecessor is there, and that the hashes of a bin are different. Pushing and resolving blocks keep it.
\<close>

section \<open>Skeletons\<close>

type_synonym skeleton = "(int \<times> Block) list list"

definition skel :: "UnresolvedBlock list list \<Rightarrow> skeleton" where
  "skel bins = map (map (\<lambda>u. (prev_vector_idx u, ub_block u))) bins"

definition links_to :: "Block \<Rightarrow> block_id_type \<Rightarrow> hash_t \<Rightarrow> bool" where
  "links_to b i h \<longleftrightarrow> m_prev_block_id b = i \<and> m_prev_block_hash b = h"

definition parent_at :: "skeleton \<Rightarrow> block_id_type \<Rightarrow> hash_t \<Rightarrow> nat \<Rightarrow> int \<Rightarrow> Block \<Rightarrow> bool" where
  "parent_at S lid lh i q b \<longleftrightarrow>
     (if i = 0 then q = 0 \<and> links_to b lid lh
      else nat q < length (S ! (i - 1)) \<and>
           links_to b (m_block_id (snd (S ! (i - 1) ! nat q))) (m_block_hash (snd (S ! (i - 1) ! nat q))))"

definition has_parent :: "skeleton \<Rightarrow> block_id_type \<Rightarrow> hash_t \<Rightarrow> nat \<Rightarrow> Block \<Rightarrow> bool" where
  "has_parent S lid lh i b \<longleftrightarrow>
     (if i = 0 then links_to b lid lh
      else \<exists>(q, b') \<in> set (S ! (i - 1)). links_to b (m_block_id b') (m_block_hash b'))"

definition entry_ok :: "skeleton \<Rightarrow> block_id_type \<Rightarrow> hash_t \<Rightarrow> u64 \<Rightarrow> nat \<Rightarrow> int \<times> Block \<Rightarrow> bool" where
  "entry_ok S lid lh height i e \<longleftrightarrow>
     m_height (snd e) = height + 1 + of_nat i \<and>
     (0 \<le> fst e \<longrightarrow> parent_at S lid lh i (fst e) (snd e)) \<and>
     (fst e < 0 \<longrightarrow> \<not> has_parent S lid lh i (snd e))"

definition skel_inv :: "skeleton \<Rightarrow> block_id_type \<Rightarrow> hash_t \<Rightarrow> u64 \<Rightarrow> bool" where
  "skel_inv S lid lh height \<longleftrightarrow>
     unat height + length S < 2 ^ 64 \<and>
     (\<forall>i < length S. \<forall>e \<in> set (S ! i). entry_ok S lid lh height i e) \<and>
     (\<forall>bin \<in> set S. distinct (map (m_block_hash \<circ> snd) bin))"

definition pool_inv :: "UnresolvedBlockPool \<Rightarrow> bool" where
  "pool_inv p \<longleftrightarrow> skel_inv (skel (m_block_pool p)) (m_last_block_id p) (m_last_hash p) (m_last_height p)"

text \<open>What the invariant depends on.\<close>

definition core :: "UnresolvedBlockPool \<Rightarrow> skeleton \<times> block_id_type \<times> hash_t \<times> u64" where
  "core p = (skel (m_block_pool p), m_last_block_id p, m_last_hash p, m_last_height p)"

lemma pool_inv_core: "core p = core p' \<Longrightarrow> pool_inv p = pool_inv p'"
  by (simp add: core_def pool_inv_def)

lemma skel_simps [simp]:
  "length (skel bins) = length bins" "skel [] = []"
  "skel (bin # bins) = map (\<lambda>u. (prev_vector_idx u, ub_block u)) bin # skel bins"
  by (simp_all add: skel_def)

lemma skel_nth: "i < length bins \<Longrightarrow> skel bins ! i = map (\<lambda>u. (prev_vector_idx u, ub_block u)) (bins ! i)"
  by (simp add: skel_def)

section \<open>Operations that keep the core\<close>

lemma skel_upd_block:
  assumes "\<And>u. prev_vector_idx (f u) = prev_vector_idx u" "\<And>u. ub_block (f u) = ub_block u"
  shows "skel (m_block_pool (upd_block i j f p)) = skel (m_block_pool p)"
proof -
  let ?g = "\<lambda>u. (prev_vector_idx u, ub_block u)" and ?bins = "m_block_pool p"
  have *: "xs[n := xs ! n] = xs" for xs :: "'a list" and n by (cases "n < length xs") simp_all
  have "map ?g ((?bins ! i)[j := f (?bins ! i ! j)]) = map ?g (?bins ! i)"
    using assms * [of "map ?g (?bins ! i)" j]
    by (cases "j < length (?bins ! i)") (simp_all add: map_update not_less list_update_beyond)
  then show ?thesis
    using * [of "map (map ?g) ?bins" i]
    by (cases "i < length ?bins") (simp_all add: upd_block_def skel_def map_update not_less list_update_beyond)
qed

lemma core_upd_block:
  assumes "\<And>u. prev_vector_idx (f u) = prev_vector_idx u" "\<And>u. ub_block (f u) = ub_block u"
  shows "core (upd_block i j f p) = core p"
  using skel_upd_block [OF assms, of i j p] by (simp add: core_def) (simp add: upd_block_def)

lemma core_layered [simp]: "core (p\<lparr>m_layered_storage := ls\<rparr>) = core p"
  by (simp add: core_def)

lemma core_range [simp]: "core (p\<lparr>m_height_range_max := h\<rparr>) = core p"
  by (simp add: core_def)

lemma core_set_pool_storage [simp]: "core (set_pool_storage st p) = core p"
  by (simp add: set_pool_storage_def)

text \<open>Feeding the ledgers changes the layers of blocks and the ledgers only: whatever does not depend on these
  is kept.\<close>

locale ledger_frame =
  fixes E :: ext and view :: "UnresolvedBlockPool \<Rightarrow> 'v"
  assumes view_layer: "view (upd_block i j (\<lambda>u. u\<lparr>ub_block_layer := layer\<rparr>) p) = view p"
    and view_ledger: "procLedgerBlock E txs bid layer (m_layered_storage p) = Some ls \<Longrightarrow> view (p\<lparr>m_layered_storage := ls\<rparr>) = view p"
begin

lemma forward_at: "forwardBlockToLedgerAt E i j p = Some (l, p') \<Longrightarrow> view p' = view p"
  by (auto simp: forwardBlockToLedgerAt_def view_ledger split: option.splits Option.bind_splits)

lemma rec_to_ledger: "recBlockToLedger E n i prev layer p = Some p' \<Longrightarrow> view p' = view p"
proof (induction n arbitrary: i prev layer p p')
  case (Suc n)
  show ?case
  proof (cases "length (m_block_pool p) < i + 1")
    case False
    let ?f = "\<lambda>j (layer, p).
        let each_block = m_block_pool p ! i ! j
        in if prev_vector_idx each_block = int prev then do {
             let p1 = upd_block i j (\<lambda>u. u\<lparr>ub_block_layer := layer\<rparr>) p;
             let layer1 = getBlockIdB64 E (ub_block each_block) # layer;
             (_, p2) \<leftarrow> forwardBlockToLedgerAt E i j p1;
             p3 \<leftarrow> recBlockToLedger E n (i + 1) j layer1 p2;
             Some (layer1, p3) }
           else Some (layer, p)"
    obtain l where l: "fold_opt ?f [0..<length (m_block_pool p ! i)] (layer, p) = Some (l, p')"
      using Suc.prems False by auto
    have "view (snd (l, p')) = view p"
    proof (rule fold_opt_invariant [OF l, of "\<lambda>s. view (snd s) = view p"])
      fix j s s' assume s: "view (snd s) = view p" and f: "?f j s = Some s'"
      obtain ly q where sq: "s = (ly, q)" by (cases s)
      show "view (snd s') = view p"
        using f s unfolding sq
        by (auto simp: Let_def view_layer split: if_splits Option.bind_splits dest!: Suc.IH forward_at)
    qed simp
    then show ?thesis by simp
  qed (use Suc.prems in simp)
qed simp

lemma forward_from: "forwardBlocksToLedgerFrom E i j p = Some p' \<Longrightarrow> view p' = view p"
  by (auto simp: forwardBlocksToLedgerFrom_def split: option.splits Option.bind_splits
      dest!: rec_to_ledger forward_at)

end

interpretation core_frame: ledger_frame E core for E
  by unfold_locales (simp_all add: core_upd_block)

interpretation block_db_frame: ledger_frame E "\<lambda>p. block_dbs (pool_storage p)" for E
  by unfold_locales (auto simp: upd_block_def pool_storage_def dest: procLedgerBlock_frame)

lemma core_backupPool: "backupPool E p = Some p' \<Longrightarrow> core p' = core p"
  by (auto simp: backupPool_def Let_def split: Option.bind_splits)

lemma core_getLongestBlockPos: "core (snd (getLongestBlockPos p)) = core p"
  by (simp add: getLongestBlockPos_def core_def split: option.splits)

lemma core_getMostPossibleBlockLayer: "getMostPossibleBlockLayer E p = Some (l, p') \<Longrightarrow> core p' = core p"
  using core_getLongestBlockPos [of p]
  by (auto simp: getMostPossibleBlockLayer_def core_def Let_def split: option.splits prod.splits Option.bind_splits)

lemma core_invalidate [simp]: "core (invalidateCaches p) = core p"
  by (simp add: core_def invalidateCaches_def)

section \<open>Pushing on skeletons\<close>

definition wait_for :: "Block \<Rightarrow> nat \<Rightarrow> int \<times> Block \<Rightarrow> int \<times> Block" where
  "wait_for b n e = (if links_to (snd e) (m_block_id b) (m_block_hash b) \<and> fst e < 0 then (int n, snd e) else e)"

definition skel_push :: "Block \<Rightarrow> nat \<Rightarrow> int \<Rightarrow> skeleton \<Rightarrow> skeleton" where
  "skel_push b i q S =
     (let S1 = S[i := S ! i @ [(q, b)]]
      in if i + 1 < length S then S1[i + 1 := map (wait_for b (length (S ! i))) (S ! (i + 1))] else S1)"

lemma skel_update: "i < length bins \<Longrightarrow> skel (bins[i := bin]) = (skel bins)[i := map (\<lambda>u. (prev_vector_idx u, ub_block u)) bin]"
  by (simp add: skel_def map_update)

lemma skel_link_next:
  "map (\<lambda>u. (prev_vector_idx u, ub_block u)) (link_next b n bin) =
     map (wait_for b n) (map (\<lambda>u. (prev_vector_idx u, ub_block u)) bin)"
  by (auto simp: link_next_def wait_for_def links_to_def)

lemma push_at_core:
  assumes "push_at E b is_restore i q p = Some (res, p')" "i < length (m_block_pool p)"
  shows "core p' = (skel_push b i q (skel (m_block_pool p)), m_last_block_id p, m_last_hash p, m_last_height p)"
proof -
  let ?u = "\<lparr>prev_vector_idx = q, linked = False, confirm_level = 0, ub_block_layer = [], ub_block = b\<rparr>"
  let ?n = "length (m_block_pool p ! i)"
  let ?p1 = "p\<lparr>m_block_pool := (m_block_pool p)[i := m_block_pool p ! i @ [?u]]\<rparr>"
  let ?lk = "\<lambda>layer. if i = 0 then True else layer \<noteq> []"
  let ?p2 = "\<lambda>layer. upd_block i ?n (\<lambda>u. u\<lparr>ub_block_layer := layer, linked := ?lk layer\<rparr>) ?p1"
  let ?p4 = "\<lambda>p3. if i + 1 < length (m_block_pool p3)
        then p3\<lparr>m_block_pool := (m_block_pool p3)[i + 1 := link_next b ?n (m_block_pool p3 ! (i + 1))]\<rparr> else p3"
  let ?p6 = "\<lambda>p5. if m_height_range_max p5 < m_height b then p5\<lparr>m_height_range_max := m_height b\<rparr> else p5"
  have "\<exists>layer p3 p5 best p7.
    (if \<not> is_restore then backupPool E (?p2 layer) else Some (?p2 layer)) = Some p3 \<and>
    (if ?lk layer then forwardBlocksToLedgerFrom E i ?n (?p4 p3) else Some (?p4 p3)) = Some p5 \<and>
    getMostPossibleBlockLayer E (invalidateCaches (?p6 p5)) = Some (best, p7) \<and>
    p' = p7\<lparr>m_layered_storage := setBlockLayer best (m_layered_storage p7)\<rparr>"
    using assms(1) unfolding push_at_def Let_def bind_eq_Some_conv split_paired_Ex prod.case option.inject prod.inject
    by blast
  then obtain layer p3 p5 best p7 where steps:
    "(if \<not> is_restore then backupPool E (?p2 layer) else Some (?p2 layer)) = Some p3"
    "(if ?lk layer then forwardBlocksToLedgerFrom E i ?n (?p4 p3) else Some (?p4 p3)) = Some p5"
    "getMostPossibleBlockLayer E (invalidateCaches (?p6 p5)) = Some (best, p7)"
    "p' = p7\<lparr>m_layered_storage := setBlockLayer best (m_layered_storage p7)\<rparr>" by blast
  have c3: "core p3 = core ?p1"
    using steps(1) core_backupPool by (auto simp: core_upd_block split: if_splits)
  have "core p' = core p7" using steps(4) by simp
  also have "\<dots> = core p5" using core_getMostPossibleBlockLayer [OF steps(3)] by (auto split: if_splits)
  also have "\<dots> = core (?p4 p3)" using steps(2) core_frame.forward_from by (auto split: if_splits)
  finally have c: "core p' = core (?p4 p3)" .
  have S3: "skel (m_block_pool p3) = (skel (m_block_pool p))[i := skel (m_block_pool p) ! i @ [(q, b)]]"
    using c3 assms(2) by (simp add: core_def skel_update skel_nth)
  then have len: "length (m_block_pool p3) = length (m_block_pool p)" by (metis length_list_update skel_simps(1))
  have "skel (m_block_pool (?p4 p3)) = skel_push b i q (skel (m_block_pool p))"
    using assms(2) len
    by (auto simp: skel_push_def skel_update skel_link_next S3 skel_nth Let_def simp flip: skel_nth [of _ "m_block_pool p3"])
  then show ?thesis using c c3 by (auto simp: core_def split: if_splits)
qed

lemma skel_push_nth:
  assumes "i < length S" "j < length S"
  shows "skel_push b i q S ! j =
    (if j = i then S ! i @ [(q, b)] else if j = Suc i then map (wait_for b (length (S ! i))) (S ! j) else S ! j)"
  using assms by (auto simp: skel_push_def Let_def nth_list_update)

lemma length_skel_push [simp]: "length (skel_push b i q S) = length S"
  by (simp add: skel_push_def Let_def)

lemma snd_wait_for [simp]: "snd (wait_for b n e) = snd e"
  by (simp add: wait_for_def)

lemma parent_at_push:
  assumes "parent_at S lid lh j q' b'" "i < length S" "j < length S"
  shows "parent_at (skel_push b i q S) lid lh j q' b'"
proof (cases j)
  case (Suc k)
  then have "k < length S" "nat q' < length (S ! k)"
    "links_to b' (m_block_id (snd (S ! k ! nat q'))) (m_block_hash (snd (S ! k ! nat q')))"
    using assms(1,3) by (simp_all add: parent_at_def)
  then show ?thesis
    using Suc assms(2) by (auto simp: parent_at_def skel_push_nth nth_append)
qed (use assms in \<open>simp add: parent_at_def\<close>)

lemma has_parent_push:
  assumes "i < length S" "j < length S"
  shows "has_parent (skel_push b i q S) lid lh j b' \<longleftrightarrow>
    has_parent S lid lh j b' \<or> j = Suc i \<and> links_to b' (m_block_id b) (m_block_hash b)"
proof (cases j)
  case (Suc k)
  then show ?thesis
    using assms by (auto simp: has_parent_def skel_push_nth case_prod_unfold)
qed (simp add: has_parent_def)

lemma skel_push_inv:
  assumes inv: "skel_inv S lid lh h" and i: "i < length S" and hb: "m_height b = h + 1 + of_nat i"
    and q: "0 \<le> q \<Longrightarrow> parent_at S lid lh i q b" "q < 0 \<Longrightarrow> \<not> has_parent S lid lh i b"
    and new: "\<forall>e \<in> set (S ! i). m_block_hash (snd e) \<noteq> m_block_hash b"
  shows "skel_inv (skel_push b i q S) lid lh h"
proof -
  let ?S = "skel_push b i q S"
  have old: "entry_ok S lid lh h j e" if "j < length S" "e \<in> set (S ! j)" for j e
    using inv that by (simp add: skel_inv_def)
  have "entry_ok ?S lid lh h j e" if j: "j < length S" and e: "e \<in> set (?S ! j)" for j e
  proof -
    consider "j = i" "e = (q, b)" | "j \<noteq> Suc i" "e \<in> set (S ! j)"
      | e0 where "j = Suc i" "e0 \<in> set (S ! j)" "e = wait_for b (length (S ! i)) e0"
      using e j i by (auto simp: skel_push_nth split: if_splits)
    then show ?thesis
    proof cases
      case 1
      then show ?thesis
        using hb q parent_at_push [OF _ i i] has_parent_push [OF i i, of b q] by (auto simp: entry_ok_def)
    next
      case 2
      then show ?thesis
        using old [OF j 2(2)] parent_at_push [OF _ i j] has_parent_push [OF i j] by (auto simp: entry_ok_def)
    next
      case 3
      show ?thesis
      proof (cases "links_to (snd e0) (m_block_id b) (m_block_hash b) \<and> fst e0 < 0")
        case True
        then show ?thesis
          using old [OF j 3(2)] 3 i by (auto simp: entry_ok_def wait_for_def parent_at_def skel_push_nth)
      next
        case False
        then have "e = e0" using 3(3) by (auto simp: wait_for_def)
        then show ?thesis
          using old [OF j 3(2)] False parent_at_push [OF _ i j] has_parent_push [OF i j]
          by (auto simp: entry_ok_def)
      qed
    qed
  qed
  moreover have "distinct (map (m_block_hash \<circ> snd) bin)" if bin: "bin \<in> set ?S" for bin
  proof -
    obtain j where j: "j < length S" "bin = ?S ! j" using bin by (metis in_set_conv_nth length_skel_push)
    have "distinct (map (m_block_hash \<circ> snd) (S ! j))" using inv j(1) by (simp add: skel_inv_def)
    then show ?thesis using new i j by (auto simp: skel_push_nth comp_def)
  qed
  ultimately show ?thesis using inv by (simp add: skel_inv_def)
qed

section \<open>Pushing keeps the invariant\<close>

lemma find_prev_parent:
  assumes "0 < i" "i < length (m_block_pool p)"
  shows "0 \<le> find_prev b (m_block_pool p ! (i - 1)) \<Longrightarrow>
      parent_at (skel (m_block_pool p)) lid lh i (find_prev b (m_block_pool p ! (i - 1))) b"
    and "find_prev b (m_block_pool p ! (i - 1)) < 0 \<Longrightarrow> \<not> has_parent (skel (m_block_pool p)) lid lh i b"
proof -
  let ?bin = "m_block_pool p ! (i - 1)"
  have nth: "skel (m_block_pool p) ! (i - 1) = map (\<lambda>u. (prev_vector_idx u, ub_block u)) ?bin"
    using assms by (simp add: skel_nth)
  show "0 \<le> find_prev b ?bin \<Longrightarrow> parent_at (skel (m_block_pool p)) lid lh i (find_prev b ?bin) b"
    using assms(1) nth
    by (auto simp: find_prev_def parent_at_def links_to_def split: option.splits dest!: find_index_Some)
  show "find_prev b ?bin < 0 \<Longrightarrow> \<not> has_parent (skel (m_block_pool p)) lid lh i b"
    using assms(1) nth
    by (auto simp: find_prev_def has_parent_def links_to_def find_index_None split: option.splits)
qed

lemma skel_inv_grow:
  assumes "skel_inv S lid lh h" "unat h + length S + n < 2 ^ 64"
  shows "skel_inv (S @ replicate n []) lid lh h"
proof -
  have "(S @ replicate n []) ! i = (if i < length S then S ! i else [])" if "i < length S + n" for i
    using that by (auto simp: nth_append)
  moreover have "entry_ok (S @ replicate n []) lid lh h i e = entry_ok S lid lh h i e" if "i < length S" for i e
    using that by (auto simp: entry_ok_def parent_at_def has_parent_def nth_append)
  ultimately show ?thesis using assms by (auto simp: skel_inv_def split: if_splits)
qed

text \<open>A height less than \<open>2^31\<close> above the last one is put into the bin of that height.\<close>

lemma bin_of_regular:
  assumes "m_last_height p < h" "unat (h - m_last_height p) < 2 ^ 31"
  shows "0 \<le> bin_of h p" "h = m_last_height p + 1 + of_nat (nat (bin_of h p))"
    "unat (m_last_height p) + nat (bin_of h p) + 1 = unat h"
proof -
  have c: "cast_int (h - m_last_height p) = int (unat (h - m_last_height p))" by (rule cast_int_small [OF assms(2)])
  have d: "unat (h - m_last_height p) = unat h - unat (m_last_height p)" "unat (m_last_height p) < unat h"
    using assms(1) by (simp_all add: unat_sub word_less_nat_alt less_imp_le)
  have bo: "bin_of h p = int (unat h - unat (m_last_height p)) - 1" using c d(1) by (simp only: bin_of_def)
  show "0 \<le> bin_of h p" unfolding bo using d(2) by presburger
  show u: "unat (m_last_height p) + nat (bin_of h p) + 1 = unat h"
  proof -
    have "nat (int n - 1) = n - 1" for n :: nat by (cases n) auto
    then show ?thesis unfolding bo using d(2) by (simp only:)
  qed
  have "h = of_nat (unat (m_last_height p) + nat (bin_of h p) + 1)" by (simp only: u) simp
  then show "h = m_last_height p + 1 + of_nat (nat (bin_of h p))" by (simp add: ac_simps)
qed

lemma prepareBins_inv:
  assumes "prepareBins now h p = Some (ok, p')" "pool_inv p" "unat (h - m_last_height p) < 2 ^ 31"
  shows "pool_inv p'" "m_last_height p' = m_last_height p" "m_last_block_id p' = m_last_block_id p"
    "m_last_hash p' = m_last_hash p" "ok \<Longrightarrow> m_last_height p < h \<and> nat (bin_of h p) < length (m_block_pool p')"
proof -
  note [simp] = prepareBins_def Let_def
  show fields: "m_last_height p' = m_last_height p" "m_last_block_id p' = m_last_block_id p" "m_last_hash p' = m_last_hash p"
    using assms(1) by (auto split: if_splits)
  show "ok \<Longrightarrow> m_last_height p < h \<and> nat (bin_of h p) < length (m_block_pool p')"
    using assms(1) bin_of_regular(1) [of p h] assms(3) by (auto simp: not_le nat_less_iff split: if_splits)
  show "pool_inv p'"
  proof (cases "ok \<and> int (length (m_block_pool p)) < bin_of h p + 1")
    case True
    let ?n = "nat (bin_of h p + 1) - length (m_block_pool p)"
    from True have lt: "m_last_height p < h" and p': "m_block_pool p' = m_block_pool p @ replicate ?n []"
      using assms(1) by (auto split: if_splits)
    have b0: "0 \<le> bin_of h p" by (rule bin_of_regular(1) [OF lt assms(3)])
    then have "length (m_block_pool p) \<le> nat (bin_of h p)" using True by linarith
    then have "length (m_block_pool p) + ?n = nat (bin_of h p) + 1" using b0 by (simp add: nat_add_distrib)
    then have "unat (m_last_height p) + length (m_block_pool p) + ?n = unat h"
      using bin_of_regular(3) [OF lt assms(3)] by simp
    also have "\<dots> < 2 ^ 64" using unsigned_less [of h] by simp
    finally have "unat (m_last_height p) + length (skel (m_block_pool p)) + ?n < 2 ^ 64" by simp
    then have "skel_inv (skel (m_block_pool p) @ replicate ?n []) (m_last_block_id p) (m_last_hash p) (m_last_height p)"
      by (rule skel_inv_grow [OF assms(2) [unfolded pool_inv_def]])
    moreover have "skel (m_block_pool p') = skel (m_block_pool p) @ replicate ?n []" by (simp add: p' skel_def)
    ultimately show ?thesis by (simp only: pool_inv_def fields)
  next
    case False
    then have "p' = p" using assms(1) by (auto split: if_splits)
    with assms(2) show ?thesis by simp
  qed
qed

lemma push_inv:
  assumes "push E now b is_restore p = Some (res, p')" "pool_inv p" "unat (m_height b - m_last_height p) < 2 ^ 31"
  shows "pool_inv p'"
proof -
  let ?i = "nat (bin_of (m_height b) p)"
  obtain ok p1 where prep: "prepareBins now (m_height b) p = Some (ok, p1)"
    using assms(1) by (cases "prepareBins now (m_height b) p") (auto simp: push_def Let_def)
  note inv1 = prepareBins_inv [OF prep assms(2,3)]
  have step: "pool_inv p'" if "push_at E b is_restore ?i q p1 = Some (res, p')" "ok"
    "0 \<le> q \<Longrightarrow> parent_at (skel (m_block_pool p1)) (m_last_block_id p1) (m_last_hash p1) ?i q b"
    "q < 0 \<Longrightarrow> \<not> has_parent (skel (m_block_pool p1)) (m_last_block_id p1) (m_last_hash p1) ?i b"
    "\<not> (\<exists>each \<in> set (m_block_pool p1 ! ?i). block_eq (ub_block each) b)" for q
  proof -
    from inv1(5) [OF that(2)] have lt: "m_last_height p < m_height b" and i: "?i < length (m_block_pool p1)" by simp_all
    have "m_height b = m_last_height p1 + 1 + of_nat ?i"
      using bin_of_regular(2) [OF lt assms(3)] inv1(2) by simp
    moreover from this have "\<forall>e \<in> set (skel (m_block_pool p1) ! ?i). m_block_hash (snd e) \<noteq> m_block_hash b"
      using that(5) i inv1(1) by (auto simp: pool_inv_def skel_inv_def skel_nth entry_ok_def block_eq_def)
    ultimately have "skel_inv (skel_push b ?i q (skel (m_block_pool p1))) (m_last_block_id p1) (m_last_hash p1) (m_last_height p1)"
      using skel_push_inv inv1(1) i that(3,4) by (simp add: pool_inv_def)
    then show ?thesis using push_at_core [OF that(1) i] by (simp add: core_def pool_inv_def)
  qed
  show ?thesis
  proof (cases "ok \<and> 0 \<le> bin_of (m_height b) p")
    case True
    then have i: "?i < length (m_block_pool p1)" using inv1(5) by simp
    show ?thesis
      using assms(1) prep True inv1(1) step [of "find_prev b (m_block_pool p1 ! (?i - 1))"] step [of 0]
        find_prev_parent [OF _ i] 
      by (auto simp: push_def Let_def parent_at_def links_to_def split: if_splits)
  next
    case False
    then show ?thesis using assms(1) prep inv1(1) by (auto simp: push_def Let_def split: if_splits)
  qed
qed

end
