(* ===== verification/Pool_Chain.thy ===== *)
theory Pool_Chain
  imports Pool_Invariant
begin

text \<open>
  Chains of blocks in the unresolved block pool: what the resolved blocks form, how confirmation
  levels count signatures, and that the most possible block layer is a longest chain on top of the
  last resolved block.
\<close>

section \<open>Chains\<close>

text \<open>Blocks, the oldest first, that link one to the next from a given id and hash.\<close>

fun chain_ok :: "block_id_type \<Rightarrow> hash_t \<Rightarrow> Block list \<Rightarrow> bool" where
  "chain_ok i h [] = True"
| "chain_ok i h (b # bs) \<longleftrightarrow> links_to b i h \<and> chain_ok (m_block_id b) (m_block_hash b) bs"

lemma chain_ok_append:
  "chain_ok i h (bs @ [b]) \<longleftrightarrow> chain_ok i h bs \<and>
     (if bs = [] then links_to b i h else links_to b (m_block_id (last bs)) (m_block_hash (last bs)))"
  by (induction bs arbitrary: i h) auto

section \<open>Confirmation levels\<close>

text \<open>The signatures of a block and of everything above it that links to it.\<close>

fun subtree_sigs :: "UnresolvedBlock list list \<Rightarrow> nat \<Rightarrow> nat" where
  "subtree_sigs [] j = 0"
| "subtree_sigs (bin # bins) j =
     length (m_ssigs (ub_block (bin ! j))) +
     (case bins of [] \<Rightarrow> 0
      | nx # _ \<Rightarrow> (\<Sum>k \<leftarrow> [0..<length nx]. if prev_vector_idx (nx ! k) = int j then subtree_sigs bins k else 0))"

lemma skel_add_levels [simp]:
  "map (\<lambda>u. (prev_vector_idx u, ub_block u)) (add_levels upper bin) = map (\<lambda>u. (prev_vector_idx u, ub_block u)) bin"
proof -
  have *: "map (\<lambda>u. (prev_vector_idx u, ub_block u)) (xs[q := (xs ! q)\<lparr>confirm_level := c\<rparr>]) =
      map (\<lambda>u. (prev_vector_idx u, ub_block u)) xs" for xs q c
    by (cases "q < length xs") (auto simp: map_update list_update_beyond not_less list_update_same_conv)
  show ?thesis
    unfolding add_levels_def by (induction upper arbitrary: bin) (auto simp: * Let_def)
qed

lemma length_add_levels [simp]: "length (add_levels upper bin) = length bin"
  by (metis length_map skel_add_levels)

lemma add_levels_level:
  assumes "j < length bin"
  shows "confirm_level (add_levels upper bin ! j) =
    confirm_level (bin ! j) + (\<Sum>u \<leftarrow> upper. if prev_vector_idx u = int j then confirm_level u else 0)"
  using assms unfolding add_levels_def
  by (induction upper arbitrary: bin) (auto simp: Let_def nth_list_update)

lemma skel_confirm_bins [simp]: "skel (confirm_bins bins) = skel bins"
  by (induction bins rule: confirm_bins.induct) (auto simp: Let_def)

lemma core_updateConfirmLevel [simp]: "core (updateConfirmLevel p) = core p"
proof -
  have "skel (map (map (\<lambda>u. u\<lparr>confirm_level := length (m_ssigs (ub_block u))\<rparr>)) bins) = skel bins" for bins
    by (simp add: skel_def comp_def)
  then show ?thesis by (simp add: core_def updateConfirmLevel_def)
qed

text \<open>Positions in bins with the same skeleton hold the same block and index.\<close>

lemma skel_entry:
  assumes "skel bins = skel bins'" "i < length bins" "j < length (bins ! i)"
  shows "i < length bins'" "j < length (bins' ! i)" "prev_vector_idx (bins ! i ! j) = prev_vector_idx (bins' ! i ! j)"
    "ub_block (bins ! i ! j) = ub_block (bins' ! i ! j)"
proof -
  show l: "i < length bins'" using assms by (metis skel_simps(1))
  have eq: "map (\<lambda>u. (prev_vector_idx u, ub_block u)) (bins ! i) = map (\<lambda>u. (prev_vector_idx u, ub_block u)) (bins' ! i)"
    using assms(1) skel_nth [OF assms(2)] skel_nth [OF l] by simp
  then show l': "j < length (bins' ! i)" using assms(3) by (metis length_map)
  show "prev_vector_idx (bins ! i ! j) = prev_vector_idx (bins' ! i ! j)" "ub_block (bins ! i ! j) = ub_block (bins' ! i ! j)"
    using arg_cong [OF eq, of "\<lambda>xs. xs ! j"] assms(3) l' by simp_all
qed

lemma sum_list_index: "(\<Sum>x \<leftarrow> xs. f x) = (\<Sum>k \<leftarrow> [0..<length xs]. f (xs ! k))"
  by (rule arg_cong [of _ _ sum_list], rule nth_equalityI) auto

lemma confirm_bins_level:
  assumes "\<forall>bin \<in> set bins. \<forall>u \<in> set bin. confirm_level u = length (m_ssigs (ub_block u))"
    "bins \<noteq> []" "j < length (hd bins)"
  shows "confirm_level (hd (confirm_bins bins) ! j) = subtree_sigs bins j"
  using assms
proof (induction bins arbitrary: j rule: confirm_bins.induct)
  case (3 bin nx rest)
  let ?c = "confirm_bins (nx # rest)"
  have c: "skel ?c = skel (nx # rest)" by simp
  then obtain n' r' where n': "?c = n' # r'" by (cases ?c) auto
  have "map (\<lambda>u. (prev_vector_idx u, ub_block u)) n' = map (\<lambda>u. (prev_vector_idx u, ub_block u)) nx"
    using c unfolding n' by simp
  then have len: "length n' = length nx" by (rule map_eq_imp_length_eq)
  have "(\<Sum>u \<leftarrow> n'. if prev_vector_idx u = int j then confirm_level u else 0) =
      (\<Sum>k \<leftarrow> [0..<length n']. if prev_vector_idx (n' ! k) = int j then confirm_level (n' ! k) else 0)"
    by (rule sum_list_index)
  also have "\<dots> = (\<Sum>k \<leftarrow> [0..<length nx]. if prev_vector_idx (nx ! k) = int j then subtree_sigs (nx # rest) k else 0)"
  proof -
    have "(if prev_vector_idx (n' ! k) = int j then confirm_level (n' ! k) else 0) =
        (if prev_vector_idx (nx ! k) = int j then subtree_sigs (nx # rest) k else 0)" if "k < length nx" for k
      using "3.IH" [of k] "3.prems"(1) skel_entry(3) [OF c, of 0 k] that n' len by simp
    then show ?thesis using len by (intro arg_cong [of _ _ sum_list] map_cong) auto
  qed
  finally show ?case
    using "3.prems" n' by (simp add: Let_def add_levels_level)
qed auto

section \<open>Resolving\<close>

lemma best_confirm_spec:
  assumes "best_confirm us i hi idx = (h', r')"
  shows "(r' = idx \<and> h' = hi \<or> (\<exists>k < length us. r' = Some (i + k) \<and> prev_vector_idx (us ! k) = 0 \<and>
      confirm_level (us ! k) = h')) \<and> hi \<le> h' \<and>
    (\<forall>u \<in> set us. prev_vector_idx u = 0 \<longrightarrow> confirm_level u \<le> h')"
  using assms
proof (induction us arbitrary: i hi idx)
  case (Cons u us)
  show ?case
  proof (cases "prev_vector_idx u = 0 \<and> hi < confirm_level u")
    case True
    with Cons.prems have "best_confirm us (i + 1) (confirm_level u) (Some i) = (h', r')" by simp
    from Cons.IH [OF this] True show ?thesis by (auto simp: less_Suc_eq_0_disj)
  next
    case False
    with Cons.prems have "best_confirm us (i + 1) hi idx = (h', r')" by auto
    from Cons.IH [OF this] False show ?thesis by (auto simp: less_Suc_eq_0_disj)
  qed
qed auto

lemma pick_resolved_spec:
  assumes "pick_resolved (b0 # b1 # bins) = Some r"
  shows "r < length b0" "prev_vector_idx (b0 ! r) = 0" "BLOCK_CONFIRM_LEVEL \<le> confirm_level (b0 ! r)"
    "\<And>u. u \<in> set b0 \<Longrightarrow> prev_vector_idx u = 0 \<Longrightarrow> confirm_level u \<le> confirm_level (b0 ! r)"
    "\<exists>u \<in> set b1. prev_vector_idx u = int r"
proof -
  obtain h where h: "best_confirm b0 0 0 None = (h, Some r)" "BLOCK_CONFIRM_LEVEL \<le> h"
    "\<exists>u \<in> set b1. prev_vector_idx u = int r"
    using assms by (auto simp: pick_resolved_def split: if_splits prod.splits option.splits)
  from best_confirm_spec [OF h(1)] h(2) show "r < length b0" "prev_vector_idx (b0 ! r) = 0" "BLOCK_CONFIRM_LEVEL \<le> confirm_level (b0 ! r)"
    "\<And>u. u \<in> set b0 \<Longrightarrow> prev_vector_idx u = 0 \<Longrightarrow> confirm_level u \<le> confirm_level (b0 ! r)"
    by auto
  show "\<exists>u \<in> set b1. prev_vector_idx u = int r" by (rule h(3))
qed

definition relink_entry :: "Block \<Rightarrow> int \<times> Block \<Rightarrow> int \<times> Block" where
  "relink_entry b e = ((if links_to (snd e) (m_block_id b) (m_block_hash b) then 0 else - 1), snd e)"

lemma skel_relink:
  "map (\<lambda>u. (prev_vector_idx u, ub_block u)) (relink b bin) = map (relink_entry b) (map (\<lambda>u. (prev_vector_idx u, ub_block u)) bin)"
  by (simp add: relink_def relink_entry_def links_to_def)

text \<open>Removing the lowest bin after one of its blocks became the last one.\<close>

lemma skel_inv_resolve:
  assumes inv: "skel_inv (B0 # B1 # S) lid lh h" and b: "m_height b = h + 1"
  shows "skel_inv (map (relink_entry b) B1 # S) (m_block_id b) (m_block_hash b) (m_height b)"
proof -
  let ?S = "B0 # B1 # S" and ?S' = "map (relink_entry b) B1 # S"
  have up: "entry_ok ?S' (m_block_id b) (m_block_hash b) (m_height b) i e"
    if e: "entry_ok ?S lid lh h (Suc i) e" and i: "0 < i" "i < length ?S'" for i e
  proof -
    obtain k where k: "i = Suc k" using i(1) by (cases i) auto
    have *: "length (?S' ! k) = length (?S ! Suc k)" "\<And>n. n < length (?S ! Suc k) \<Longrightarrow> snd (?S' ! k ! n) = snd (?S ! Suc k ! n)"
      by (cases k; simp add: relink_entry_def)+
    have "has_parent ?S' (m_block_id b) (m_block_hash b) i x = has_parent ?S lid lh (Suc i) x" for x
      unfolding k has_parent_def by (cases k) (auto simp: relink_entry_def case_prod_unfold)
    then show ?thesis
      using e b * unfolding entry_ok_def parent_at_def k by (auto simp: ac_simps)
  qed
  have "entry_ok ?S' (m_block_id b) (m_block_hash b) (m_height b) i e" if i: "i < length ?S'" and e: "e \<in> set (?S' ! i)" for i e
  proof (cases "i = 0")
    case True
    then obtain e0 where "e0 \<in> set B1" "e = relink_entry b e0" using e by auto
    moreover have "entry_ok ?S lid lh h (Suc 0) e0"
      using inv calculation(1) by (auto simp: skel_inv_def dest!: spec [of _ "Suc 0"])
    ultimately show ?thesis
      using True b by (auto simp: entry_ok_def relink_entry_def parent_at_def has_parent_def split: if_splits)
  next
    case False
    have "entry_ok ?S lid lh h (Suc i) e"
      using inv i e False by (cases i) (auto simp: skel_inv_def)
    from up [OF this] False i show ?thesis by simp
  qed
  moreover have "unat (m_height b) + length ?S' < 2 ^ 64"
  proof -
    have "unat (h + 1) \<le> unat h + 1" by (simp add: unat_word_ariths(1))
    with inv b show ?thesis by (simp add: skel_inv_def)
  qed
  moreover have "distinct (map (m_block_hash \<circ> snd) bin)" if "bin \<in> set ?S'" for bin
    using inv that by (auto simp: skel_inv_def relink_entry_def comp_def)
  ultimately show ?thesis by (simp add: skel_inv_def)
qed

lemma resolve_step_inv:
  assumes "resolveBlocksStepByStep E p = (p', Some (u, drops))" "pool_inv p"
  shows "pool_inv p'" "links_to (ub_block u) (m_last_block_id p) (m_last_hash p)"
    "m_height (ub_block u) = m_last_height p + 1"
    "m_last_block_id p' = m_block_id (ub_block u)" "m_last_hash p' = m_block_hash (ub_block u)"
    "m_last_height p' = m_height (ub_block u)" "BLOCK_CONFIRM_LEVEL \<le> confirm_level u"
proof -
  obtain r b0 b1 bins where st: "m_block_pool (updateConfirmLevel p) = b0 # b1 # bins"
    "pick_resolved (b0 # b1 # bins) = Some r" "u = b0 ! r"
    "p' = resolve_at (ub_block u) (updateConfirmLevel p)" "m_block_pool p' = relink (ub_block u) b1 # bins"
    using resolve_step_SomeE [OF assms(1)] by metis
  note pick = pick_resolved_spec [OF st(2)]
  have c: "core (updateConfirmLevel p) = core p" by simp
  then have inv: "skel_inv (skel (b0 # b1 # bins)) (m_last_block_id p) (m_last_hash p) (m_last_height p)"
    using assms(2) st(1) by (simp add: pool_inv_def core_def)
  have "(0, ub_block u) \<in> set (skel (b0 # b1 # bins) ! 0)"
    using pick(1,2) st(3) by (force simp: image_iff in_set_conv_nth)
  then have e: "entry_ok (skel (b0 # b1 # bins)) (m_last_block_id p) (m_last_hash p) (m_last_height p) 0 (0, ub_block u)"
    using inv unfolding skel_inv_def by (metis length_greater_0_conv list.distinct(1) skel_simps(1))
  then show h: "m_height (ub_block u) = m_last_height p + 1" and "links_to (ub_block u) (m_last_block_id p) (m_last_hash p)"
    by (simp_all add: entry_ok_def parent_at_def)
  show f: "m_last_block_id p' = m_block_id (ub_block u)" "m_last_hash p' = m_block_hash (ub_block u)"
    "m_last_height p' = m_height (ub_block u)"
    using st(4) by (simp_all add: resolve_at_def)
  have "skel_inv (map (relink_entry (ub_block u)) (map (\<lambda>u. (prev_vector_idx u, ub_block u)) b1) # skel bins)
      (m_block_id (ub_block u)) (m_block_hash (ub_block u)) (m_height (ub_block u))"
    using skel_inv_resolve [OF inv [unfolded skel_simps(3)] h] by simp
  then show "pool_inv p'" unfolding pool_inv_def f st(5) by (simp add: skel_relink)
  show "BLOCK_CONFIRM_LEVEL \<le> confirm_level u" using pick(3) st(3) by simp
qed

lemma resolve_step_None: "resolveBlocksStepByStep E p = (p', None) \<Longrightarrow> p' = updateConfirmLevel p"
  by (auto simp: resolveBlocksStepByStep_def Let_def split: option.splits)

text \<open>The heights of consecutive blocks above a height.\<close>

definition heights_from :: "u64 \<Rightarrow> Block list \<Rightarrow> bool" where
  "heights_from h bs \<longleftrightarrow> (\<forall>k < length bs. m_height (bs ! k) = h + 1 + of_nat k)"

lemma heights_from_Cons: "heights_from h (b # bs) \<longleftrightarrow> m_height b = h + 1 \<and> heights_from (h + 1) bs"
proof -
  have "h + 1 + (1 + of_nat k) = h + 1 + 1 + of_nat k" for k by (simp add: ac_simps)
  then show ?thesis by (auto simp: heights_from_def less_Suc_eq_0_disj nth_Cons' ac_simps)
qed

lemma resolve_loop_spec:
  assumes "resolve_loop E p rs0 ds0 = (p', rs, ds)" "pool_inv p"
  shows "\<exists>new. rs = rs0 @ new \<and> pool_inv p' \<and>
    chain_ok (m_last_block_id p) (m_last_hash p) (map ub_block new) \<and>
    heights_from (m_last_height p) (map ub_block new) \<and>
    (\<forall>u \<in> set new. BLOCK_CONFIRM_LEVEL \<le> confirm_level u) \<and>
    (new = [] \<longrightarrow> core p' = core p) \<and>
    (new \<noteq> [] \<longrightarrow> m_last_block_id p' = m_block_id (ub_block (last new)) \<and> m_last_hash p' = m_block_hash (ub_block (last new)) \<and>
       m_last_height p' = m_height (ub_block (last new))) \<and>
    length (m_block_pool p) = length (m_block_pool p') + length new"
  using assms
proof (induction E p rs0 ds0 rule: resolve_loop.induct)
  case (1 E p rs0 ds0)
  obtain q r where step: "resolveBlocksStepByStep E p = (q, r)" by (cases "resolveBlocksStepByStep E p")
  show ?case
  proof (cases r)
    case None
    with "1.prems" step have "p' = updateConfirmLevel p" "rs = rs0"
      by (auto simp: resolve_loop.simps [of E p] dest: resolve_step_None)
    then show ?thesis
      using "1.prems"(2) pool_inv_core [of p' p] by (intro exI [of _ "[]"]) (simp add: heights_from_def)
  next
    case (Some ud)
    obtain u d where ud: "ud = (u, d)" by (cases ud)
    have rec: "resolve_loop E q (rs0 @ [u]) (ds0 @ d) = (p', rs, ds)"
      using "1.prems"(1) step Some ud by (simp add: resolve_loop.simps [of E p])
    note inv = resolve_step_inv [OF step [unfolded Some ud] "1.prems"(2)]
    from "1.IH" [OF step [symmetric] Some ud [symmetric] rec inv(1)]
    obtain new where new: "rs = (rs0 @ [u]) @ new" "pool_inv p'" "chain_ok (m_last_block_id q) (m_last_hash q) (map ub_block new)"
      "heights_from (m_last_height q) (map ub_block new)" "\<forall>u \<in> set new. BLOCK_CONFIRM_LEVEL \<le> confirm_level u"
      "new = [] \<longrightarrow> core p' = core q"
      "new \<noteq> [] \<longrightarrow> m_last_block_id p' = m_block_id (ub_block (last new)) \<and> m_last_hash p' = m_block_hash (ub_block (last new)) \<and>
       m_last_height p' = m_height (ub_block (last new))"
      "length (m_block_pool q) = length (m_block_pool p') + length new" by blast
    then show ?thesis
      using inv resolve_step_shrinks [OF step [unfolded Some]]
      by (intro exI [of _ "u # new"]) (auto simp: heights_from_Cons core_def)
  qed
qed

section \<open>The longest chain\<close>

text \<open>The entry at height \<open>k\<close>, position \<open>j\<close> is reached from predecessor index \<open>prev\<close> below the lowest bin.\<close>

fun conn :: "UnresolvedBlock list list \<Rightarrow> nat \<Rightarrow> nat \<Rightarrow> nat \<Rightarrow> bool" where
  "conn [] prev k j = False"
| "conn (bin # bins) prev 0 j \<longleftrightarrow> j < length bin \<and> prev_vector_idx (bin ! j) = int prev"
| "conn (bin # bins) prev (Suc k) j \<longleftrightarrow> (\<exists>i < length bin. prev_vector_idx (bin ! i) = int prev \<and> conn bins i k j)"

lemma conn_range: "conn bins prev k j \<Longrightarrow> k < length bins \<and> j < length (bins ! k)"
  by (induction bins prev k j rule: conn.induct) auto

lemma conn_Suc:
  "conn bins prev (Suc k) j \<longleftrightarrow> Suc k < length bins \<and> j < length (bins ! Suc k) \<and>
     (\<exists>i. conn bins prev k i \<and> prev_vector_idx (bins ! Suc k ! j) = int i)"
proof (induction k arbitrary: bins prev)
  case 0
  show ?case by (cases bins; cases "tl bins") auto
next
  case (Suc k)
  show ?case
  proof (cases bins)
    case (Cons bin rest)
    then show ?thesis using Suc.IH [of rest] by auto
  qed simp
qed

lemma eq_or_trans: "a = b \<or> Q a \<Longrightarrow> b = c \<or> Q b \<Longrightarrow> c = d \<or> Q c \<Longrightarrow> a = d \<or> Q a"
  by auto

text \<open>The search result: the start or a reached position, not below any reached position.\<close>

definition found_at :: "UnresolvedBlock list list \<Rightarrow> nat \<Rightarrow> u64 \<Rightarrow> BlockPosOnMap \<Rightarrow> bool" where
  "found_at bins prev H pos \<longleftrightarrow> (\<exists>k j. conn bins prev k j \<and> pos = (H + of_nat k, j))"

lemma found_at_up:
  assumes "found_at bins i (H + 1) pos" "i < length bin" "prev_vector_idx (bin ! i) = int prev"
  shows "found_at (bin # bins) prev H pos"
proof -
  obtain k j where "conn bins i k j" "pos = (H + 1 + of_nat k, j)" using assms(1) by (auto simp: found_at_def)
  then have "conn (bin # bins) prev (Suc k) j" "pos = (H + of_nat (Suc k), j)" using assms(2,3) by (auto simp: ac_simps)
  then show ?thesis unfolding found_at_def by blast
qed

definition above_all :: "UnresolvedBlock list list \<Rightarrow> nat \<Rightarrow> u64 \<Rightarrow> BlockPosOnMap \<Rightarrow> bool" where
  "above_all bins prev H pos \<longleftrightarrow> (\<forall>k j. conn bins prev k j \<longrightarrow> H + of_nat k \<le> fst pos)"

lemma above_all_mono: "above_all bins i H r \<Longrightarrow> fst r \<le> fst r' \<Longrightarrow> above_all bins i H r'"
  by (auto simp: above_all_def dest: order_trans)

lemma search_spec:
  assumes "\<forall>k < length bins. \<forall>u \<in> set (bins ! k). m_height (ub_block u) = H + of_nat k"
  shows "fst pos \<le> fst (recSearchLongestLinkPos bins prev pos) \<and>
    (recSearchLongestLinkPos bins prev pos = pos \<or> found_at bins prev H (recSearchLongestLinkPos bins prev pos)) \<and>
    above_all bins prev H (recSearchLongestLinkPos bins prev pos)"
  using assms
proof (induction bins arbitrary: prev pos H)
  case Nil
  then show ?case by (simp add: above_all_def)
next
  case (Cons bin bins)
  let ?f = "\<lambda>i pos. if prev_vector_idx (bin ! i) = int prev
       then recSearchLongestLinkPos bins i (relax_pos (m_height (ub_block (bin ! i))) i pos) else pos"
  let ?P = "\<lambda>n r. fst pos \<le> fst r \<and> (r = pos \<or> found_at (bin # bins) prev H r) \<and>
    (\<forall>i < n. prev_vector_idx (bin ! i) = int prev \<longrightarrow> H \<le> fst r \<and> above_all bins i (H + 1) r)"
  have hs: "\<forall>k < length bins. \<forall>u \<in> set (bins ! k). m_height (ub_block u) = H + 1 + of_nat k"
    using Cons.prems by (force simp: ac_simps)
  have "?P n (fold ?f [0..<n] pos)" if "n \<le> length bin" for n
    using that
  proof (induction n)
    case (Suc n)
    define r where "r = fold ?f [0..<n] pos"
    have r: "?P n r" and n: "n < length bin" using Suc unfolding r_def by auto
    have h: "m_height (ub_block (bin ! n)) = H" using Cons.prems n by auto
    show ?case
    proof (cases "prev_vector_idx (bin ! n) = int prev")
      case True
      define x where "x = relax_pos H n r"
      define r' where "r' = recSearchLongestLinkPos bins n x"
      have "conn (bin # bins) prev 0 n" using True n by simp
      then have "found_at (bin # bins) prev H (H, n)" unfolding found_at_def by (intro exI [of _ 0] exI [of _ n]) simp
      then have x: "fst r \<le> fst x" "H \<le> fst x" "x = r \<or> found_at (bin # bins) prev H x"
        by (auto simp: relax_pos_def x_def)
      have rec: "fst x \<le> fst r'" "r' = x \<or> found_at (bin # bins) prev H r'" "above_all bins n (H + 1) r'"
        using Cons.IH [OF hs, of x n] found_at_up [OF _ n True] unfolding r'_def by blast+
      have "r' = pos \<or> found_at (bin # bins) prev H r'" using eq_or_trans [OF rec(2) x(3)] r by blast
      moreover have le: "fst r \<le> fst r'" "H \<le> fst r'" using rec(1) x(1,2) by (meson order_trans)+
      moreover have "fold ?f [0..<Suc n] pos = r'" using True h unfolding r'_def x_def r_def by simp
      ultimately show ?thesis
        using r rec(3) by (auto simp: less_Suc_eq intro: order_trans above_all_mono)
    next
      case False
      then have "fold ?f [0..<Suc n] pos = r" unfolding r_def by simp
      with r False show ?thesis by (auto simp: less_Suc_eq)
    qed
  qed simp
  from this [of "length bin"] have P: "?P (length bin) (recSearchLongestLinkPos (bin # bins) prev pos)" by simp
  then have "above_all (bin # bins) prev H (recSearchLongestLinkPos (bin # bins) prev pos)"
    unfolding above_all_def
  proof (intro allI impI)
    fix k j assume "conn (bin # bins) prev k j"
    with P show "H + of_nat k \<le> fst (recSearchLongestLinkPos (bin # bins) prev pos)"
      by (cases k) (auto simp: above_all_def ac_simps)
  qed
  with P show ?case by blast
qed

text \<open>A position that is reached from the last block is the end of a chain, whose ids a walk down
  the indices collects.\<close>

definition in_bins :: "UnresolvedBlock list list \<Rightarrow> Block list \<Rightarrow> bool" where
  "in_bins bins bs \<longleftrightarrow> (\<forall>m < length bs. m < length bins \<and> bs ! m \<in> ub_block ` set (bins ! m))"

lemma in_binsE:
  assumes "in_bins bins bs" "m < length bs"
  obtains j where "m < length bins" "j < length (bins ! m)" "ub_block (bins ! m ! j) = bs ! m"
proof -
  have "m < length bins" "bs ! m \<in> ub_block ` set (bins ! m)" using assms by (simp_all add: in_bins_def)
  moreover from this obtain u where "u \<in> set (bins ! m)" "ub_block u = bs ! m" by auto
  moreover from this obtain j where "j < length (bins ! m)" "bins ! m ! j = u" by (metis in_set_conv_nth)
  ultimately show ?thesis using that by auto
qed

lemma skel_entry_ok:
  assumes "skel_inv (skel bins) lid lh h" "i < length bins" "j < length (bins ! i)"
  shows "entry_ok (skel bins) lid lh h i (prev_vector_idx (bins ! i ! j), ub_block (bins ! i ! j))"
  using assms by (auto simp: skel_inv_def skel_nth)

lemma skel_nth_nth:
  "i < length bins \<Longrightarrow> j < length (bins ! i) \<Longrightarrow> skel bins ! i ! j = (prev_vector_idx (bins ! i ! j), ub_block (bins ! i ! j))"
  by (simp add: skel_nth)

lemma conn_chain:
  assumes inv: "skel_inv (skel bins) lid lh h" and "conn bins 0 k j"
  shows "\<exists>bs. walk_ids E bins k (int j) = Some (map (getBlockIdB64 E) (rev bs)) \<and> length bs = Suc k \<and>
    chain_ok lid lh bs \<and> last bs = ub_block (bins ! k ! j) \<and> in_bins bins bs"
  using assms(2)
proof (induction k arbitrary: j)
  case 0
  then have r: "0 < length bins" "j < length (bins ! 0)" "prev_vector_idx (bins ! 0 ! j) = 0"
    using conn_range [OF 0] by (cases bins; simp)+
  have "links_to (ub_block (bins ! 0 ! j)) lid lh"
    using skel_entry_ok [OF inv r(1,2)] r(3) by (simp add: entry_ok_def parent_at_def)
  then show ?case
    using r by (intro exI [of _ "[ub_block (bins ! 0 ! j)]"]) (auto simp: block_at_def in_bins_def walk_ids.simps [of E bins 0])
next
  case (Suc k)
  then obtain i where i: "Suc k < length bins" "j < length (bins ! Suc k)" "conn bins 0 k i"
    "prev_vector_idx (bins ! Suc k ! j) = int i"
    using conn_Suc by metis
  let ?b = "ub_block (bins ! Suc k ! j)"
  obtain bs where bs: "walk_ids E bins k (int i) = Some (map (getBlockIdB64 E) (rev bs))" "length bs = Suc k"
    "chain_ok lid lh bs" "last bs = ub_block (bins ! k ! i)" "in_bins bins bs"
    using Suc.IH [OF i(3)] by blast
  have "links_to ?b (m_block_id (ub_block (bins ! k ! i))) (m_block_hash (ub_block (bins ! k ! i)))"
    using skel_entry_ok [OF inv i(1,2)] i(4) conn_range [OF i(3)] by (simp add: entry_ok_def parent_at_def skel_nth_nth)
  then have "chain_ok lid lh (bs @ [?b])" using bs(2-4) by (auto simp: chain_ok_append)
  moreover have "walk_ids E bins (Suc k) (int j) = Some (map (getBlockIdB64 E) (rev (bs @ [?b])))"
    using i(1,2,4) bs(1) by (simp add: block_at_def walk_ids.simps [of E bins "Suc k"])
  moreover have "in_bins bins (bs @ [?b])"
    using bs(2,5) i(1,2) by (auto simp: in_bins_def nth_append less_Suc_eq)
  ultimately show ?case using bs(2) by (intro exI [of _ "bs @ [?b]"]) auto
qed

text \<open>Conversely, every chain of blocks in the bins is found through the indices.\<close>

lemma chain_links_nth:
  "chain_ok i h bs \<Longrightarrow> Suc m < length bs \<Longrightarrow> links_to (bs ! Suc m) (m_block_id (bs ! m)) (m_block_hash (bs ! m))"
proof (induction bs arbitrary: i h m)
  case (Cons b bs)
  then show ?case by (cases m; cases bs) auto
qed simp

lemma chain_conn:
  assumes inv: "skel_inv (skel bins) lid lh h" and chain: "chain_ok lid lh bs" "in_bins bins bs" and m: "m < length bs"
  shows "\<exists>j. conn bins 0 m j \<and> ub_block (bins ! m ! j) = bs ! m"
  using m
proof (induction m)
  case 0
  then obtain j where j: "0 < length bins" "j < length (bins ! 0)" "ub_block (bins ! 0 ! j) = bs ! 0"
    using in_binsE [OF chain(2)] by metis
  have "links_to (bs ! 0) lid lh" using chain(1) 0 by (cases bs) auto
  then have "prev_vector_idx (bins ! 0 ! j) = 0"
    using skel_entry_ok [OF inv j(1,2)] j(3) by (auto simp: entry_ok_def parent_at_def has_parent_def)
  then show ?case using j by (intro exI [of _ j]) (cases bins; simp)
next
  case (Suc m)
  then obtain i where i: "conn bins 0 m i" "ub_block (bins ! m ! i) = bs ! m" by auto
  note ir = conn_range [OF i(1)]
  obtain j where j: "Suc m < length bins" "j < length (bins ! Suc m)" "ub_block (bins ! Suc m ! j) = bs ! Suc m"
    using in_binsE [OF chain(2) Suc.prems] by metis
  let ?q = "prev_vector_idx (bins ! Suc m ! j)"
  have links: "links_to (bs ! Suc m) (m_block_id (bs ! m)) (m_block_hash (bs ! m))"
    by (rule chain_links_nth [OF chain(1) Suc.prems])
  have "skel bins ! m ! i \<in> set (skel bins ! m)" using ir by (simp add: skel_nth)
  then have "has_parent (skel bins) lid lh (Suc m) (bs ! Suc m)"
    using links i(2) ir by (auto simp: has_parent_def skel_nth_nth intro!: bexI [of _ "skel bins ! m ! i"])
  then have q: "0 \<le> ?q" "nat ?q < length (bins ! m)"
    "links_to (bs ! Suc m) (m_block_id (ub_block (bins ! m ! nat ?q))) (m_block_hash (ub_block (bins ! m ! nat ?q)))"
    using skel_entry_ok [OF inv j(1,2)] j(3) ir by (auto simp: entry_ok_def parent_at_def skel_nth_nth skel_nth)
  have "distinct (map (m_block_hash \<circ> snd) (skel bins ! m))" using inv ir by (simp add: skel_inv_def)
  then have "distinct (map (m_block_hash \<circ> ub_block) (bins ! m))" using ir by (simp add: skel_nth comp_def)
  moreover have "(map (m_block_hash \<circ> ub_block) (bins ! m)) ! nat ?q = (map (m_block_hash \<circ> ub_block) (bins ! m)) ! i"
    using q links i(2) ir by (simp add: links_to_def)
  ultimately have "nat ?q = i" using q(2) ir by (metis length_map nth_eq_iff_index_eq)
  then have "conn bins 0 (Suc m) j" using conn_Suc i(1) j(1,2) q(1) by auto
  with j(3) show ?case by blast
qed

section \<open>The most possible block layer\<close>


lemma bin_of_above:
  assumes "k < 2 ^ 31 - 1"
  shows "bin_of (m_last_height p + 1 + of_nat k) p = int k"
proof -
  have "m_last_height p + 1 + of_nat k - m_last_height p = (of_nat (Suc k) :: u64)" by simp
  moreover have "unat (of_nat (Suc k) :: u64) = Suc k" using assms by (intro u64_of_nat) simp
  moreover have "cast_int (of_nat (Suc k)) = int (Suc k)"
    using assms calculation(2) cast_int_small [of "of_nat (Suc k)"] by simp
  ultimately show ?thesis unfolding bin_of_def by simp
qed

lemma unat_height:
  "unat (h :: u64) + n < 2 ^ 64 \<Longrightarrow> k < n \<Longrightarrow> unat (h + 1 + of_nat k) = unat h + 1 + k"
  using unat_plus_of_nat [of h "Suc k"] by (simp add: algebra_simps)

lemma height_order:
  assumes "unat h + n < 2 ^ 64" "k < n" "k' < n" "(h :: u64) + 1 + of_nat k \<le> h + 1 + of_nat k'"
  shows "k \<le> k'"
  using assms unat_height [OF assms(1,2)] unat_height [OF assms(1,3)] by (simp add: word_le_nat_alt)

lemma pool_heights:
  assumes "pool_inv p"
  shows "\<forall>k < length (m_block_pool p). \<forall>u \<in> set (m_block_pool p ! k). m_height (ub_block u) = m_last_height p + 1 + of_nat k"
  using assms by (auto simp: pool_inv_def skel_inv_def skel_nth entry_ok_def)

text \<open>The longest position is where a longest chain ends.\<close>

lemma longest_pos_spec:
  assumes "pool_inv p"
  shows "(\<forall>k j. \<not> conn (m_block_pool p) 0 k j) \<and> longest_pos p = (0, 0) \<or>
    (\<exists>k j. conn (m_block_pool p) 0 k j \<and> longest_pos p = (m_last_height p + 1 + of_nat k, j) \<and>
       (\<forall>k' j'. conn (m_block_pool p) 0 k' j' \<longrightarrow> k' \<le> k))"
proof -
  let ?bins = "m_block_pool p" and ?H = "m_last_height p + 1"
  have sz: "unat (m_last_height p) + length ?bins < 2 ^ 64" using assms by (simp add: pool_inv_def skel_inv_def)
  note spec = search_spec [OF pool_heights [OF assms], of "(0, 0)" 0, folded longest_pos_def]
  have pos: "?H + of_nat k \<noteq> 0" if "k < length ?bins" for k
    using unat_height [OF sz that] by (metis Suc_eq_plus1 add_Suc nat.distinct(1) unat_0)
  show ?thesis
  proof (cases "found_at ?bins 0 ?H (longest_pos p)")
    case True
    then obtain k j where kj: "conn ?bins 0 k j" "longest_pos p = (?H + of_nat k, j)" by (auto simp: found_at_def)
    have "k' \<le> k" if c: "conn ?bins 0 k' j'" for k' j'
    proof (rule height_order [OF sz])
      show "k' < length ?bins" "k < length ?bins" using conn_range [OF c] conn_range [OF kj(1)] by simp_all
      show "m_last_height p + 1 + of_nat k' \<le> m_last_height p + 1 + of_nat k"
        using spec c kj(2) unfolding above_all_def by (metis fst_conv)
    qed
    with kj show ?thesis by blast
  next
    case False
    with spec have l: "longest_pos p = (0, 0)" by blast
    have "\<not> conn ?bins 0 k j" for k j
    proof
      assume c: "conn ?bins 0 k j"
      then have "?H + of_nat k \<le> 0" using spec l unfolding above_all_def by (metis fst_conv)
      then have "?H + of_nat k = 0" by (simp only: word_le_0_iff)
      with pos conn_range [OF c] show False by blast
    qed
    with l show ?thesis by blast
  qed
qed

text \<open>The same in terms of chains: there is a longest chain of pool blocks, and the longest position is
  where it ends.\<close>

definition longest_chain :: "UnresolvedBlockPool \<Rightarrow> Block list \<Rightarrow> bool" where
  "longest_chain p bs \<longleftrightarrow> chain_ok (m_last_block_id p) (m_last_hash p) bs \<and> in_bins (m_block_pool p) bs \<and>
     (\<forall>cs. chain_ok (m_last_block_id p) (m_last_hash p) cs \<and> in_bins (m_block_pool p) cs \<longrightarrow> length cs \<le> length bs)"

lemma longest_chain_pos:
  assumes "pool_inv p"
  obtains bs where "longest_chain p bs" "bs = []" "longest_pos p = (0, 0)"
  | bs k j where "longest_chain p bs" "length bs = Suc k" "k < length (m_block_pool p)" "j < length (m_block_pool p ! k)"
    "last bs = ub_block (m_block_pool p ! k ! j)" "longest_pos p = (m_last_height p + 1 + of_nat k, j)"
    "walk_ids E (m_block_pool p) k (int j) = Some (map (getBlockIdB64 E) (rev bs))"
proof -
  let ?bins = "m_block_pool p"
  have inv: "skel_inv (skel ?bins) (m_last_block_id p) (m_last_hash p) (m_last_height p)"
    using assms by (simp add: pool_inv_def)
  have long: "\<exists>j. conn ?bins 0 (length cs - 1) j"
    if "chain_ok (m_last_block_id p) (m_last_hash p) cs" "in_bins ?bins cs" "cs \<noteq> []" for cs
    using chain_conn [OF inv that(1,2), of "length cs - 1"] that(3) by auto
  from longest_pos_spec [OF assms] show thesis
  proof (elim disjE exE conjE)
    assume none: "\<forall>k j. \<not> conn ?bins 0 k j" and l: "longest_pos p = (0, 0)"
    with long have "longest_chain p []" by (fastforce simp: longest_chain_def in_bins_def)
    with l that(1) show thesis by blast
  next
    fix k j assume kj: "conn ?bins 0 k j" "longest_pos p = (m_last_height p + 1 + of_nat k, j)"
      and max: "\<forall>k' j'. conn ?bins 0 k' j' \<longrightarrow> k' \<le> k"
    obtain bs where bs: "walk_ids E ?bins k (int j) = Some (map (getBlockIdB64 E) (rev bs))" "length bs = Suc k"
      "chain_ok (m_last_block_id p) (m_last_hash p) bs" "last bs = ub_block (?bins ! k ! j)" "in_bins ?bins bs"
      using conn_chain [OF inv kj(1)] by blast
    have "length cs \<le> length bs"
      if cs: "chain_ok (m_last_block_id p) (m_last_hash p) cs" "in_bins ?bins cs" for cs
    proof (cases "cs = []")
      case False
      from long [OF cs this] max have "length cs - 1 \<le> k" by blast
      with bs(2) show ?thesis by simp
    qed simp
    with bs have "longest_chain p bs" by (simp add: longest_chain_def)
    with that(2) bs kj(2) conn_range [OF kj(1)] show thesis by blast
  qed
qed

lemma subtree_sigs_map:
  assumes "\<And>u. prev_vector_idx (f u) = prev_vector_idx u" "\<And>u. ub_block (f u) = ub_block u"
    "bins \<noteq> []" "j < length (hd bins)"
  shows "subtree_sigs (map (map f) bins) j = subtree_sigs bins j"
  using assms(3,4)
proof (induction bins arbitrary: j)
  case step: (Cons bin bins)
  show ?case
  proof (cases bins)
    case (Cons nx rest)
    have "(if prev_vector_idx (map f nx ! k) = int j then subtree_sigs (map f nx # map (map f) rest) k else 0) =
        (if prev_vector_idx (nx ! k) = int j then subtree_sigs (nx # rest) k else 0)" if "k < length nx" for k
      using step.IH [of k] that Cons assms(1) by simp
    then have "map (\<lambda>k. if prev_vector_idx (map f nx ! k) = int j then subtree_sigs (map f nx # map (map f) rest) k else 0) [0..<length nx] =
        map (\<lambda>k. if prev_vector_idx (nx ! k) = int j then subtree_sigs (nx # rest) k else 0) [0..<length nx]"
      by (intro map_cong) auto
    note sums = arg_cong [OF this, of sum_list]
    show ?thesis using step.prems assms(2) sums Cons
      by (simp del: map_eq_conv subtree_sigs.simps add: subtree_sigs.simps(2) [of bin] subtree_sigs.simps(2) [of "map f bin"])
  qed (use step.prems assms(2) in simp)
qed simp

lemma drop_confirm_bins: "drop i (confirm_bins bins) = confirm_bins (drop i bins)"
proof (induction bins arbitrary: i rule: confirm_bins.induct)
  case (3 bin nx rest)
  then show ?case by (cases i) (auto simp: Let_def)
qed (auto simp: drop_Cons')

lemma getResolved_spec:
  assumes "getResolvedBlocks E p = ((resolved, dropped), p')" "pool_inv p"
  shows "chain_ok (m_last_block_id p) (m_last_hash p) (map ub_block resolved) \<and>
    heights_from (m_last_height p) (map ub_block resolved) \<and>
    (\<forall>u \<in> set resolved. BLOCK_CONFIRM_LEVEL \<le> confirm_level u) \<and>
    (resolved \<noteq> [] \<longrightarrow> m_last_block_id p' = m_block_id (ub_block (last resolved)) \<and>
       m_last_hash p' = m_block_hash (ub_block (last resolved)) \<and>
       m_last_height p' = m_height (ub_block (last resolved))) \<and>
    length (m_block_pool p) = length (m_block_pool p') + length resolved \<and> pool_inv p' \<and>
    (resolved = [] \<longrightarrow> m_last_height p' = m_last_height p)"
proof -
  obtain q rs ds where loop: "resolve_loop E p [] [] = (q, rs, ds)" by (cases "resolve_loop E p [] []") auto
  have r: "rs = resolved" and c: "core p' = core q"
    using assms(1) loop by (auto simp: getResolvedBlocks_def Let_def split: if_splits)
  from c have "m_last_block_id p' = m_last_block_id q" "m_last_hash p' = m_last_hash q"
    "m_last_height p' = m_last_height q" "length (m_block_pool p') = length (m_block_pool q)"
    by (auto simp: core_def dest: arg_cong [of _ _ length])
  with resolve_loop_spec [OF loop assms(2)] pool_inv_core [OF c] r show ?thesis by (auto simp: core_def)
qed

section \<open>Properties\<close>

text \<open>C13. Pushing a block keeps the links of the pool, provided that its height is less than 2^31 above the
  last height of the pool: every block stays in the bin of its height, points to its predecessor in the bin
  below exactly when that block is in the pool, and no bin holds a hash twice. (Beyond that distance
  the guard can be passed by a block that does not belong in the bin it gets, see C29.)\<close>

theorem push_keeps_links:
  assumes "push E now b is_restore p = Some (res, p')" "pool_inv p" "unat (m_height b - m_last_height p) < 2 ^ 31"
  shows "pool_inv p'"
  by (rule push_inv [OF assms])

text \<open>C3. The blocks that \<open>getResolvedBlocks\<close> gives out form a chain: the first links to the block that was
  last before, each next one to its predecessor, at consecutive heights, each with the confirmation level;
  the last of them becomes the last block of the pool, one bin is removed for each, and the links of the
  remaining pool are kept.\<close>

theorem getResolvedBlocks_chain:
  assumes "getResolvedBlocks E p = ((resolved, dropped), p')" "pool_inv p"
  shows "chain_ok (m_last_block_id p) (m_last_hash p) (map ub_block resolved) \<and>
    heights_from (m_last_height p) (map ub_block resolved) \<and>
    (\<forall>u \<in> set resolved. BLOCK_CONFIRM_LEVEL \<le> confirm_level u) \<and>
    (resolved \<noteq> [] \<longrightarrow> m_last_block_id p' = m_block_id (ub_block (last resolved)) \<and>
       m_last_hash p' = m_block_hash (ub_block (last resolved)) \<and>
       m_last_height p' = m_height (ub_block (last resolved))) \<and>
    length (m_block_pool p) = length (m_block_pool p') + length resolved \<and> pool_inv p'"
  using getResolved_spec [OF assms] by blast


text \<open>C28. After \<open>updateConfirmLevel\<close> the confirmation level of each block is the number of support
  signatures on it and on all pool blocks above that link to it.\<close>

theorem updateConfirmLevel_counts:
  assumes "i < length (m_block_pool p)" "j < length (m_block_pool p ! i)"
  shows "confirm_level (m_block_pool (updateConfirmLevel p) ! i ! j) = subtree_sigs (drop i (m_block_pool p)) j"
proof -
  let ?f = "\<lambda>u. u\<lparr>confirm_level := length (m_ssigs (ub_block u))\<rparr>"
  let ?bins = "drop i (m_block_pool p)"
  have ne: "?bins \<noteq> []" "hd ?bins = m_block_pool p ! i" using assms(1) by (simp_all add: hd_drop_conv_nth)
  then have "confirm_level (hd (confirm_bins (map (map ?f) ?bins)) ! j) = subtree_sigs (map (map ?f) ?bins) j"
    using assms(2) by (intro confirm_bins_level) (auto simp: hd_map)
  also have "\<dots> = subtree_sigs ?bins j" using ne assms(2) by (intro subtree_sigs_map) simp_all
  also have "confirm_bins (map (map ?f) ?bins) = drop i (m_block_pool (updateConfirmLevel p))"
    by (simp add: updateConfirmLevel_def drop_confirm_bins drop_map)
  finally show ?thesis using assms(1) by (simp add: hd_drop_conv_nth)
qed

text \<open>C29. The height guard of \<open>prepareBins\<close> wraps around: a block \<open>2^63\<close> heights above the next one is
  accepted whatever the clock says, and is assigned to the lowest bin.\<close>

theorem prepareBins_wraps:
  assumes "unat (m_last_height p) < 2 ^ 63 - 1" "m_block_pool p \<noteq> []"
  shows "prepareBins now (m_last_height p + 1 + 2 ^ 63) p = Some (True, p) \<and>
    bin_of (m_last_height p + 1 + 2 ^ 63) p = 0"
proof -
  have d: "m_last_height p + 1 + 2 ^ 63 - m_last_height p = (2 ^ 63 + 1 :: u64)" by simp
  have "cast_int (2 ^ 63 + 1) = 1" by (simp add: cast_int_def)
  then have b: "bin_of (m_last_height p + 1 + 2 ^ 63) p = 0" unfolding bin_of_def d by simp
  have "unat (m_last_height p + 1 + 2 ^ 63) = unat (m_last_height p) + 1 + 2 ^ 63"
    using unat_height [of "m_last_height p" "2 ^ 63 + 1" "2 ^ 63"] assms(1) by simp
  then have gt: "\<not> m_last_height p + 1 + 2 ^ 63 \<le> m_last_height p" by (simp add: word_le_nat_alt)
  have "(m_last_height p + 1 + 2 ^ 63 - m_last_height p - 1) * BP_INTERVAL = 0" unfolding d BP_INTERVAL_def by simp
  then show ?thesis using gt b assms(2) unfolding prepareBins_def by (simp add: Let_def)
qed

text \<open>The block that is asked for next lies on top of a longest chain of pool blocks: when such a chain
  is not empty and there are bins above it, the request has the height after its last block and the hash
  of that block. When no pool block is connected to the last block the request is empty, unless the
  last height is 0: the missing block after the last block is not asked for.\<close>

theorem lowest_link_on_longest_chain:
  assumes "pool_inv p" "m_cache_possible_pos p = None" "unat (m_last_height p) + length (m_block_pool p) < 2 ^ 31"
  shows "\<exists>bs p'. longest_chain p bs \<and>
    getUnresolvedLowestLink p = Some
      (if length bs = length (m_block_pool p) then (0, [])
       else if bs = [] then (if m_last_height p = 0 then (1, m_last_hash p) else (0, []))
       else (m_height (last bs) + 1, m_block_hash (last bs)), p')"
  using assms(1)
proof (cases rule: longest_chain_pos [where E = ext0])
  case (1 bs)
  have "(0 < (of_nat (length (m_block_pool p)) :: u64)) = (m_block_pool p \<noteq> [])"
    using assms(3) u64_of_nat [of "length (m_block_pool p)"] by (auto simp: word_less_nat_alt)
  then have "getUnresolvedLowestLink p = Some
    (if 0 = length (m_block_pool p) then (0, []) else if m_last_height p = 0 then (1, m_last_hash p) else (0, []),
     p\<lparr>m_cache_possible_pos := Some (longest_pos p)\<rparr>)"
    using assms(2) 1(3) by (simp add: getUnresolvedLowestLink_def getLongestBlockPos_def Let_def)
  with 1 show ?thesis by (intro exI [of _ "[]"]) auto
next
  case (2 bs k j)
  let ?n = "of_nat (length (m_block_pool p)) :: u64" and ?p = "p\<lparr>m_cache_possible_pos := Some (longest_pos p)\<rparr>"
  have pos: "unat (fst (longest_pos p)) = unat (m_last_height p) + Suc k"
    using unat_height [of "m_last_height p" "length (m_block_pool p)" k] 2(3,6) assms(3) by simp
  have top: "unat (?n + m_last_height p) = unat (m_last_height p) + length (m_block_pool p)"
    using unat_plus_of_nat [of "m_last_height p" "length (m_block_pool p)"] assms(3) by (simp add: add.commute)
  have guards: "m_last_height p \<le> fst (longest_pos p)" "fst (longest_pos p) \<noteq> m_last_height p"
    "(fst (longest_pos p) < ?n + m_last_height p) = (Suc k \<noteq> length (m_block_pool p))"
    using pos top 2(3) by (auto simp: word_le_nat_alt word_less_nat_alt)
  have "k < 2 ^ 31 - 1" using 2(3) assms(3) by linarith
  then have bin: "bin_of (fst (longest_pos p)) ?p = int k"
    using bin_of_above [of k p] 2(6) by (simp add: bin_of_def)
  have "getUnresolvedLowestLink p = Some (if Suc k = length (m_block_pool p) then (0, [])
      else (m_height (last bs) + 1, m_block_hash (last bs)), ?p)"
    using assms(2) bin guards 2(3-6)
    by (simp add: getUnresolvedLowestLink_def getLongestBlockPos_def block_at_def Let_def)
  with 2(1,2) show ?thesis by (intro exI [of _ bs]) auto
qed

section \<open>Witnesses\<close>

definition sig_w :: Signature where
  "sig_w = \<lparr>sig_signer_id = [9], sig_signer_signature = [9], sig_height = 1\<rparr>"

definition blk_1 :: Block where
  "blk_1 = new_block\<lparr>m_height := 1, m_block_id := [3], m_block_hash := [4], m_prev_block_id := [1],
     m_prev_block_hash := [2], m_ssigs := [sig_w, sig_w, sig_w]\<rparr>"

definition blk_2 :: Block where
  "blk_2 = new_block\<lparr>m_height := 2, m_block_id := [5], m_block_hash := [6], m_prev_block_id := [3],
     m_prev_block_hash := [4]\<rparr>"

definition entry_w :: "int \<Rightarrow> Block \<Rightarrow> UnresolvedBlock" where
  "entry_w q b = \<lparr>prev_vector_idx = q, linked = True, confirm_level = 0, ub_block_layer = [], ub_block = b\<rparr>"

definition pool_w :: "UnresolvedBlock list list \<Rightarrow> UnresolvedBlockPool" where
  "pool_w bins = (new_pool ls_a)\<lparr>m_block_pool := bins, m_last_block_id := [1], m_last_hash := [2]\<rparr>"

lemmas pool_w_defs = blk_1_def blk_2_def entry_w_def pool_w_def new_pool_def new_block_def sig_w_def

lemma pool_w_inv: "pool_inv (pool_w [[entry_w 0 blk_1], [entry_w 0 blk_2]])" "pool_inv (pool_w [[entry_w 0 blk_1]])"
  "pool_inv (pool_w [[entry_w 0 blk_1], []])"
  by (simp_all add: pool_inv_def skel_inv_def pool_w_defs entry_ok_def parent_at_def links_to_def
      less_Suc_eq)

lemma push_w: "\<exists>res p'. push ext0 100 blk_2 True (pool_w [[entry_w 0 blk_1]]) = Some (res, p') \<and> res_linked res"
  by (simp add: push_def push_at_def prepareBins_def bin_of_def cast_int_def find_prev_def block_eq_def
      BP_INTERVAL_def pool_w_defs Let_def getBlockLayer_def walk_layer.simps block_at_def getBlockIdB64_def
      encodeBase64_def ext0_def bytesToString_def byte_to_char_def forwardBlocksToLedgerFrom_def forwardBlockToLedgerAt_def upd_block_def
      procLedgerBlock_certificates procBlock_def getBlockTXsAsJson_def invalidateCaches_def getMostPossibleBlockLayer_def
      getLongestBlockPos_def longest_pos_def relax_pos_def walk_ids.simps)

theorem push_keeps_links_witness:
  "\<exists>res p'. push ext0 100 blk_2 True (pool_w [[entry_w 0 blk_1]]) = Some (res, p') \<and> res_linked res \<and> pool_inv p'"
proof -
  obtain res p' where push: "push ext0 100 blk_2 True (pool_w [[entry_w 0 blk_1]]) = Some (res, p')" "res_linked res"
    using push_w by blast
  from push_keeps_links [OF this(1) pool_w_inv(2)] have "pool_inv p'" by (simp add: pool_w_defs)
  with push show ?thesis by blast
qed

lemma resolve_w:
  "\<exists>u p1. resolveBlocksStepByStep ext0 (pool_w [[entry_w 0 blk_1], [entry_w 0 blk_2]]) = (p1, Some (u, [])) \<and>
     ub_block u = blk_1 \<and> length (m_block_pool p1) = 1"
  by (simp add: resolveBlocksStepByStep_def updateConfirmLevel_def add_levels_def pick_resolved_def
      BLOCK_CONFIRM_LEVEL_def resolve_at_def relink_def dropped_ids_def pool_w_defs Let_def)

lemma resolve_short: "length (m_block_pool p) < 2 \<Longrightarrow> resolve_loop E p rs ds = (updateConfirmLevel p, rs, ds)"
  by (subst resolve_loop.simps) (simp add: resolveBlocksStepByStep_def pick_resolved_def)

theorem getResolvedBlocks_chain_witness:
  "map ub_block (fst (fst (getResolvedBlocks ext0 (pool_w [[entry_w 0 blk_1], [entry_w 0 blk_2]])))) = [blk_1] \<and>
   chain_ok [1] [2] [blk_1] \<and> pool_inv (snd (getResolvedBlocks ext0 (pool_w [[entry_w 0 blk_1], [entry_w 0 blk_2]])))"
proof -
  let ?p = "pool_w [[entry_w 0 blk_1], [entry_w 0 blk_2]]"
  obtain rs ds p' where r: "getResolvedBlocks ext0 ?p = ((rs, ds), p')" by (metis prod.exhaust)
  obtain u p1 where u: "resolveBlocksStepByStep ext0 ?p = (p1, Some (u, []))" "ub_block u = blk_1" "length (m_block_pool p1) = 1"
    using resolve_w by blast
  have "resolve_loop ext0 ?p [] [] = (updateConfirmLevel p1, [u], [])"
    by (subst resolve_loop.simps) (simp add: u resolve_short)
  then have "rs = [u]" using r by (simp add: getResolvedBlocks_def Let_def split: if_splits)
  with getResolvedBlocks_chain [OF r pool_w_inv(1)] r u(2) show ?thesis by (simp add: pool_w_def)
qed


theorem updateConfirmLevel_counts_witness:
  "confirm_level (m_block_pool (updateConfirmLevel (pool_w [[entry_w 0 blk_1], [entry_w 0 blk_2]])) ! 0 ! 0) = 3"
  using updateConfirmLevel_counts [of 0 "pool_w [[entry_w 0 blk_1], [entry_w 0 blk_2]]" 0]
  by (simp add: pool_w_defs)

theorem prepareBins_wraps_witness:
  "prepareBins 0 (m_last_height (pool_w [[]]) + 1 + 2 ^ 63) (pool_w [[]]) = Some (True, pool_w [[]]) \<and>
   bin_of (m_last_height (pool_w [[]]) + 1 + 2 ^ 63) (pool_w [[]]) = 0"
  by (rule prepareBins_wraps) (simp_all add: pool_w_defs)

theorem lowest_link_on_longest_chain_witness:
  "\<exists>bs p'. longest_chain (pool_w [[entry_w 0 blk_1], []]) bs \<and>
    getUnresolvedLowestLink (pool_w [[entry_w 0 blk_1], []]) = Some
      (if length bs = length (m_block_pool (pool_w [[entry_w 0 blk_1], []])) then (0, [])
       else if bs = [] then (if m_last_height (pool_w [[entry_w 0 blk_1], []]) = 0
                             then (1, m_last_hash (pool_w [[entry_w 0 blk_1], []])) else (0, []))
       else (m_height (last bs) + 1, m_block_hash (last bs)), p')"
  by (rule lowest_link_on_longest_chain [OF pool_w_inv(3)]) (simp_all add: pool_w_defs)

end
