(* ===== verification/Omp_Hash_Map.thy ===== *)
theory Omp_Hash_Map
  imports Prelude
begin

text \<open>
  The hash map that holds the ids of the pending transactions (\<open>include/omp_hash_map.h\<close>), run by one thread at a
  time. A bucket is the chain of its nodes; the hash function is a parameter. The load factor is its default
  1. A bucket index outside the vector and the exception of \<open>get_n_rehashing_buckets\<close> are \<^const>\<open>None\<close>.
\<close>

section \<open>State\<close>

record ('k, 'v) omp_hash_map =
  n_keys :: nat
  n_buckets :: nat
  buckets :: "('k \<times> 'v) list list"

definition N_INITIAL_BUCKETS :: nat where "N_INITIAL_BUCKETS = 11"

definition hm_new :: "('k, 'v) omp_hash_map" where
  "hm_new = \<lparr>n_keys = 0, n_buckets = N_INITIAL_BUCKETS, buckets = replicate N_INITIAL_BUCKETS []\<rparr>"

section \<open>Chains\<close>

text \<open>\<open>hash_node_apply_recursive\<close> finds the node of a key or the empty pointer at the end of the chain.\<close>

definition chain_set :: "'k \<Rightarrow> 'v \<Rightarrow> ('k \<times> 'v) list \<Rightarrow> ('k \<times> 'v) list" where
  "chain_set k v c =
     (if map_of c k = None then c @ [(k, v)] else update_first (\<lambda>kv. fst kv = k) (\<lambda>kv. (fst kv, v)) c)"

definition chain_unset :: "'k \<Rightarrow> ('k \<times> 'v) list \<Rightarrow> ('k \<times> 'v) list" where
  "chain_unset k c = remove_first (\<lambda>kv. fst kv = k) c"

section \<open>Growing\<close>

definition PRIME_NUMBERS :: "nat list" where
  "PRIME_NUMBERS = [11, 17, 29, 47, 79, 127, 211, 337, 547, 887, 1433, 2311, 3739, 6053, 9791, 15858, 25667, 41539, 67213, 104729]"

definition LAST_PRIME_NUMBER :: nat where "LAST_PRIME_NUMBER = 104729"
definition DIVISION_FACTOR :: nat where "DIVISION_FACTOR = 15858"

function prime_search :: "nat \<Rightarrow> nat \<Rightarrow> nat \<Rightarrow> nat" where
  "prime_search remaining left right =
     (if left < right then
        let mid = (left + right) div 2
        in if PRIME_NUMBERS ! mid < remaining then prime_search remaining (mid + 1) right
           else prime_search remaining left mid
      else left)"
  by pat_completeness auto

termination prime_search
  by (relation "measure (\<lambda>(_, l, r). r - l)") auto

declare prime_search.simps [simp del]

fun divide_factor :: "nat \<Rightarrow> nat \<times> nat \<Rightarrow> nat \<times> nat" where
  "divide_factor 0 (rem, n) = (rem, n)"
| "divide_factor (Suc i) (rem, n) =
     divide_factor i (if LAST_PRIME_NUMBER < rem then (rem div DIVISION_FACTOR, n * DIVISION_FACTOR) else (rem, n))"

definition get_n_rehashing_buckets :: "nat \<Rightarrow> nat option" where
  "get_n_rehashing_buckets n_buckets_in =
     (let (rem, n) = divide_factor 3 (n_buckets_in, 1)
      in if LAST_PRIME_NUMBER < rem then None
         else Some (n * PRIME_NUMBERS ! prime_search rem 0 (length PRIME_NUMBERS - 1)))"

text \<open>Each chain is moved from its last node to its first.\<close>

definition move_node :: "('k \<Rightarrow> nat) \<Rightarrow> nat \<Rightarrow> 'k \<times> 'v \<Rightarrow> ('k \<times> 'v) list list \<Rightarrow> ('k \<times> 'v) list list" where
  "move_node h n kv bs = bs[h (fst kv) mod n := (bs ! (h (fst kv) mod n)) @ [kv]]"

definition rehash_to :: "('k \<Rightarrow> nat) \<Rightarrow> nat \<Rightarrow> ('k, 'v) omp_hash_map \<Rightarrow> ('k, 'v) omp_hash_map option" where
  "rehash_to h n m =
     (if n \<le> n_buckets m then Some m
      else if length (buckets m) < n_buckets m then None
      else Some (m\<lparr>buckets := fold (move_node h n) (concat (map rev (take (n_buckets m) (buckets m)))) (replicate n []),
                   n_buckets := n\<rparr>))"

definition hm_reserve :: "('k \<Rightarrow> nat) \<Rightarrow> nat \<Rightarrow> ('k, 'v) omp_hash_map \<Rightarrow> ('k, 'v) omp_hash_map option" where
  "hm_reserve h n m = do { n' \<leftarrow> get_n_rehashing_buckets n; rehash_to h n' m }"

section \<open>Operations\<close>

definition bucket_of :: "('k \<Rightarrow> nat) \<Rightarrow> 'k \<Rightarrow> ('k, 'v) omp_hash_map \<Rightarrow> nat option" where
  "bucket_of h k m = (let i = h k mod n_buckets m in if i < length (buckets m) then Some i else None)"

definition hm_set :: "('k \<Rightarrow> nat) \<Rightarrow> 'k \<Rightarrow> 'v \<Rightarrow> ('k, 'v) omp_hash_map \<Rightarrow> ('k, 'v) omp_hash_map option" where
  "hm_set h k v m = do {
     i \<leftarrow> bucket_of h k m;
     let c = buckets m ! i;
     let m' = m\<lparr>buckets := (buckets m)[i := chain_set k v c],
                n_keys := (if map_of c k = None then n_keys m + 1 else n_keys m)\<rparr>;
     if n_buckets m' \<le> n_keys m' then hm_reserve h (n_keys m') m' else Some m' }"

text \<open>The two other overloads of \<open>set\<close>: the setter runs on the value of the key, which is first made
  from the default value (the default constructor's in the overload without one) when it is new.\<close>

definition hm_set_with :: "('k \<Rightarrow> nat) \<Rightarrow> 'k \<Rightarrow> ('v \<Rightarrow> 'v) \<Rightarrow> 'v \<Rightarrow> ('k, 'v) omp_hash_map \<Rightarrow> ('k, 'v) omp_hash_map option" where
  "hm_set_with h k setter default_value m = do {
     i \<leftarrow> bucket_of h k m;
     let c = buckets m ! i;
     let c' = (if map_of c k = None then c @ [(k, setter default_value)]
               else update_first (\<lambda>kv. fst kv = k) (\<lambda>kv. (fst kv, setter (snd kv))) c);
     let m' = m\<lparr>buckets := (buckets m)[i := c'],
                n_keys := (if map_of c k = None then n_keys m + 1 else n_keys m)\<rparr>;
     if n_buckets m' \<le> n_keys m' then hm_reserve h (n_keys m') m' else Some m' }"

definition hm_unset :: "('k \<Rightarrow> nat) \<Rightarrow> 'k \<Rightarrow> ('k, 'v) omp_hash_map \<Rightarrow> ('k, 'v) omp_hash_map option" where
  "hm_unset h k m = do {
     i \<leftarrow> bucket_of h k m;
     let c = buckets m ! i;
     Some (m\<lparr>buckets := (buckets m)[i := chain_unset k c],
             n_keys := (if map_of c k = None then n_keys m else n_keys m - 1)\<rparr>) }"

definition hm_get :: "('k \<Rightarrow> nat) \<Rightarrow> 'k \<Rightarrow> ('k, 'v) omp_hash_map \<Rightarrow> 'v option option" where
  "hm_get h k m = map_option (\<lambda>i. map_of (buckets m ! i) k) (bucket_of h k m)"

definition hm_has :: "('k \<Rightarrow> nat) \<Rightarrow> 'k \<Rightarrow> ('k, 'v) omp_hash_map \<Rightarrow> bool option" where
  "hm_has h k m = map_option (\<lambda>r. r \<noteq> None) (hm_get h k m)"

definition get_copy_or_default :: "('k \<Rightarrow> nat) \<Rightarrow> 'k \<Rightarrow> 'v \<Rightarrow> ('k, 'v) omp_hash_map \<Rightarrow> 'v option" where
  "get_copy_or_default h k default_value m =
     map_option (\<lambda>r. case r of None \<Rightarrow> default_value | Some v \<Rightarrow> v) (hm_get h k m)"

definition hm_map :: "('k \<Rightarrow> nat) \<Rightarrow> 'k \<Rightarrow> ('v \<Rightarrow> 'w) \<Rightarrow> 'w \<Rightarrow> ('k, 'v) omp_hash_map \<Rightarrow> 'w option" where
  "hm_map h k mapper default_value m =
     map_option (\<lambda>r. case r of None \<Rightarrow> default_value | Some v \<Rightarrow> mapper v) (hm_get h k m)"

text \<open>\<open>clear\<close> shrinks or grows the vector to its first size and leaves \<open>n_buckets\<close> as it is.\<close>

definition hm_clear :: "('k, 'v) omp_hash_map \<Rightarrow> ('k, 'v) omp_hash_map option" where
  "hm_clear m =
     (if length (buckets m) < n_buckets m then None
      else Some (m\<lparr>buckets := replicate N_INITIAL_BUCKETS [], n_keys := 0\<rparr>))"

section \<open>The map a table stands for\<close>

definition hm_inv :: "('k \<Rightarrow> nat) \<Rightarrow> ('k, 'v) omp_hash_map \<Rightarrow> bool" where
  "hm_inv h m \<longleftrightarrow> 0 < n_buckets m \<and> length (buckets m) = n_buckets m \<and>
     (\<forall>i < n_buckets m. distinct (map fst (buckets m ! i)) \<and> (\<forall>kv \<in> set (buckets m ! i). h (fst kv) mod n_buckets m = i)) \<and>
     n_keys m = sum_list (map length (buckets m))"

definition hm_lookup :: "('k \<Rightarrow> nat) \<Rightarrow> ('k, 'v) omp_hash_map \<Rightarrow> 'k \<Rightarrow> 'v option" where
  "hm_lookup h m k = map_of (buckets m ! (h k mod n_buckets m)) k"

lemma hm_inv_new: "hm_inv h hm_new"
  by (simp add: hm_inv_def hm_new_def N_INITIAL_BUCKETS_def sum_list_replicate)

lemma bucket_of_inv: "hm_inv h m \<Longrightarrow> bucket_of h k m = Some (h k mod n_buckets m)"
  by (simp add: bucket_of_def hm_inv_def)

lemma hm_get_lookup: "hm_inv h m \<Longrightarrow> hm_get h k m = Some (hm_lookup h m k)"
  by (simp add: hm_get_def bucket_of_inv hm_lookup_def)

lemma map_of_chain_set: "map_of (chain_set k v c) k' = (if k' = k then Some v else map_of c k')"
proof -
  have "map_of (update_first (\<lambda>kv. fst kv = k) (\<lambda>kv. (fst kv, v)) c) k' = (if k' = k then Some v else map_of c k')" if "map_of c k \<noteq> None"
    using that by (induction c) auto
  then show ?thesis by (auto simp: chain_set_def map_add_def split: option.splits)
qed

lemma chain_set_keys:
  "map fst (chain_set k v c) = (if map_of c k = None then map fst c @ [k] else map fst c)"
  by (auto simp: chain_set_def)

lemma chain_unset_map_of: "distinct (map fst c) \<Longrightarrow> map_of (chain_unset k c) k' = (if k' = k then None else map_of c k')"
  by (induction c) (auto simp: chain_unset_def map_of_eq_None_iff [THEN iffD2])

lemma chain_unset_keys: "set (chain_unset k c) \<subseteq> set c" "distinct (map fst c) \<Longrightarrow> distinct (map fst (chain_unset k c))"
proof -
  show *: "set (chain_unset k c) \<subseteq> set c" unfolding chain_unset_def by (rule set_remove_first_subset)
  show "distinct (map fst c) \<Longrightarrow> distinct (map fst (chain_unset k c))"
    unfolding chain_unset_def using set_remove_first_subset by (induction c) fastforce+
qed

lemma hm_set_with_const: "hm_set_with h k (\<lambda>_. v) d = hm_set h k v"
  by (simp add: fun_eq_iff hm_set_with_def hm_set_def chain_set_def Let_def)

lemma length_chain_unset: "length (chain_unset k c) = (if map_of c k = None then length c else length c - 1)"
  by (auto simp: chain_unset_def length_remove_first map_of_eq_None_iff image_iff)

lemma length_chain_set: "length (chain_set k v c) = (if map_of c k = None then length c + 1 else length c)"
  by (simp add: chain_set_def)

lemma sum_list_update_length:
  "i < length bs \<Longrightarrow> sum_list (map length (bs[i := c])) + length (bs ! i) = sum_list (map length bs) + length c"
proof (induction bs arbitrary: i)
  case (Cons b bs)
  then show ?case by (cases i) auto
qed simp

lemma map_of_eqI_entries:
  assumes "distinct (map fst xs)" "distinct (map fst ys)" "\<And>v. (k, v) \<in> set xs \<longleftrightarrow> (k, v) \<in> set ys" "r = map_of ys k"
  shows "map_of xs k = r"
  using assms by (metis map_of_eq_Some_iff not_Some_eq)

section \<open>Rehashing keeps the map\<close>

lemma fold_move:
  assumes "0 < n" "length bs = n"
  shows "length (fold (move_node h n) L bs) = n \<and>
    (\<forall>i < n. fold (move_node h n) L bs ! i = bs ! i @ filter (\<lambda>kv. h (fst kv) mod n = i) L)"
  using assms(2)
proof (induction L arbitrary: bs)
  case (Cons kv L)
  have "length (move_node h n kv bs) = n" using Cons.prems by (simp add: move_node_def)
  from Cons.IH [OF this] Cons.prems assms(1) show ?case by (auto simp: move_node_def nth_list_update)
qed simp

lemma distinct_buckets:
  assumes "\<forall>i < length bs. distinct (map fst (bs ! i)) \<and> (\<forall>kv \<in> set (bs ! i). f (fst kv) = i + off)"
  shows "distinct (map fst (concat (map rev bs)))"
  using assms
proof (induction bs arbitrary: off)
  case (Cons b bs)
  have "\<forall>i < length bs. distinct (map fst (bs ! i)) \<and> (\<forall>kv \<in> set (bs ! i). f (fst kv) = i + Suc off)"
    using Cons.prems by fastforce
  moreover have "\<forall>kv \<in> set (concat (map rev bs)). Suc off \<le> f (fst kv)"
    using calculation by (force simp: in_set_conv_nth)
  moreover have "distinct (map fst b)" "\<forall>kv \<in> set b. f (fst kv) = off" using Cons.prems by force+
  ultimately show ?case using Cons.IH [of "Suc off"] by (fastforce simp: rev_map [symmetric])
qed simp

lemma sum_filter_length:
  "\<forall>x \<in> set L. g x < n \<Longrightarrow> (\<Sum>i \<leftarrow> [0..<n]. length (filter (\<lambda>x. g x = i) L)) = length L"
proof (induction L)
  case (Cons x L)
  have "(\<Sum>i \<leftarrow> [0..<n]. length (filter (\<lambda>y. g y = i) (x # L))) =
      (\<Sum>i \<leftarrow> [0..<n]. (if g x = i then 1 else 0) + length (filter (\<lambda>y. g y = i) L))"
    by (intro arg_cong [of _ _ sum_list] map_cong) auto
  also have "\<dots> = (\<Sum>i \<leftarrow> [0..<n]. if g x = i then 1 else 0) + length L"
    using Cons by (simp add: sum_list_addf)
  also have "(\<Sum>i \<leftarrow> [0..<n]. if g x = i then 1 else 0) = (1 :: nat)"
    using Cons.prems by (simp add: sum_list_distinct_conv_sum_set)
  finally show ?case by simp
qed simp

lemma rehash_keeps:
  assumes "hm_inv h m"
  shows "\<exists>m'. rehash_to h n m = Some m' \<and> hm_inv h m' \<and> hm_lookup h m' = hm_lookup h m \<and> n_keys m' = n_keys m"
proof (cases "n \<le> n_buckets m")
  case False
  define L where "L = concat (map rev (buckets m))"
  define bs where "bs = fold (move_node h n) L (replicate n [])"
  have n: "0 < n" using False by simp
  have bs: "length bs = n" "\<And>i. i < n \<Longrightarrow> bs ! i = filter (\<lambda>kv. h (fst kv) mod n = i) L"
    using fold_move [OF n, of "replicate n []" h L] by (auto simp: bs_def)
  have inv: "length (buckets m) = n_buckets m" "0 < n_buckets m" "n_keys m = sum_list (map length (buckets m))"
    "\<forall>i < length (buckets m). distinct (map fst (buckets m ! i)) \<and> (\<forall>kv \<in> set (buckets m ! i). h (fst kv) mod n_buckets m = i + 0)"
    using assms by (auto simp: hm_inv_def)
  have dL: "distinct (map fst L)" unfolding L_def by (rule distinct_buckets [OF inv(4)])
  have look: "map_of L k = hm_lookup h m k" for k
  proof (rule map_of_eqI_entries)
    let ?i = "h k mod n_buckets m"
    have i: "?i < length (buckets m)" using inv(1,2) by simp
    show "distinct (map fst L)" "distinct (map fst (buckets m ! ?i))" using dL inv(4) i by auto
    show "(k, v) \<in> set L \<longleftrightarrow> (k, v) \<in> set (buckets m ! ?i)" for v
      using inv(4) i by (force simp: L_def in_set_conv_nth [of _ "buckets m"])
  qed (simp add: hm_lookup_def)
  let ?m = "m\<lparr>buckets := bs, n_buckets := n\<rparr>"
  have r: "rehash_to h n m = Some ?m" using False inv(1) by (simp add: rehash_to_def bs_def L_def)
  have "map_of (filter (\<lambda>kv. h (fst kv) mod n = h k mod n) L) k = map_of L k" for k
    by (induction L) auto
  then have "hm_lookup h ?m = hm_lookup h m" using bs(2) n look by (auto simp: hm_lookup_def fun_eq_iff)
  moreover have "hm_inv h ?m"
  proof -
    have "length L = n_keys m" using inv(3) by (simp add: L_def length_concat comp_def)
    moreover have "map length bs = map (\<lambda>i. length (filter (\<lambda>kv. h (fst kv) mod n = i) L)) [0..<n]"
      using bs by (intro nth_equalityI) auto
    ultimately have "sum_list (map length bs) = n_keys m" using sum_filter_length [of L "\<lambda>kv. h (fst kv) mod n" n] n by simp
    then show ?thesis using bs n dL by (auto simp: hm_inv_def distinct_map_filter)
  qed
  ultimately show ?thesis using r by simp
qed (use assms in \<open>simp add: rehash_to_def\<close>)

section \<open>The number of buckets\<close>

lemma primes_sorted: "sorted PRIME_NUMBERS" "length PRIME_NUMBERS = 20"
  by (simp_all add: PRIME_NUMBERS_def)

lemma prime_search_least:
  assumes "l \<le> r" "r < length PRIME_NUMBERS" "\<forall>i < l. PRIME_NUMBERS ! i < n" "n \<le> PRIME_NUMBERS ! r"
  shows "prime_search n l r \<le> r \<and> (\<forall>i < prime_search n l r. PRIME_NUMBERS ! i < n) \<and> n \<le> PRIME_NUMBERS ! prime_search n l r"
  using assms
proof (induction n l r rule: prime_search.induct)
  case (1 n l r)
  let ?mid = "(l + r) div 2"
  show ?case
  proof (cases "l < r")
    case True
    then have mid: "?mid < r" "l \<le> ?mid" by auto
    show ?thesis
    proof (cases "PRIME_NUMBERS ! ?mid < n")
      case low: True
      have "\<forall>i < ?mid + 1. PRIME_NUMBERS ! i < n"
      proof (intro allI impI)
        fix i assume "i < ?mid + 1"
        then have "PRIME_NUMBERS ! i \<le> PRIME_NUMBERS ! ?mid"
          using mid "1.prems"(2) by (intro sorted_nth_mono [OF primes_sorted(1)]) auto
        with low show "PRIME_NUMBERS ! i < n" by simp
      qed
      moreover have "prime_search n l r = prime_search n (?mid + 1) r" using True low by (subst prime_search.simps) (simp add: Let_def)
      ultimately show ?thesis using "1.IH"(1) [OF True refl low] mid "1.prems" by simp
    next
      case high: False
      moreover have "prime_search n l r = prime_search n l ?mid" using True high by (subst prime_search.simps) (simp add: Let_def)
      ultimately show ?thesis using "1.IH"(2) [OF True refl high] mid "1.prems" by simp
    qed
  next
    case False
    then have "prime_search n l r = l" by (subst prime_search.simps) simp
    with False "1.prems" show ?thesis by auto
  qed
qed

lemma find_nth: "j < length xs \<Longrightarrow> \<forall>i < j. \<not> P (xs ! i) \<Longrightarrow> P (xs ! j) \<Longrightarrow> find P xs = Some (xs ! j)"
  by (auto simp: find_Some_iff)

lemma rehashing_buckets_small:
  assumes "n \<le> LAST_PRIME_NUMBER"
  shows "get_n_rehashing_buckets n = find (\<lambda>p. n \<le> p) PRIME_NUMBERS"
proof -
  have d: "divide_factor 3 (n, 1) = (n, 1)" using assms by (simp add: numeral_eq_Suc)
  have "n \<le> PRIME_NUMBERS ! (length PRIME_NUMBERS - 1)" using assms by (simp add: PRIME_NUMBERS_def LAST_PRIME_NUMBER_def)
  from prime_search_least [of 0 "length PRIME_NUMBERS - 1" n] this
  have j: "prime_search n 0 (length PRIME_NUMBERS - 1) < length PRIME_NUMBERS"
    "\<forall>i < prime_search n 0 (length PRIME_NUMBERS - 1). \<not> n \<le> PRIME_NUMBERS ! i"
    "n \<le> PRIME_NUMBERS ! prime_search n 0 (length PRIME_NUMBERS - 1)"
    by (auto simp: primes_sorted(2) not_le)
  show ?thesis using find_nth [OF j] d assms by (simp add: get_n_rehashing_buckets_def)
qed

lemma rehashing_buckets_total: "n \<le> LAST_PRIME_NUMBER \<Longrightarrow> \<exists>p. get_n_rehashing_buckets n = Some p"
proof (cases "find (\<lambda>p. n \<le> p) PRIME_NUMBERS")
  case None
  moreover have "LAST_PRIME_NUMBER \<in> set PRIME_NUMBERS" by (simp add: LAST_PRIME_NUMBER_def PRIME_NUMBERS_def)
  moreover assume "n \<le> LAST_PRIME_NUMBER"
  ultimately show ?thesis by (simp add: find_None_iff)
qed (simp add: rehashing_buckets_small)

section \<open>The operations on the map\<close>

text \<open>What a user of the table relies on: while the table is good, the operations succeed and act on a map.\<close>

locale key_table =
  fixes tget :: "'k \<Rightarrow> 's \<Rightarrow> 'v option option" and tset :: "'k \<Rightarrow> 'v \<Rightarrow> 's \<Rightarrow> 's option" and tunset :: "'k \<Rightarrow> 's \<Rightarrow> 's option"
    and view :: "'s \<Rightarrow> 'k \<Rightarrow> 'v option" and good :: "'s \<Rightarrow> bool" and room :: "'s \<Rightarrow> bool"
  assumes get_view: "good s \<Longrightarrow> tget k s = Some (view s k)"
    and set_view: "good s \<Longrightarrow> room s \<Longrightarrow> \<exists>s'. tset k v s = Some s' \<and> good s' \<and> view s' = (view s)(k \<mapsto> v)"
    and unset_view: "good s \<Longrightarrow> \<exists>s'. tunset k s = Some s' \<and> good s' \<and> view s' = (view s)(k := None)"
begin

lemma unset_all: "good s \<Longrightarrow> \<exists>s'. fold_opt tunset ks s = Some s' \<and> good s' \<and> view s' = view s |` (- set ks)"
proof (induction ks arbitrary: s)
  case (Cons k ks)
  obtain s1 where s1: "tunset k s = Some s1" "good s1" "view s1 = (view s)(k := None)" using unset_view [OF Cons.prems] by blast
  obtain s2 where "fold_opt tunset ks s1 = Some s2" "good s2" "view s2 = view s1 |` (- set ks)" using Cons.IH [OF s1(2)] by blast
  with s1 show ?case by (auto simp: restrict_map_def fun_eq_iff)
qed (simp add: restrict_map_def fun_eq_iff)

end

lemma hm_inv_update:
  assumes "hm_inv h m" "i = h k mod n_buckets m" "distinct (map fst c)" "\<forall>kv \<in> set c. h (fst kv) mod n_buckets m = i"
    "n + length (buckets m ! i) = n_keys m + length c"
  shows "hm_inv h (m\<lparr>buckets := (buckets m)[i := c], n_keys := n\<rparr>)"
proof -
  have i: "i < length (buckets m)" using assms(1,2) by (simp add: hm_inv_def)
  from sum_list_update_length [OF i, of c] assms show ?thesis by (auto simp: hm_inv_def nth_list_update)
qed

lemma hm_lookup_update:
  assumes "hm_inv h m" "i = h k mod n_buckets m" "\<And>k'. map_of c k' = (if k' = k then r else map_of (buckets m ! i) k')"
  shows "hm_lookup h (m\<lparr>buckets := (buckets m)[i := c], n_keys := n\<rparr>) = (hm_lookup h m)(k := r)"
  using assms by (auto simp: hm_lookup_def hm_inv_def fun_eq_iff nth_list_update)

lemma hm_set_keeps:
  assumes "hm_inv h m" "n_keys m < LAST_PRIME_NUMBER"
  shows "\<exists>m'. hm_set h k v m = Some m' \<and> hm_inv h m' \<and> hm_lookup h m' = (hm_lookup h m)(k \<mapsto> v)"
proof -
  define i where "i = h k mod n_buckets m"
  define n where "n = (if map_of (buckets m ! i) k = None then n_keys m + 1 else n_keys m)"
  define m1 where "m1 = m\<lparr>buckets := (buckets m)[i := chain_set k v (buckets m ! i)], n_keys := n\<rparr>"
  have i: "i < n_buckets m" using assms(1) by (simp add: hm_inv_def i_def)
  have c: "distinct (map fst (buckets m ! i))" "\<forall>kv \<in> set (buckets m ! i). h (fst kv) mod n_buckets m = i"
    using assms(1) i by (auto simp: hm_inv_def)
  have keys: "fst ` set (chain_set k v (buckets m ! i)) \<subseteq> insert k (fst ` set (buckets m ! i))"
    using arg_cong [OF chain_set_keys [of k v "buckets m ! i"], of set] by (auto split: if_splits)
  have "h (fst kv) mod n_buckets m = i" if "kv \<in> set (chain_set k v (buckets m ! i))" for kv
    using subsetD [OF keys imageI [OF that]] c(2) by (auto simp: i_def)
  then have "hm_inv h m1" unfolding m1_def
    using c(1) by (intro hm_inv_update [OF assms(1) i_def]) (auto simp: chain_set_keys map_of_eq_None_iff length_chain_set n_def)
  moreover have "hm_lookup h m1 = (hm_lookup h m)(k \<mapsto> v)"
    unfolding m1_def by (rule hm_lookup_update [OF assms(1) i_def]) (simp add: map_of_chain_set)
  moreover have "hm_set h k v m = (if n_buckets m1 \<le> n_keys m1 then hm_reserve h (n_keys m1) m1 else Some m1)"
    by (simp add: hm_set_def bucket_of_inv [OF assms(1)] i_def [symmetric] m1_def n_def Let_def)
  moreover have "n_keys m1 \<le> LAST_PRIME_NUMBER" using assms(2) by (simp add: m1_def n_def)
  moreover obtain p where "get_n_rehashing_buckets (n_keys m1) = Some p" using rehashing_buckets_total calculation(4) by blast
  ultimately show ?thesis using rehash_keeps [of h m1 p] by (simp add: hm_reserve_def) blast
qed

lemma hm_unset_keeps:
  assumes "hm_inv h m"
  shows "\<exists>m'. hm_unset h k m = Some m' \<and> hm_inv h m' \<and> hm_lookup h m' = (hm_lookup h m)(k := None)"
proof -
  define i where "i = h k mod n_buckets m"
  have i: "i < n_buckets m" using assms(1) by (simp add: hm_inv_def i_def)
  have c: "distinct (map fst (buckets m ! i))" "\<forall>kv \<in> set (buckets m ! i). h (fst kv) mod n_buckets m = i"
    using assms(1) i by (auto simp: hm_inv_def)
  have "Suc 0 \<le> length (buckets m ! i)" if "map_of (buckets m ! i) k \<noteq> None" using that by (cases "buckets m ! i") auto
  moreover have "length (buckets m ! i) \<le> n_keys m"
    using assms i by (simp add: hm_inv_def elem_le_sum_list [of i "map length (buckets m)", simplified])
  ultimately have "hm_inv h (m\<lparr>buckets := (buckets m)[i := chain_unset k (buckets m ! i)],
      n_keys := (if map_of (buckets m ! i) k = None then n_keys m else n_keys m - 1)\<rparr>)"
    using c chain_unset_keys [where k = k and c = "buckets m ! i"]
    by (intro hm_inv_update [OF assms i_def]) (force simp: length_chain_unset)+
  moreover note hm_lookup_update [OF assms i_def, of "chain_unset k (buckets m ! i)" None, OF chain_unset_map_of [OF c(1)]]
  ultimately show ?thesis by (simp add: hm_unset_def bucket_of_inv [OF assms] i_def [symmetric] Let_def)
qed

lemma hm_inv_cleared: "hm_inv h m \<Longrightarrow> n_buckets m = N_INITIAL_BUCKETS \<Longrightarrow> hm_clear m = Some hm_new"
  by (simp add: hm_clear_def hm_inv_def hm_new_def)

lemma n_keys_card: assumes "hm_inv h m" shows "n_keys m = card (dom (hm_lookup h m))" "finite (dom (hm_lookup h m))"
proof -
  let ?L = "concat (map rev (buckets m))"
  have d: "distinct (map fst ?L)" using assms by (intro distinct_buckets [of _ "\<lambda>k. h k mod n_buckets m" 0]) (auto simp: hm_inv_def)
  have "dom (hm_lookup h m) = set (map fst ?L)"
  proof (intro set_eqI iffI)
    fix k assume "k \<in> dom (hm_lookup h m)"
    then obtain v where "(k, v) \<in> set (buckets m ! (h k mod n_buckets m))" using map_of_SomeD unfolding hm_lookup_def by fast
    moreover have "buckets m ! (h k mod n_buckets m) \<in> set (buckets m)" using assms by (simp add: hm_inv_def)
    ultimately show "k \<in> set (map fst ?L)" by force
  next
    fix k assume "k \<in> set (map fst ?L)"
    then obtain i where i: "i < length (buckets m)" "k \<in> fst ` set (buckets m ! i)" by (force simp: in_set_conv_nth [of _ "buckets m"])
    then have "h k mod n_buckets m = i" using assms by (auto simp: hm_inv_def)
    then show "k \<in> dom (hm_lookup h m)" using i(2) by (simp add: hm_lookup_def dom_map_of_conv_image_fst [symmetric] domIff)
  qed
  moreover have "length ?L = n_keys m" using assms by (simp add: hm_inv_def length_concat comp_def)
  ultimately show "n_keys m = card (dom (hm_lookup h m))" "finite (dom (hm_lookup h m))" using distinct_card [OF d] by auto
qed

interpretation omp: key_table "hm_get h" "hm_set h" "hm_unset h" "hm_lookup h" "hm_inv h" "\<lambda>m. n_keys m < LAST_PRIME_NUMBER" for h
  by unfold_locales (simp_all add: hm_get_lookup hm_set_keeps hm_unset_keeps)

section \<open>Properties\<close>

text \<open>The number of buckets the binary search finds is the smallest number of the table that is large enough.\<close>

theorem rehashing_buckets_least:
  assumes "n \<le> LAST_PRIME_NUMBER"
  shows "get_n_rehashing_buckets n = find (\<lambda>p. n \<le> p) PRIME_NUMBERS"
  using assms by (rule rehashing_buckets_small)

theorem rehashing_buckets_least_witness: "get_n_rehashing_buckets 12 = Some 17"
  using rehashing_buckets_least [of 12] by (simp add: LAST_PRIME_NUMBER_def PRIME_NUMBERS_def)

text \<open>C36. Once the table has grown, \<open>clear\<close> leaves it in a state in which a key may lie outside the vector of
  buckets: every key whose index under the number of buckets is at least 11 is then looked up out of bounds.\<close>

theorem cleared_table_out_of_bounds:
  assumes "hm_inv h m" "N_INITIAL_BUCKETS \<le> h k mod n_buckets m"
  shows "\<exists>m'. hm_clear m = Some m' \<and> hm_get h k m' = None \<and> hm_set h k v m' = None"
  using assms by (auto simp: hm_clear_def hm_inv_def hm_get_def hm_set_def bucket_of_def)

definition grown_w :: "(nat, bool) omp_hash_map" where
  "grown_w = \<lparr>n_keys = 0, n_buckets = 17, buckets = replicate 17 []\<rparr>"

theorem cleared_table_out_of_bounds_witness:
  "\<exists>m'. hm_clear grown_w = Some m' \<and> hm_get id 12 m' = None \<and> hm_set id 12 True m' = None"
proof (rule cleared_table_out_of_bounds)
  show "hm_inv id grown_w" by (simp add: hm_inv_def grown_w_def sum_list_replicate)
  show "N_INITIAL_BUCKETS \<le> id 12 mod n_buckets grown_w" by (simp add: grown_w_def N_INITIAL_BUCKETS_def)
qed

end
