(* ===== verification/Transaction_Pool.thy ===== *)
theory Transaction_Pool
  imports Transaction Omp_Hash_Map
begin

text \<open>
  \<open>class TransactionPool\<close> (\<open>src/services/transaction_pool.cpp\<close>): a vector of transactions that only grows
  and the hash map of the ids that are pending. An entry whose id is no longer in the map is dead. The
  hash function of the map is the parameter \<open>h\<close>; an access of the map outside its buckets is \<^const>\<open>None\<close>.
  The lemmas show that the pool is a stack of transactions with distinct ids, and where \<open>clear\<close> breaks it.
\<close>

section \<open>Definitions\<close>

record TransactionPool =
  m_transaction_pool :: "Transaction list"
  m_txid_pool :: "(string, bool) omp_hash_map"

definition new_tx_pool :: TransactionPool where
  "new_tx_pool = \<lparr>m_transaction_pool = [], m_txid_pool = hm_new\<rparr>"

definition getIdStr :: "Transaction \<Rightarrow> string" where
  "getIdStr tx = bytesToString (m_transaction_id tx)"

definition tp_push :: "(string \<Rightarrow> nat) \<Rightarrow> Transaction \<Rightarrow> TransactionPool \<Rightarrow> (bool \<times> TransactionPool) option" where
  "tp_push h transaction p = do {
     dup \<leftarrow> hm_has h (getIdStr transaction) (m_txid_pool p);
     if \<not> dup then do {
       ids \<leftarrow> hm_set h (getIdStr transaction) True (m_txid_pool p);
       Some (True, p\<lparr>m_txid_pool := ids, m_transaction_pool := m_transaction_pool p @ [transaction]\<rparr>) }
     else Some (False, p) }"

definition tp_clear :: "TransactionPool \<Rightarrow> TransactionPool option" where
  "tp_clear p = do {
     ids \<leftarrow> hm_clear (m_txid_pool p);
     Some (p\<lparr>m_txid_pool := ids, m_transaction_pool := []\<rparr>) }"

definition tp_isDuplicated :: "(string \<Rightarrow> nat) \<Rightarrow> tx_id_type \<Rightarrow> TransactionPool \<Rightarrow> bool option" where
  "tp_isDuplicated h tx_id p = hm_has h (bytesToString tx_id) (m_txid_pool p)"

text \<open>The loops run over the vector from its end.\<close>

fun pop_scan :: "(string \<Rightarrow> nat) \<Rightarrow> Transaction list \<Rightarrow> (string, bool) omp_hash_map \<Rightarrow> (Transaction option \<times> (string, bool) omp_hash_map) option" where
  "pop_scan h [] ids = Some (None, ids)"
| "pop_scan h (tx # txs) ids = do {
     pending \<leftarrow> get_copy_or_default h (getIdStr tx) False ids;
     if pending then do { ids' \<leftarrow> hm_unset h (getIdStr tx) ids; Some (Some tx, ids') }
     else pop_scan h txs ids }"

definition tp_pop :: "(string \<Rightarrow> nat) \<Rightarrow> TransactionPool \<Rightarrow> (Transaction option \<times> TransactionPool) option" where
  "tp_pop h p =
     (if n_keys (m_txid_pool p) = 0 then Some (None, p)
      else do {
        (r, ids) \<leftarrow> pop_scan h (rev (m_transaction_pool p)) (m_txid_pool p);
        Some (r, p\<lparr>m_txid_pool := ids\<rparr>) })"

text \<open>The number of transactions is compared only after one was added.\<close>

fun fetch_scan :: "(string \<Rightarrow> nat) \<Rightarrow> nat \<Rightarrow> Transaction list \<Rightarrow> Transaction list \<Rightarrow> (string, bool) omp_hash_map \<Rightarrow>
    (Transaction list \<times> (string, bool) omp_hash_map) option" where
  "fetch_scan h n [] transactions ids = Some (transactions, ids)"
| "fetch_scan h n (tx # txs) transactions ids = do {
     pending \<leftarrow> get_copy_or_default h (getIdStr tx) False ids;
     if pending then do {
       ids' \<leftarrow> hm_unset h (getIdStr tx) ids;
       if n \<le> length (transactions @ [tx]) then Some (transactions @ [tx], ids')
       else fetch_scan h n txs (transactions @ [tx]) ids' }
     else fetch_scan h n txs transactions ids }"

definition fetchLastN :: "(string \<Rightarrow> nat) \<Rightarrow> nat \<Rightarrow> TransactionPool \<Rightarrow> (Transaction list \<times> TransactionPool) option" where
  "fetchLastN h n p = do {
     (transactions, ids) \<leftarrow> fetch_scan h n (rev (m_transaction_pool p)) [] (m_txid_pool p);
     Some (transactions, p\<lparr>m_txid_pool := ids\<rparr>) }"

definition removeDuplicatedTransactions :: "(string \<Rightarrow> nat) \<Rightarrow> tx_id_type list \<Rightarrow> TransactionPool \<Rightarrow> TransactionPool option" where
  "removeDuplicatedTransactions h tx_ids p =
     (if tx_ids = [] then Some p
      else do {
        ids \<leftarrow> fold_opt (hm_unset h) (map bytesToString tx_ids) (m_txid_pool p);
        Some (p\<lparr>m_txid_pool := ids\<rparr>) })"

definition tp_size :: "TransactionPool \<Rightarrow> nat" where
  "tp_size p = n_keys (m_txid_pool p)"

section \<open>The stack of pending transactions\<close>

text \<open>From the newest to the oldest, the transactions that are pending under a map of ids.\<close>

fun pending_of :: "(string \<rightharpoonup> bool) \<Rightarrow> Transaction list \<Rightarrow> Transaction list" where
  "pending_of m [] = []"
| "pending_of m (tx # txs) =
     (if m (getIdStr tx) = Some True then tx # pending_of (m(getIdStr tx := None)) txs else pending_of m txs)"

definition tp_pending :: "(string \<Rightarrow> nat) \<Rightarrow> TransactionPool \<Rightarrow> Transaction list" where
  "tp_pending h p = pending_of (hm_lookup h (m_txid_pool p)) (rev (m_transaction_pool p))"

definition tp_inv :: "(string \<Rightarrow> nat) \<Rightarrow> TransactionPool \<Rightarrow> bool" where
  "tp_inv h p \<longleftrightarrow> hm_inv h (m_txid_pool p) \<and>
     (\<forall>k v. hm_lookup h (m_txid_pool p) k = Some v \<longrightarrow> v \<and> k \<in> getIdStr ` set (m_transaction_pool p))"

lemma getIdStr_inject [simp]: "getIdStr tx = getIdStr tx' \<longleftrightarrow> m_transaction_id tx = m_transaction_id tx'"
proof -
  have "inj byte_to_char" by (rule inj_on_inverseI) (rule byte_char_byte)
  then show ?thesis by (simp add: getIdStr_def bytesToString_def inj_map_eq_map)
qed

lemma pending_set: "getIdStr ` set (pending_of m txs) = {k \<in> getIdStr ` set txs. m k = Some True}"
proof (induction txs arbitrary: m)
  case (Cons tx txs)
  let ?m = "m(getIdStr tx := None)"
  have "getIdStr ` set (pending_of ?m txs) = {k \<in> getIdStr ` set txs. ?m k = Some True}"
    "getIdStr ` set (pending_of m txs) = {k \<in> getIdStr ` set txs. m k = Some True}" by (rule Cons.IH)+
  then show ?case by (auto simp: image_iff)
qed simp

lemma pending_distinct: "distinct (map getIdStr (pending_of m txs))"
proof (induction txs arbitrary: m)
  case (Cons tx txs)
  let ?m = "m(getIdStr tx := None)"
  have "distinct (map getIdStr (pending_of ?m txs))" "distinct (map getIdStr (pending_of m txs))" by (rule Cons.IH)+
  moreover have "getIdStr tx \<notin> getIdStr ` set (pending_of ?m txs)" by (simp add: pending_set)
  ultimately show ?case by simp
qed simp

lemmas pending_ids = pending_set pending_distinct

lemma pending_restrict: "pending_of (m |` (- K)) txs = filter (\<lambda>tx. getIdStr tx \<notin> K) (pending_of m txs)"
proof (induction txs arbitrary: m)
  case (Cons tx txs)
  let ?m = "m(getIdStr tx := None)"
  have ih: "pending_of (?m |` (- K)) txs = filter (\<lambda>tx. getIdStr tx \<notin> K) (pending_of ?m txs)"
    "pending_of (m |` (- K)) txs = filter (\<lambda>tx. getIdStr tx \<notin> K) (pending_of m txs)" by (rule Cons.IH)+
  have "(m |` (- K))(getIdStr tx := None) = ?m |` (- K)" by (auto simp: restrict_map_def)
  moreover have "m |` (- K) = ?m |` (- K)" if "getIdStr tx \<in> K" using that by (auto simp: restrict_map_def)
  ultimately show ?case using ih by (simp only: pending_of.simps) auto
qed simp

lemma tp_pending_facts:
  assumes "tp_inv h p"
  shows "distinct (map m_transaction_id (tp_pending h p))"
    and "dom (hm_lookup h (m_txid_pool p)) = getIdStr ` set (tp_pending h p)"
    and "tp_size p = length (tp_pending h p)"
proof -
  have d: "distinct (map getIdStr (tp_pending h p))" by (simp add: tp_pending_def pending_ids)
  then show "distinct (map m_transaction_id (tp_pending h p))" by (auto simp: distinct_map inj_on_def)
  show e: "dom (hm_lookup h (m_txid_pool p)) = getIdStr ` set (tp_pending h p)"
    using assms unfolding tp_pending_def pending_set tp_inv_def dom_def by force
  show "tp_size p = length (tp_pending h p)"
    using n_keys_card(1) [of h "m_txid_pool p"] assms e distinct_card [OF d] by (simp add: tp_size_def tp_inv_def)
qed

lemma tp_inv_less:
  assumes "tp_inv h p" "hm_inv h ids" "hm_lookup h ids \<subseteq>\<^sub>m hm_lookup h (m_txid_pool p)"
  shows "tp_inv h (p\<lparr>m_txid_pool := ids\<rparr>)"
proof -
  have "hm_lookup h (m_txid_pool p) k = Some v" if "hm_lookup h ids k = Some v" for k v
    using assms(3) that by (auto simp: map_le_def dom_def)
  then show ?thesis using assms(1,2) unfolding tp_inv_def by simp blast
qed

section \<open>The operations on the stack\<close>

lemma get_pending: "hm_inv h ids \<Longrightarrow> get_copy_or_default h k False ids = Some (hm_lookup h ids k = Some True)"
  by (auto simp: get_copy_or_default_def omp.get_view split: option.split)

lemma fetch_scan_pending:
  assumes "hm_inv h ids" "length acc < max n 1"
  shows "\<exists>ids'. fetch_scan h n txs acc ids = Some (acc @ take (max n 1 - length acc) (pending_of (hm_lookup h ids) txs), ids') \<and>
    hm_inv h ids' \<and>
    hm_lookup h ids' = hm_lookup h ids |` (- getIdStr ` set (take (max n 1 - length acc) (pending_of (hm_lookup h ids) txs)))"
  using assms
proof (induction txs arbitrary: acc ids)
  case Nil
  then show ?case by (simp add: restrict_map_def)
next
  case (Cons tx txs)
  show ?case
  proof (cases "hm_lookup h ids (getIdStr tx) = Some True")
    case True
    obtain ids1 where u: "hm_unset h (getIdStr tx) ids = Some ids1" "hm_inv h ids1"
      "hm_lookup h ids1 = (hm_lookup h ids)(getIdStr tx := None)" using omp.unset_view [OF Cons.prems(1)] by blast
    show ?thesis
    proof (cases "n \<le> length acc + 1")
      case stop: True
      then have "max n 1 - length acc = 1" using Cons.prems(2) by auto
      then show ?thesis using True stop u Cons.prems(1) by (auto simp: get_pending restrict_map_def fun_eq_iff)
    next
      case False
      then obtain k where k: "max n 1 - length acc = Suc k" "max n 1 - length (acc @ [tx]) = k" "length (acc @ [tx]) < max n 1"
        by (cases "max n 1 - length acc") auto
      from Cons.IH [OF u(2) k(3)] obtain ids2 where
        "fetch_scan h n txs (acc @ [tx]) ids1 = Some ((acc @ [tx]) @ take k (pending_of (hm_lookup h ids1) txs), ids2)"
        "hm_inv h ids2" "hm_lookup h ids2 = hm_lookup h ids1 |` (- getIdStr ` set (take k (pending_of (hm_lookup h ids1) txs)))"
        unfolding k(2) by blast
      moreover have "fetch_scan h n (tx # txs) acc ids = fetch_scan h n txs (acc @ [tx]) ids1"
        using True False u(1) Cons.prems(1) by (simp add: get_pending)
      moreover have "(m(a := None)) |` (- S) = m |` (- insert a S)" for m :: "string \<rightharpoonup> bool" and a S
        by (auto simp: restrict_map_def)
      ultimately show ?thesis unfolding k(1) pending_of.simps u(3) using True by simp
    qed
  next
    case False
    then show ?thesis using Cons.IH [OF Cons.prems] Cons.prems(1) by (simp add: get_pending)
  qed
qed

lemma filter_not_taken:
  assumes "distinct (map f xs)"
  shows "filter (\<lambda>x. f x \<notin> f ` set (take k xs)) xs = drop k xs"
proof -
  have "distinct (map f (take k xs @ drop k xs))" using assms by simp
  then have "f ` set (take k xs) \<inter> f ` set (drop k xs) = {}" unfolding map_append distinct_append by simp
  then have "filter (\<lambda>x. f x \<notin> f ` set (take k xs)) (take k xs @ drop k xs) = drop k xs"
    unfolding filter_append by (auto simp: filter_empty_conv filter_id_conv)
  then show ?thesis by simp
qed

lemma tp_pending_restrict:
  assumes "hm_lookup h ids = hm_lookup h (m_txid_pool p) |` (- K)"
  shows "tp_pending h (p\<lparr>m_txid_pool := ids\<rparr>) = filter (\<lambda>tx. getIdStr tx \<notin> K) (tp_pending h p)"
  using assms by (simp add: tp_pending_def pending_restrict)

lemma map_le_restrict: "m |` A \<subseteq>\<^sub>m m"
  by (simp add: map_le_def)

lemma fetchLastN_pending:
  assumes "tp_inv h p"
  shows "\<exists>p'. fetchLastN h n p = Some (take (max n 1) (tp_pending h p), p') \<and> tp_inv h p' \<and>
    tp_pending h p' = drop (max n 1) (tp_pending h p) \<and> m_transaction_pool p' = m_transaction_pool p"
proof -
  have inv: "hm_inv h (m_txid_pool p)" using assms by (simp add: tp_inv_def)
  let ?K = "getIdStr ` set (take (max n 1) (tp_pending h p))"
  from fetch_scan_pending [OF inv, of "[]" n "rev (m_transaction_pool p)"] obtain ids where
    f: "fetch_scan h n (rev (m_transaction_pool p)) [] (m_txid_pool p) = Some (take (max n 1) (tp_pending h p), ids)"
      "hm_inv h ids" "hm_lookup h ids = hm_lookup h (m_txid_pool p) |` (- ?K)"
    unfolding tp_pending_def by (simp del: One_nat_def add: less_max_iff_disj) blast
  have "tp_inv h (p\<lparr>m_txid_pool := ids\<rparr>)" using f(2,3) by (intro tp_inv_less [OF assms]) (simp_all add: map_le_restrict)
  moreover have "tp_pending h (p\<lparr>m_txid_pool := ids\<rparr>) = drop (max n 1) (tp_pending h p)"
    using tp_pending_restrict [OF f(3)] filter_not_taken [of getIdStr "tp_pending h p" "max n 1"]
    by (simp add: tp_pending_def pending_ids)
  ultimately show ?thesis using f(1) by (simp add: fetchLastN_def)
qed

lemma push_pending:
  assumes "tp_inv h p" "tp_size p < LAST_PRIME_NUMBER"
  shows "\<exists>p'. tp_push h tx p = Some (m_transaction_id tx \<notin> m_transaction_id ` set (tp_pending h p), p') \<and> tp_inv h p' \<and>
    tp_pending h p' = (if m_transaction_id tx \<in> m_transaction_id ` set (tp_pending h p) then tp_pending h p else tx # tp_pending h p)"
proof -
  have inv: "hm_inv h (m_txid_pool p)" using assms(1) by (simp add: tp_inv_def)
  have has: "hm_lookup h (m_txid_pool p) (getIdStr tx) \<noteq> None \<longleftrightarrow> m_transaction_id tx \<in> m_transaction_id ` set (tp_pending h p)"
    using tp_pending_facts(2) [OF assms(1)] by (auto simp: dom_def set_eq_iff image_iff)
  show ?thesis
  proof (cases "hm_lookup h (m_txid_pool p) (getIdStr tx)")
    case None
    obtain ids where s: "hm_set h (getIdStr tx) True (m_txid_pool p) = Some ids" "hm_inv h ids"
      "hm_lookup h ids = (hm_lookup h (m_txid_pool p))(getIdStr tx \<mapsto> True)"
      using omp.set_view [OF inv] assms(2) by (auto simp: tp_size_def)
    have "(hm_lookup h (m_txid_pool p))(getIdStr tx := None) = hm_lookup h (m_txid_pool p)" using None by auto
    then show ?thesis using None has s assms(1) inv
      by (auto simp: tp_push_def hm_has_def omp.get_view tp_pending_def tp_inv_def fun_upd_idem)
  next
    case (Some v)
    then show ?thesis using has inv assms(1) by (auto simp: tp_push_def hm_has_def omp.get_view)
  qed
qed

lemma remove_pending:
  assumes "tp_inv h p"
  shows "\<exists>p'. removeDuplicatedTransactions h tx_ids p = Some p' \<and> tp_inv h p' \<and>
    tp_pending h p' = filter (\<lambda>tx. m_transaction_id tx \<notin> set tx_ids) (tp_pending h p)"
proof (cases "tx_ids = []")
  case False
  have inv: "hm_inv h (m_txid_pool p)" using assms by (simp add: tp_inv_def)
  obtain ids where u: "fold_opt (hm_unset h) (map bytesToString tx_ids) (m_txid_pool p) = Some ids" "hm_inv h ids"
    "hm_lookup h ids = hm_lookup h (m_txid_pool p) |` (- set (map bytesToString tx_ids))"
    using omp.unset_all [OF inv] by blast
  have "inj byte_to_char" by (rule inj_on_inverseI) (rule byte_char_byte)
  then have "getIdStr tx \<in> set (map bytesToString tx_ids) \<longleftrightarrow> m_transaction_id tx \<in> set tx_ids" for tx
    by (auto simp: getIdStr_def bytesToString_def inj_map_eq_map image_iff)
  then have "tp_pending h (p\<lparr>m_txid_pool := ids\<rparr>) = filter (\<lambda>tx. m_transaction_id tx \<notin> set tx_ids) (tp_pending h p)"
    using tp_pending_restrict [OF u(3)] by simp
  moreover have "tp_inv h (p\<lparr>m_txid_pool := ids\<rparr>)" using u(2,3) by (intro tp_inv_less [OF assms]) (simp_all add: map_le_restrict)
  ultimately show ?thesis using False u(1) by (simp add: removeDuplicatedTransactions_def)
qed (use assms in \<open>simp add: removeDuplicatedTransactions_def\<close>)

lemma pop_scan_fetch:
  "pop_scan h txs ids = map_option (\<lambda>(ts, ids'). (case ts of [] \<Rightarrow> None | t # _ \<Rightarrow> Some t, ids')) (fetch_scan h 1 txs [] ids)"
  by (induction txs) (auto split: Option.bind_splits)

lemma pop_pending:
  assumes "tp_inv h p"
  shows "\<exists>p'. tp_pop h p = Some (case tp_pending h p of [] \<Rightarrow> None | t # _ \<Rightarrow> Some t, p') \<and> tp_inv h p' \<and>
    tp_pending h p' = drop 1 (tp_pending h p)"
proof (cases "n_keys (m_txid_pool p) = 0")
  case True
  then have "tp_pending h p = []" using tp_pending_facts(3) [OF assms] by (simp add: tp_size_def)
  then show ?thesis using True assms by (simp add: tp_pop_def)
next
  case False
  obtain p' where p': "fetchLastN h 1 p = Some (take 1 (tp_pending h p), p')" "tp_inv h p'" "tp_pending h p' = drop 1 (tp_pending h p)"
    using fetchLastN_pending [OF assms, of 1] by auto
  then obtain ids where "fetch_scan h 1 (rev (m_transaction_pool p)) [] (m_txid_pool p) = Some (take 1 (tp_pending h p), ids)"
    "p' = p\<lparr>m_txid_pool := ids\<rparr>" by (auto simp: fetchLastN_def bind_eq_Some_conv)
  then show ?thesis using False p'(2,3) by (cases "tp_pending h p") (auto simp: tp_pop_def pop_scan_fetch)
qed

lemma tp_inv_new: "tp_inv h new_tx_pool" "tp_pending h new_tx_pool = []"
proof -
  have "hm_lookup h hm_new k = (None :: bool option)" for k by (simp add: hm_lookup_def hm_new_def N_INITIAL_BUCKETS_def)
  then show "tp_inv h new_tx_pool" "tp_pending h new_tx_pool = []"
    by (simp_all add: tp_inv_def tp_pending_def new_tx_pool_def hm_inv_new)
qed

lemma bytesToString_inject: "bytesToString xs = bytesToString ys \<longleftrightarrow> xs = ys"
proof -
  have "inj byte_to_char" by (rule inj_on_inverseI) (rule byte_char_byte)
  then show ?thesis by (simp add: bytesToString_def inj_map_eq_map)
qed

lemma duplicated_pending:
  assumes "tp_inv h p"
  shows "tp_isDuplicated h i p = Some (i \<in> m_transaction_id ` set (tp_pending h p))"
proof -
  have "hm_lookup h (m_txid_pool p) (bytesToString i) \<noteq> None \<longleftrightarrow> bytesToString i \<in> getIdStr ` set (tp_pending h p)"
    using tp_pending_facts(2) [OF assms] by (auto simp: dom_def)
  also have "\<dots> \<longleftrightarrow> i \<in> m_transaction_id ` set (tp_pending h p)" by (auto simp: getIdStr_def bytesToString_inject image_iff)
  finally show ?thesis using assms by (simp add: tp_isDuplicated_def hm_has_def omp.get_view tp_inv_def)
qed

section \<open>Sequences of operations\<close>

datatype pool_op = Push Transaction | Pop | FetchLastN nat | RemoveDuplicated "tx_id_type list"
  | IsDuplicated tx_id_type | Size | Clear

datatype pool_result = RET_VOID | RET_BOOL bool | RET_SIZE nat | RET_TX "Transaction option" | RET_TXS "Transaction list"

text \<open>What an operation returns, and the new pool.\<close>

fun tp_step :: "(string \<Rightarrow> nat) \<Rightarrow> pool_op \<Rightarrow> TransactionPool \<Rightarrow> (pool_result \<times> TransactionPool) option" where
  "tp_step h (Push tx) p = map_option (\<lambda>(added, p'). (RET_BOOL added, p')) (tp_push h tx p)"
| "tp_step h Pop p = map_option (\<lambda>(r, p'). (RET_TX r, p')) (tp_pop h p)"
| "tp_step h (FetchLastN n) p = map_option (\<lambda>(r, p'). (RET_TXS r, p')) (fetchLastN h n p)"
| "tp_step h (RemoveDuplicated ids) p = map_option (\<lambda>p'. (RET_VOID, p')) (removeDuplicatedTransactions h ids p)"
| "tp_step h (IsDuplicated i) p = map_option (\<lambda>dup. (RET_BOOL dup, p)) (tp_isDuplicated h i p)"
| "tp_step h Size p = Some (RET_SIZE (tp_size p), p)"
| "tp_step h Clear p = map_option (\<lambda>p'. (RET_VOID, p')) (tp_clear p)"

fun stack_step :: "pool_op \<Rightarrow> Transaction list \<Rightarrow> pool_result \<times> Transaction list" where
  "stack_step (Push tx) st =
     (if m_transaction_id tx \<in> m_transaction_id ` set st then (RET_BOOL False, st) else (RET_BOOL True, tx # st))"
| "stack_step Pop st = (RET_TX (case st of [] \<Rightarrow> None | tx # _ \<Rightarrow> Some tx), drop 1 st)"
| "stack_step (FetchLastN n) st = (RET_TXS (take (max n 1) st), drop (max n 1) st)"
| "stack_step (RemoveDuplicated ids) st = (RET_VOID, filter (\<lambda>tx. m_transaction_id tx \<notin> set ids) st)"
| "stack_step (IsDuplicated i) st = (RET_BOOL (i \<in> m_transaction_id ` set st), st)"
| "stack_step Size st = (RET_SIZE (length st), st)"
| "stack_step Clear st = (RET_VOID, [])"

fun tp_run :: "(string \<Rightarrow> nat) \<Rightarrow> pool_op list \<Rightarrow> TransactionPool \<Rightarrow> (pool_result list \<times> TransactionPool) option" where
  "tp_run h [] p = Some ([], p)"
| "tp_run h (e # es) p = do { (r, p1) \<leftarrow> tp_step h e p; (rs, p2) \<leftarrow> tp_run h es p1; Some (r # rs, p2) }"

fun stack_run :: "pool_op list \<Rightarrow> Transaction list \<Rightarrow> pool_result list \<times> Transaction list" where
  "stack_run [] st = ([], st)"
| "stack_run (e # es) st = (let (r, st1) = stack_step e st; (rs, st2) = stack_run es st1 in (r # rs, st2))"

text \<open>The table has its first size, so that it can be cleared.\<close>

definition clearable :: "TransactionPool \<Rightarrow> bool" where
  "clearable p \<longleftrightarrow> n_buckets (m_txid_pool p) = N_INITIAL_BUCKETS"

text \<open>The stack stays below the first number of buckets for as long as a \<open>clear\<close> is still to come.\<close>

fun clears_small :: "pool_op list \<Rightarrow> Transaction list \<Rightarrow> bool" where
  "clears_small [] st \<longleftrightarrow> True"
| "clears_small (e # es) st \<longleftrightarrow>
     (Clear \<in> set es \<longrightarrow> length (snd (stack_step e st)) < N_INITIAL_BUCKETS) \<and> clears_small es (snd (stack_step e st))"

lemma tp_step_stack:
  assumes "tp_inv h p" "length (tp_pending h p) < LAST_PRIME_NUMBER" "e = Clear \<longrightarrow> clearable p"
  shows "\<exists>p'. tp_step h e p = Some (fst (stack_step e (tp_pending h p)), p') \<and> tp_inv h p' \<and>
    tp_pending h p' = snd (stack_step e (tp_pending h p))"
proof (cases e)
  case (Push tx)
  then show ?thesis using push_pending [OF assms(1), of tx] assms tp_pending_facts(3) [OF assms(1)] by fastforce
next
  case Pop
  then show ?thesis using pop_pending [OF assms(1)] by auto
next
  case (FetchLastN n)
  then show ?thesis using fetchLastN_pending [OF assms(1), of n] by auto
next
  case (RemoveDuplicated ids)
  then show ?thesis using remove_pending [OF assms(1), of ids] by auto
next
  case (IsDuplicated i)
  then show ?thesis using duplicated_pending [OF assms(1), of i] assms(1) by simp
next
  case Size
  then show ?thesis using tp_pending_facts(3) [OF assms(1)] assms(1) by simp
next
  case Clear
  then have "tp_clear p = Some new_tx_pool"
    using assms(1,3) hm_inv_cleared [of h "m_txid_pool p"] by (simp add: tp_clear_def tp_inv_def clearable_def new_tx_pool_def)
  then show ?thesis using Clear tp_inv_new by simp
qed

lemma stack_step_length: "length (snd (stack_step e st)) \<le> Suc (length st)"
  by (cases e) (auto intro: le_SucI length_filter_le)

section \<open>The number of buckets\<close>

lemma hm_unset_buckets: "hm_unset h k m = Some m' \<Longrightarrow> n_buckets m' = n_buckets m"
  by (auto simp: hm_unset_def Let_def bind_eq_Some_conv)

lemma fetch_scan_buckets: "fetch_scan h n txs acc ids = Some (r, ids') \<Longrightarrow> n_buckets ids' = n_buckets ids"
proof (induction txs arbitrary: acc ids)
  case (Cons tx txs)
  then obtain pending where p: "get_copy_or_default h (getIdStr tx) False ids = Some pending" by (auto simp: bind_eq_Some_conv)
  show ?case
  proof (cases pending)
    case True
    then obtain ids1 where "hm_unset h (getIdStr tx) ids = Some ids1" using Cons.prems p by (auto simp: bind_eq_Some_conv)
    then show ?thesis using Cons.IH [of "acc @ [tx]" ids1] Cons.prems p True hm_unset_buckets by (fastforce split: if_splits)
  next
    case False
    then show ?thesis using Cons p by simp
  qed
qed simp

lemma hm_set_buckets:
  assumes "hm_set h k v m = Some m'" "n_keys m' < n_buckets m"
  shows "n_buckets m' = n_buckets m"
proof -
  have keys: "n_keys m2 = n_keys m1" if "hm_reserve h n m1 = Some m2" for n and m1 m2 :: "('a, 'b) omp_hash_map"
    using that by (auto simp: hm_reserve_def rehash_to_def bind_eq_Some_conv split: if_splits)
  obtain i where i: "bucket_of h k m = Some i" using assms(1) by (auto simp: hm_set_def bind_eq_Some_conv)
  define m1 where "m1 = m\<lparr>buckets := (buckets m)[i := chain_set k v (buckets m ! i)],
    n_keys := (if map_of (buckets m ! i) k = None then n_keys m + 1 else n_keys m)\<rparr>"
  have "(if n_buckets m1 \<le> n_keys m1 then hm_reserve h (n_keys m1) m1 else Some m1) = Some m'"
    using assms(1) unfolding hm_set_def i m1_def Let_def by (simp split: if_splits)
  moreover have "n_buckets m1 = n_buckets m" by (simp add: m1_def)
  ultimately show ?thesis using keys assms(2) by (cases "n_buckets m1 \<le> n_keys m1") auto
qed

text \<open>The table keeps its first size while the pool stays small.\<close>

lemma tp_step_clearable:
  assumes "tp_step h e p = Some (r, p')" "clearable p" "tp_size p' < N_INITIAL_BUCKETS"
  shows "clearable p'"
proof -
  have unset_all: "n_buckets ids' = n_buckets ids" if "fold_opt (hm_unset h) ks ids = Some ids'" for ks and ids ids' :: "(string, bool) omp_hash_map"
    using that by (rule fold_opt_invariant [where I = "\<lambda>m. n_buckets m = n_buckets ids"]) (auto dest: hm_unset_buckets)
  have fetch: "n_buckets (m_txid_pool q) = n_buckets (m_txid_pool p)" if "fetchLastN h n p = Some (r, q)" for n r q
    using that fetch_scan_buckets by (fastforce simp: fetchLastN_def bind_eq_Some_conv)
  note sz = assms(2,3) [unfolded clearable_def tp_size_def]
  show ?thesis
  proof (cases e)
    case (Push tx)
    then obtain added where "tp_push h tx p = Some (added, p')" using assms(1) by auto
    then consider "p' = p" | "hm_set h (getIdStr tx) True (m_txid_pool p) = Some (m_txid_pool p')"
      by (auto simp: tp_push_def bind_eq_Some_conv split: if_splits)
    then show ?thesis
    proof cases
      case 2
      with hm_set_buckets [OF 2] sz show ?thesis by (simp add: clearable_def)
    qed (use assms(2) in simp)
  next
    case Pop
    then have "\<exists>r. tp_pop h p = Some (r, p')" using assms(1) by auto
    then consider "p' = p" | r where "fetch_scan h 1 (rev (m_transaction_pool p)) [] (m_txid_pool p) = Some (r, m_txid_pool p')"
      by (auto simp: tp_pop_def pop_scan_fetch bind_eq_Some_conv split: if_splits)
    then show ?thesis using fetch_scan_buckets sz by cases (auto simp: clearable_def)
  next
    case (RemoveDuplicated ids)
    then show ?thesis
      using assms(1) sz unset_all by (auto simp: clearable_def removeDuplicatedTransactions_def bind_eq_Some_conv split: if_splits)
  next
    case Clear
    then show ?thesis using assms(1) sz by (auto simp: clearable_def tp_clear_def hm_clear_def split: if_splits)
  qed (use assms(1) sz fetch in \<open>auto simp: clearable_def\<close>)
qed

lemma tp_step_small:
  assumes "tp_step h e p = Some (r, p')" "tp_inv h p'" "tp_pending h p' = st" "clearable p \<or> Clear \<notin> set (e # es)"
    "Clear \<in> set es \<longrightarrow> length st < N_INITIAL_BUCKETS"
  shows "clearable p' \<or> Clear \<notin> set es"
  using assms tp_step_clearable [OF assms(1)] tp_pending_facts(3) [OF assms(2)] by auto

section \<open>Properties\<close>

text \<open>C18. The transaction pool is a stack of transactions with different ids: every sequence of its operations, from a
  good pool, succeeds, each operation returns what it returns on the stack, and the size is the height of the
  stack, as long as at most 104729 transactions could be pending, and, if \<open>clear\<close> is called, the stack stays
  below 11 transactions up to the last \<open>clear\<close>. (A table that has grown cannot be cleared, see C36.) In
  particular no transaction is given out twice without a second push, and \<open>fetchLastN(0)\<close> takes one.\<close>

theorem tx_pool_refines_stack:
  assumes "tp_inv h p" "length (tp_pending h p) + length ops \<le> LAST_PRIME_NUMBER"
    "clearable p \<or> Clear \<notin> set ops" "clears_small ops (tp_pending h p)"
  shows "\<exists>p'. tp_run h ops p = Some (fst (stack_run ops (tp_pending h p)), p') \<and> tp_inv h p' \<and>
    tp_pending h p' = snd (stack_run ops (tp_pending h p)) \<and> tp_size p' = length (snd (stack_run ops (tp_pending h p)))"
  using assms
proof (induction ops arbitrary: p)
  case Nil
  then show ?case by (simp add: tp_pending_facts(3))
next
  case (Cons e ops)
  obtain p1 where p1: "tp_step h e p = Some (fst (stack_step e (tp_pending h p)), p1)" "tp_inv h p1"
    "tp_pending h p1 = snd (stack_step e (tp_pending h p))" using tp_step_stack [OF Cons.prems(1), of e] Cons.prems(2,3) by auto
  have "length (tp_pending h p1) + length ops \<le> LAST_PRIME_NUMBER"
    using Cons.prems(2) stack_step_length [of e "tp_pending h p"] p1(3) by simp
  moreover have "clearable p1 \<or> Clear \<notin> set ops" "clears_small ops (tp_pending h p1)"
    using tp_step_small [OF p1 Cons.prems(3)] Cons.prems(4) p1(3) by simp_all
  ultimately show ?case using Cons.IH [OF p1(2)] p1 by (auto simp: Let_def split: prod.splits)
qed

theorem tx_pool_refines_stack_witness:
  "\<exists>p. tp_run (\<lambda>_. 0) [Push tx_a, Push tx_a, FetchLastN 0, Push tx_a, Clear, Size, Push tx_a, Pop] new_tx_pool =
     Some ([RET_BOOL True, RET_BOOL False, RET_TXS [tx_a], RET_BOOL True, RET_VOID, RET_SIZE 0, RET_BOOL True, RET_TX (Some tx_a)], p)"
proof -
  have "clearable new_tx_pool" by (simp add: clearable_def new_tx_pool_def hm_new_def)
  then show ?thesis
    using tx_pool_refines_stack [OF tp_inv_new(1), of "\<lambda>_. 0" "[Push tx_a, Push tx_a, FetchLastN 0, Push tx_a, Clear, Size, Push tx_a, Pop]"]
    by (auto simp: tp_inv_new(2) LAST_PRIME_NUMBER_def N_INITIAL_BUCKETS_def)
qed

end
