(* ===== verification/Block_Processor.thy ===== *)
theory Block_Processor
  imports Pool_Chain Message_Validator Transaction_Pool
begin

text \<open>
  \<open>class BlockProcessor\<close> (\<open>src/modules/block_processor/block_processor.cpp\<close>): received blocks are checked,
  pushed to the pool of unresolved blocks, and saved once they are resolved; missing blocks are asked
  for; requests for blocks, headers, proofs and the state of the chain are answered.

  \<open>Application\<close> holds the components a handler reaches: the processor with its pool (which holds the
  layered storage), the transaction pool and the output queue. The certificate pool and the
  settings are arguments. Clock readings are arguments, those of one handler are taken as one. An
  uncaught exception or an access out of range is \<^const>\<open>None\<close>.
\<close>

section \<open>State\<close>

record BlockRequest =
  rq_hash_b64 :: string
  rq_prev_hash_b64 :: string
  rq_height :: block_height_type
  rq_recv_id :: id_type
  rq_request_time :: timestamp_t
  rq_num_retry :: nat

record BlockProcessor =
  m_unresolved_block_pool :: UnresolvedBlockPool
  m_request_list :: "BlockRequest list"
  m_last_block_sender :: merger_id_type

record Application =
  app_block_processor :: BlockProcessor
  app_transaction_pool :: TransactionPool
  app_output_queue :: "OutputMsgEntry list"

definition ub_pool :: "('a) Application_scheme \<Rightarrow> UnresolvedBlockPool" where
  "ub_pool a = m_unresolved_block_pool (app_block_processor a)"

definition set_ub_pool :: "UnresolvedBlockPool \<Rightarrow> ('a) Application_scheme \<Rightarrow> ('a) Application_scheme" where
  "set_ub_pool p a = a\<lparr>app_block_processor := (app_block_processor a)\<lparr>m_unresolved_block_pool := p\<rparr>\<rparr>"

definition set_requests :: "BlockRequest list \<Rightarrow> ('a) Application_scheme \<Rightarrow> ('a) Application_scheme" where
  "set_requests rs a = a\<lparr>app_block_processor := (app_block_processor a)\<lparr>m_request_list := rs\<rparr>\<rparr>"

definition app_send :: "OutputMsgEntry \<Rightarrow> ('a) Application_scheme \<Rightarrow> ('a) Application_scheme" where
  "app_send m a = a\<lparr>app_output_queue := deliverOutputMessage m (app_output_queue a)\<rparr>"

section \<open>Start\<close>

definition bp_start :: "ext \<Rightarrow> bytes \<Rightarrow> u64 \<Rightarrow> ('a) Application_scheme \<Rightarrow> ('a) Application_scheme option" where
  "bp_start E mem now a = do {
     l \<leftarrow> getNthBlockLinkInfo E 0 (pool_storage (ub_pool a));
     p \<leftarrow> restorePool E mem now (setPool (link_id l) (link_prev_id l) (link_hash l) (link_prev_hash l)
            (link_height l) (link_time l) (ub_pool a));
     Some (set_ub_pool p a) }"

section \<open>Asking for missing blocks\<close>

definition request_due :: "u64 \<Rightarrow> BlockRequest \<Rightarrow> bool" where
  "request_due now r \<longleftrightarrow> rq_request_time r < now \<and> BROC_PROCESSOR_REQ_WAIT + rq_request_time r < now"

text \<open>The first requests go to the sender of the last block, the later ones to everybody.\<close>

definition retry_request :: "u64 \<Rightarrow> merger_id_type \<Rightarrow> BlockRequest \<Rightarrow> BlockRequest" where
  "retry_request now last_block_sender r =
     (let r1 = r\<lparr>rq_request_time := now\<rparr>;
          r2 = (if rq_num_retry r1 \<le> MAX_UNICAST_MISSING_BLOCK \<and> rq_recv_id r1 \<noteq> last_block_sender
                then r1\<lparr>rq_recv_id := last_block_sender\<rparr> else r1);
          r3 = (if MAX_UNICAST_MISSING_BLOCK < rq_num_retry r2 \<and> rq_recv_id r2 \<noteq> [] then r2\<lparr>rq_recv_id := []\<rparr> else r2)
      in r3\<lparr>rq_num_retry := rq_num_retry r3 + 1\<rparr>)"

definition msg_req_block :: "ext \<Rightarrow> Setting \<Rightarrow> u64 \<Rightarrow> BlockRequest \<Rightarrow> OutputMsgEntry" where
  "msg_req_block E st now r =
     \<lparr>out_type = MSG_REQ_BLOCK, out_body = json_obj
        [(''mID'', JStr (encodeBase64 E (m_id st))), (''time'', JStr (to_string (unat now))), (''mCert'', JStr []),
         (''hgt'', JStr (to_string (unat (rq_height r)))), (''prevHash'', JStr (rq_prev_hash_b64 r)),
         (''hash'', JStr (rq_hash_b64 r)), (''mSig'', JStr [])],
      receivers = (if rq_recv_id r = [] then [] else [rq_recv_id r])\<rparr>"

definition requestMissingBlock :: "ext \<Rightarrow> Setting \<Rightarrow> u64 \<Rightarrow> ('a) Application_scheme \<Rightarrow> ('a) Application_scheme" where
  "requestMissingBlock E st now a =
     (let bp = app_block_processor a;
          retry = retry_request now (m_last_block_sender bp);
          request_this_time = map retry (filter (request_due now) (m_request_list bp))
      in fold (\<lambda>r. app_send (msg_req_block E st now r)) request_this_time
           (set_requests (map (\<lambda>r. if request_due now r then retry r else r) (m_request_list bp)) a))"

section \<open>Answers\<close>

definition bp_sendErrorMessage :: "ext \<Rightarrow> Setting \<Rightarrow> u64 \<Rightarrow> ErrorMsgType \<Rightarrow> id_type \<Rightarrow> ('a) Application_scheme \<Rightarrow> ('a) Application_scheme" where
  "bp_sendErrorMessage E st now t_error_type recv_id a =
     app_send \<lparr>out_type = MSG_ERROR, out_body = json_obj
       [(''sender'', JStr (encodeBase64 E (m_id st))), (''time'', JStr (to_string (unat now))),
        (''type'', JStr (to_string (error_code t_error_type))), (''info'', JStr ''no block!'')], receivers = [recv_id]\<rparr> a"

definition no_blocks :: "('a) Application_scheme \<Rightarrow> bool" where
  "no_blocks a \<longleftrightarrow> m_block_pool (ub_pool a) = [] \<and> storage_empty (pool_storage (ub_pool a))"

definition bp_getMostPossibleLink :: "('a) Application_scheme \<Rightarrow> (nth_link_type \<times> ('a) Application_scheme) option" where
  "bp_getMostPossibleLink a = do { (l, p) \<leftarrow> getMostPossibleLink (ub_pool a); Some (l, set_ub_pool p a) }"

definition handleMsgReqStatus :: "ext \<Rightarrow> Setting \<Rightarrow> u64 \<Rightarrow> json \<Rightarrow> ('a) Application_scheme \<Rightarrow> ('a) Application_scheme option" where
  "handleMsgReqStatus E st now body a =
     (let sender_id = getBytesFromB64 E body ''mID''
      in if no_blocks a then Some (bp_sendErrorMessage E st now BSYNC_NO_BLOCK sender_id a)
         else do {
           (possible_link, a1) \<leftarrow> bp_getMostPossibleLink a;
           Some (app_send \<lparr>out_type = MSG_RES_STATUS, out_body = json_obj
             [(''mID'', JStr (encodeBase64 E (m_id st))), (''time'', JStr (to_string (unat now))), (''mCert'', JStr []),
              (''hgt'', JStr (to_string (unat (link_height possible_link)))),
              (''hash'', JStr (encodeBase64 E (link_hash possible_link))), (''mSig'', JStr [])],
             receivers = [sender_id]\<rparr> a1) })"

text \<open>The stored block at a height, if it is the wanted one; the result of \<open>initialize\<close> is not looked at.\<close>

definition stored_block :: "ext \<Rightarrow> bytes \<Rightarrow> u64 \<Rightarrow> (storage_block_type \<Rightarrow> bool) \<Rightarrow> Storage \<Rightarrow> Block option option" where
  "stored_block E mem h wanted st = do {
     saved_block \<leftarrow> readBlock E h st;
     if 0 < sb_height saved_block \<and> wanted saved_block
     then do { (_, b) \<leftarrow> initialize_stored E mem saved_block new_block; Some (Some b) }
     else Some None }"

definition msg_block :: "ext \<Rightarrow> Setting \<Rightarrow> Block \<Rightarrow> id_type list \<Rightarrow> OutputMsgEntry option" where
  "msg_block E st b recv = do {
     body \<leftarrow> getBlockBodyJson E b;
     txs \<leftarrow> json_at body ''tx'';
     Some \<lparr>out_type = MSG_BLOCK, out_body = json_obj
       [(''mID'', JStr (encodeBase64 E (m_id st))), (''blockraw'', JStr (encodeBase64 E (m_block_raw b))), (''tx'', txs)],
       receivers = recv\<rparr> }"

definition handleMsgReqBlock :: "ext \<Rightarrow> bytes \<Rightarrow> Setting \<Rightarrow> u64 \<Rightarrow> json \<Rightarrow> ('a) Application_scheme \<Rightarrow> ('a) Application_scheme option" where
  "handleMsgReqBlock E mem st now body a = do {
     req_block_height \<leftarrow> getInt body ''hgt'';
     let req_prev_hash = getBytesFromB64 E body ''prevHash'';
     let req_hash = getBytesFromB64 E body ''hash'';
     let sender_id = getBytesFromB64 E body ''mID'';
     if no_blocks a then Some (bp_sendErrorMessage E st now BSYNC_NO_BLOCK sender_id a)
     else do {
       found \<leftarrow> getBlock_hash req_block_height req_prev_hash req_hash (ub_pool a);
       found \<leftarrow> (case found of Some b \<Rightarrow> Some (Some b)
                 | None \<Rightarrow> stored_block E mem req_block_height
                     (\<lambda>s. (req_prev_hash = [] \<or> sb_prev_hash s = req_prev_hash) \<and> (req_hash = [] \<or> sb_hash s = req_hash))
                     (pool_storage (ub_pool a)));
       case found of
         None \<Rightarrow> Some (bp_sendErrorMessage E st now NO_SUCH_BLOCK sender_id a)
       | Some ret_block \<Rightarrow> do { m \<leftarrow> msg_block E st ret_block [sender_id]; Some (app_send m a) } } }"

definition msg_header :: "ext \<Rightarrow> Block \<Rightarrow> OutputMsgEntry" where
  "msg_header E b = \<lparr>out_type = MSG_HEADER, out_body = json_obj [(''blockraw'', getBlockHeaderJson E b)], receivers = []\<rparr>"

definition handleMsgRequestHeader :: "ext \<Rightarrow> bytes \<Rightarrow> Setting \<Rightarrow> u64 \<Rightarrow> json \<Rightarrow> ('a) Application_scheme \<Rightarrow> ('a) Application_scheme option" where
  "handleMsgRequestHeader E mem st now body a =
     (let sender_id = getBytesFromB64 E body ''rID''
      in if no_blocks a then Some (bp_sendErrorMessage E st now NO_SUCH_BLOCK sender_id a)
         else do {
           req_block_height \<leftarrow> getInt body ''hgt'';
           found \<leftarrow> getBlock_height req_block_height (ub_pool a);
           found \<leftarrow> (case found of Some b \<Rightarrow> Some (Some b)
                     | None \<Rightarrow> stored_block E mem req_block_height (\<lambda>_. True) (pool_storage (ub_pool a)));
           case found of
             None \<Rightarrow> Some (bp_sendErrorMessage E st now NO_SUCH_BLOCK sender_id a)
           | Some ret_block \<Rightarrow> Some (app_send (msg_header E ret_block) a) })"

definition handleMsgReqCheck :: "ext \<Rightarrow> Setting \<Rightarrow> u64 \<Rightarrow> json \<Rightarrow> ('a) Application_scheme \<Rightarrow> ('a) Application_scheme option" where
  "handleMsgReqCheck E st now body a = do {
     prf \<leftarrow> getProof E (getStringK body ''txid'') (pool_storage (ub_pool a));
     let proof_json = JArr (map (\<lambda>(side, val). json_obj [(''side'', JBool side), (''val'', JStr val)]) (siblings prf));
     Some (app_send \<lparr>out_type = MSG_RES_CHECK, out_body = json_obj
       [(''mID'', JStr (encodeBase64 E (m_id st))), (''time'', JStr (to_string (unat now))),
        (''blockID'', JStr (proof_block_id_b64 prf)), (''proof'', proof_json)], receivers = []\<rparr> a) }"

section \<open>Received blocks\<close>

definition save_resolved :: "ext \<Rightarrow> UnresolvedBlock \<Rightarrow> LayeredStorage \<Rightarrow> LayeredStorage option" where
  "save_resolved E each_block ls = do {
     let b = ub_block each_block;
     ok \<leftarrow> isValidLate E (\<lambda>id_b64 t_time. getCertificate E id_b64 t_time ls) b;
     if \<not> ok then Some ls
     else do {
       block_body \<leftarrow> getBlockBodyJson E b;
       (_, st) \<leftarrow> saveBlock E (m_block_raw b) (getBlockHeaderJson E b) block_body (m_storage ls);
       Some (moveToDiskLedger (getBlockIdB64 E b) (ls\<lparr>m_storage := st\<rparr>)) } }"

definition procResolvedBlocksIf :: "ext \<Rightarrow> UnresolvedBlockPool \<Rightarrow> UnresolvedBlockPool option" where
  "procResolvedBlocksIf E p = do {
     let ((resolved_blocks, drop_blocks), p1) = getResolvedBlocks E p;
     ls \<leftarrow> fold_opt (save_resolved E) resolved_blocks (fold dropLedger drop_blocks (m_layered_storage p1));
     Some (p1\<lparr>m_layered_storage := ls\<rparr>) }"

definition tryResolveUnresolvedBlocksIf :: "ext \<Rightarrow> ('a) Application_scheme \<Rightarrow> ('a) Application_scheme option" where
  "tryResolveUnresolvedBlocksIf E a = do {
     ((height, prev_hash), p) \<leftarrow> getUnresolvedLowestLink (ub_pool a);
     let a1 = set_ub_pool p a;
     if 0 < height then
       let new_request = \<lparr>rq_hash_b64 = [], rq_prev_hash_b64 = encodeBase64 E prev_hash, rq_height = height,
                          rq_recv_id = [], rq_request_time = 0, rq_num_retry = 0\<rparr>;
           rs = m_request_list (app_block_processor a1)
       in Some (if \<exists>r \<in> set rs. rq_height r = height \<and> rq_prev_hash_b64 r = rq_prev_hash_b64 new_request then a1
                else set_requests (rs @ [new_request]) a1)
     else Some a1 }"

definition request_answered :: "ext \<Rightarrow> Block \<Rightarrow> BlockRequest \<Rightarrow> bool" where
  "request_answered E b r \<longleftrightarrow> rq_height r = m_height b \<and>
     (rq_hash_b64 r = [] \<or> rq_hash_b64 r = encodeBase64 E (m_block_hash b)) \<and>
     (rq_prev_hash_b64 r = [] \<or> rq_prev_hash_b64 r = encodeBase64 E (m_prev_block_hash b))"

definition msg_chain_info :: "ext \<Rightarrow> Setting \<Rightarrow> nth_link_type \<Rightarrow> OutputMsgEntry" where
  "msg_chain_info E st l =
     \<lparr>out_type = MSG_CHAIN_INFO, out_body = json_obj
        [(''msgID'', JStr (to_string (unat (msg_to_byte MSG_CHAIN_INFO)))), (''mID'', JStr (encodeBase64 E (m_id st))),
         (''cID'', JStr (encodeBase64 E (m_localchain_id st))), (''time'', JStr (to_string (unat (link_time l)))),
         (''hgt'', JStr (to_string (unat (link_height l)))), (''bID'', JStr (encodeBase64 E (link_id l))),
         (''prevbID'', JStr (encodeBase64 E (link_prev_id l))), (''hash'', JStr (encodeBase64 E (link_hash l))),
         (''prevHash'', JStr (encodeBase64 E (link_prev_hash l))), (''mSig'', JStr [])], receivers = []\<rparr>"

text \<open>The chain information is sent before the resolved blocks are taken out.\<close>

definition announce_link :: "ext \<Rightarrow> Setting \<Rightarrow> ('a) Application_scheme \<Rightarrow> ('a) Application_scheme option" where
  "announce_link E st a = do {
     (possible_link, a1) \<leftarrow> bp_getMostPossibleLink a;
     let a2 = app_send (msg_chain_info E st possible_link) a1;
     p \<leftarrow> procResolvedBlocksIf E (ub_pool a2);
     Some (set_ub_pool p a2) }"

definition accept_block :: "ext \<Rightarrow> Setting \<Rightarrow> (string \<Rightarrow> nat) \<Rightarrow> json \<Rightarrow> Block \<Rightarrow> bool \<Rightarrow> ('a) Application_scheme \<Rightarrow> ('a) Application_scheme option" where
  "accept_block E st h body recv_block is_linked a = do {
     let bp = app_block_processor a;
     let a1 = a\<lparr>app_block_processor := bp\<lparr>m_request_list := filter (\<lambda>r. \<not> request_answered E recv_block r) (m_request_list bp),
                                          m_last_block_sender := getBytesFromB64 E body ''mID''\<rparr>\<rparr>;
     a2 \<leftarrow> (if is_linked then announce_link E st a1 else Some a1);
     txp \<leftarrow> removeDuplicatedTransactions h (getTxIds recv_block) (app_transaction_pool a2);
     tryResolveUnresolvedBlocksIf E (a2\<lparr>app_transaction_pool := txp\<rparr>) }"

definition handleMsgBlock ::
  "ext \<Rightarrow> bytes \<Rightarrow> Setting \<Rightarrow> CertificatePool \<Rightarrow> (string \<Rightarrow> nat) \<Rightarrow> u64 \<Rightarrow> json \<Rightarrow> ('a) Application_scheme \<Rightarrow>
     (unblk_push_result_type \<times> ('a) Application_scheme) option" where
  "handleMsgBlock E mem st certs h now body a = do {
     (ok, recv_block) \<leftarrow> initialize_msg E mem body new_block;
     if \<not> ok then Some (push_failed, a)
     else do {
       ok \<leftarrow> isValidEarly E (\<lambda>uid. getCert E uid certs) recv_block;
       if \<not> ok then Some (push_failed, a)
       else do {
         (res, p) \<leftarrow> push E now recv_block False (ub_pool a);
         let a1 = set_ub_pool p a;
         if res_height res = 0 then Some (res, a1)
         else if res_duplicated res then do { a2 \<leftarrow> tryResolveUnresolvedBlocksIf E a1; Some (res, a2) }
         else do { a2 \<leftarrow> accept_block E st h body recv_block (res_linked res) a1; Some (res, a2) } } } }"

definition bp_handleMessage ::
  "ext \<Rightarrow> bytes \<Rightarrow> Setting \<Rightarrow> CertificatePool \<Rightarrow> (string \<Rightarrow> nat) \<Rightarrow> u64 \<Rightarrow> InputMsgEntry \<Rightarrow> ('a) Application_scheme \<Rightarrow>
     ('a) Application_scheme option" where
  "bp_handleMessage E mem st certs h now m a =
     (case in_type m of
        MSG_REQ_BLOCK \<Rightarrow> handleMsgReqBlock E mem st now (in_body m) a
      | MSG_BLOCK \<Rightarrow> map_option snd (handleMsgBlock E mem st certs h now (in_body m) a)
      | MSG_REQ_CHECK \<Rightarrow> handleMsgReqCheck E st now (in_body m) a
      | MSG_REQ_STATUS \<Rightarrow> handleMsgReqStatus E st now (in_body m) a
      | MSG_REQ_HEADER \<Rightarrow> handleMsgRequestHeader E mem st now (in_body m) a
      | _ \<Rightarrow> Some a)"

end
