(* ===== verification/Processor_Safety.thy ===== *)
theory Processor_Safety
  imports Block_Processor
begin

text \<open>
  What the block processor puts into the storage, over every sequence of messages: the blocks of the
  pool have passed the early check, the stored ones both checks, and the storage follows the pool up to
  the last resolved block that passes the late check. A run that stores a block is in \<open>Chain_Example\<close>.
\<close>

section \<open>The blocks of the pool\<close>

definition pool_blocks :: "UnresolvedBlockPool \<Rightarrow> Block set" where
  "pool_blocks p = ub_block ` set (concat (m_block_pool p))"

lemma pool_blocks_core: "pool_blocks p = snd ` set (concat (fst (core p)))"
  by (auto simp: pool_blocks_def core_def skel_def image_iff) force+

lemma pool_blocks_cong: "core p = core p' \<Longrightarrow> pool_blocks p = pool_blocks p'"
  by (simp add: pool_blocks_core)

lemma skel_push_blocks: "i < length S \<Longrightarrow> snd ` set (concat (skel_push b i q S)) = insert b (snd ` set (concat S))"
proof -
  assume i: "i < length S"
  have "snd ` set (skel_push b i q S ! j) = snd ` set (S ! j) \<union> (if j = i then {b} else {})" if "j < length S" for j
    using i that by (auto simp: skel_push_nth image_image)
  then have "(\<Union>j < length S. snd ` set (skel_push b i q S ! j)) = insert b (\<Union>j < length S. snd ` set (S ! j))"
    using i by (auto split: if_splits)
  moreover have "snd ` set (concat T) = (\<Union>j < length T. snd ` set (T ! j))" for T :: skeleton
    by (auto simp: in_set_conv_nth [of _ T]) force+
  ultimately show ?thesis by simp
qed

lemma prepareBins_blocks:
  assumes "prepareBins now h p = Some (ok, p1)"
  shows "pool_blocks p1 = pool_blocks p" "pool_storage p1 = pool_storage p"
    "ok \<Longrightarrow> 0 \<le> bin_of h p \<Longrightarrow> nat (bin_of h p) < length (m_block_pool p1)"
  using assms by (force simp: prepareBins_def Let_def pool_blocks_def pool_storage_def nat_less_iff split: if_splits)+

lemma pool_storage_simps [simp]:
  "pool_storage (p\<lparr>m_block_pool := bins\<rparr>) = pool_storage p" "pool_storage (upd_block i j f p) = pool_storage p"
  "pool_storage (p\<lparr>m_height_range_max := x\<rparr>) = pool_storage p" "pool_storage (invalidateCaches p) = pool_storage p"
  "pool_storage (set_pool_storage st p) = st" "pool_storage (p\<lparr>m_layered_storage := ls\<rparr>) = m_storage ls"
  "m_storage (setBlockLayer l ls) = m_storage ls"
  by (simp_all add: pool_storage_def upd_block_def invalidateCaches_def set_pool_storage_def setBlockLayer_def)

lemma backup_frame: "backupPool E p = Some p' \<Longrightarrow> block_dbs (pool_storage p') = block_dbs (pool_storage p)"
proof -
  assume "backupPool E p = Some p'"
  then obtain st where st: "fold_opt (\<lambda>b st. do { s \<leftarrow> serialize E b; Some (saveBackup (getBlockIdB64 E b) s st) })
      (map ub_block (concat (m_block_pool p))) (pool_storage p) = Some st"
    and p': "block_dbs (pool_storage p') = block_dbs st"
    by (auto simp: backupPool_def Let_def split: Option.bind_splits)
  from st have "block_dbs st = block_dbs (pool_storage p)"
    by (rule fold_opt_invariant [where I = "\<lambda>s. block_dbs s = block_dbs (pool_storage p)"]) (auto split: Option.bind_splits)
  with p' show ?thesis by simp
qed

lemma longest_frame: "pool_storage (snd (getLongestBlockPos p)) = pool_storage p"
  by (simp add: getLongestBlockPos_def pool_storage_def split: option.splits)

lemma layer_frame: "getMostPossibleBlockLayer E p = Some (l, p') \<Longrightarrow> pool_storage p' = pool_storage p"
  using longest_frame [of p]
  by (auto simp: getMostPossibleBlockLayer_def pool_storage_def Let_def split: option.splits prod.splits Option.bind_splits)

lemma link_frame: "getMostPossibleLink p = Some (l, p') \<Longrightarrow> pool_storage p' = pool_storage p \<and> core p' = core p"
  using longest_frame [of p] core_getLongestBlockPos [of p]
  by (auto simp: getMostPossibleLink_def pool_storage_def core_def Let_def split: option.splits prod.splits Option.bind_splits if_splits)

lemma lowest_frame: "getUnresolvedLowestLink p = Some (l, p') \<Longrightarrow> pool_storage p' = pool_storage p \<and> core p' = core p"
  using longest_frame [of p] core_getLongestBlockPos [of p]
  by (auto simp: getUnresolvedLowestLink_def Let_def split: prod.splits Option.bind_splits if_splits)

lemma push_at_frame:
  assumes "push_at E b r i q p = Some (res, p')"
  shows "block_dbs (pool_storage p') = block_dbs (pool_storage p)"
  using assms
  by (auto simp: push_at_def Let_def pool_storage_def [symmetric] split: if_splits Option.bind_splits
      dest!: block_db_frame.forward_from backup_frame layer_frame)

lemma push_frame:
  assumes "push E now b r p = Some (res, p')"
  shows "pool_blocks p' \<subseteq> insert b (pool_blocks p)" "block_dbs (pool_storage p') = block_dbs (pool_storage p)"
proof -
  obtain ok p1 where prep: "prepareBins now (m_height b) p = Some (ok, p1)"
    using assms by (cases "prepareBins now (m_height b) p") (auto simp: push_def Let_def)
  note fr = prepareBins_blocks [OF prep]
  let ?i = "nat (bin_of (m_height b) p)"
  consider "p' = p1" | q where "ok" "0 \<le> bin_of (m_height b) p" "push_at E b r ?i q p1 = Some (res, p')"
    using assms prep by (fastforce simp: push_def Let_def split: if_splits)
  then have "pool_blocks p' \<subseteq> insert b (pool_blocks p1) \<and> block_dbs (pool_storage p') = block_dbs (pool_storage p1)"
  proof cases
    case 2
    with fr(3) have i: "?i < length (m_block_pool p1)" by blast
    from push_at_core [OF 2(3) i] i skel_push_blocks [of ?i "skel (m_block_pool p1)" b q] push_at_frame [OF 2(3)]
    show ?thesis by (simp add: pool_blocks_core core_def)
  qed auto
  with fr show "pool_blocks p' \<subseteq> insert b (pool_blocks p)" "block_dbs (pool_storage p') = block_dbs (pool_storage p)" by auto
qed

lemma resolve_step_blocks:
  assumes "resolveBlocksStepByStep E p = (p', Some (u, d))"
  shows "ub_block u \<in> pool_blocks p" "pool_blocks p' \<subseteq> pool_blocks p" "pool_storage p' = pool_storage p"
proof -
  obtain r b0 b1 bins where st: "m_block_pool (updateConfirmLevel p) = b0 # b1 # bins"
    "pick_resolved (b0 # b1 # bins) = Some r" "u = b0 ! r" "p' = resolve_at (ub_block u) (updateConfirmLevel p)"
    "m_block_pool p' = relink (ub_block u) b1 # bins"
    using resolve_step_SomeE [OF assms] by metis
  have eq: "pool_blocks p = pool_blocks (updateConfirmLevel p)" by (rule pool_blocks_cong) simp
  show "ub_block u \<in> pool_blocks p"
    using pick_resolved_spec(1) [OF st(2)] st(3) unfolding eq by (simp add: pool_blocks_def st(1))
  have "ub_block ` set (relink b bin) = ub_block ` set bin" for b bin by (auto simp: relink_def image_image)
  then show "pool_blocks p' \<subseteq> pool_blocks p" unfolding eq by (auto simp: pool_blocks_def st(1,5) image_Un)
  show "pool_storage p' = pool_storage p" by (simp add: st(4) resolve_at_def updateConfirmLevel_def pool_storage_def)
qed

lemma resolve_loop_blocks:
  assumes "resolve_loop E p rs0 ds0 = (p', rs, ds)"
  shows "ub_block ` set rs \<subseteq> ub_block ` set rs0 \<union> pool_blocks p \<and> pool_blocks p' \<subseteq> pool_blocks p \<and> pool_storage p' = pool_storage p"
  using assms
proof (induction E p rs0 ds0 rule: resolve_loop.induct)
  case (1 E p rs0 ds0)
  obtain q r where step: "resolveBlocksStepByStep E p = (q, r)" by (cases "resolveBlocksStepByStep E p")
  show ?case
  proof (cases r)
    case None
    with "1.prems" step have p': "p' = updateConfirmLevel p" "rs = rs0"
      by (auto simp: resolve_loop.simps [of E p] dest: resolve_step_None)
    have "pool_blocks p' = pool_blocks p" unfolding p' by (rule pool_blocks_cong) simp
    then show ?thesis by (auto simp: p' updateConfirmLevel_def)
  next
    case (Some ud)
    obtain u d where ud: "ud = (u, d)" by (cases ud)
    have "resolve_loop E q (rs0 @ [u]) (ds0 @ d) = (p', rs, ds)"
      using "1.prems" step Some ud by (simp add: resolve_loop.simps [of E p])
    from "1.IH" [OF step [symmetric] Some ud [symmetric] this] resolve_step_blocks [OF step [unfolded Some ud]] show ?thesis
      by auto
  qed
qed

lemma fold_delBackup_frame [simp]: "block_dbs (fold delBackup ids st) = block_dbs st"
  by (induction ids arbitrary: st) auto

lemma getResolvedBlocks_frame:
  assumes "getResolvedBlocks E p = ((rs, ds), p')"
  shows "ub_block ` set rs \<subseteq> pool_blocks p" "pool_blocks p' \<subseteq> pool_blocks p"
    "block_dbs (pool_storage p') = block_dbs (pool_storage p)"
proof -
  obtain q rs1 ds1 where loop: "resolve_loop E p [] [] = (q, rs1, ds1)" by (cases "resolve_loop E p [] []") auto
  have "rs1 = rs" "core p' = core q" "block_dbs (pool_storage p') = block_dbs (pool_storage q)"
    using assms loop by (auto simp: getResolvedBlocks_def Let_def split: if_splits)
  with resolve_loop_blocks [OF loop] pool_blocks_cong [of p' q]
  show "ub_block ` set rs \<subseteq> pool_blocks p" "pool_blocks p' \<subseteq> pool_blocks p"
    "block_dbs (pool_storage p') = block_dbs (pool_storage p)" by auto
qed

section \<open>Saving checked blocks\<close>

text \<open>Base64 has no underscore, which separates the block id from the suffixes of the keys.\<close>

definition b64_alphabet :: "ext \<Rightarrow> bool" where
  "b64_alphabet E \<longleftrightarrow> (\<forall>b. CHR ''_'' \<notin> set (base64_encode E b))"

lemma b64_no_suffix: "b64_alphabet E \<Longrightarrow> encodeBase64 E x \<noteq> encodeBase64 E y @ ''_hash''"
proof -
  assume "b64_alphabet E"
  then have "CHR ''_'' \<notin> set (encodeBase64 E x)" by (simp add: b64_alphabet_def encodeBase64_def)
  then show ?thesis by auto
qed

lemma saveBlock_index:
  assumes "saveBlock E raw hdr body st = Some (True, st')" "batches_empty st"
  shows "getValueByKey BLOCK_HEIGHT k st' = (if k = getStringK hdr ''hgt'' then getStringK hdr ''bID'' else getValueByKey BLOCK_HEIGHT k st)"
    and "k \<noteq> getStringK hdr ''bID'' @ ''_hash'' \<Longrightarrow> getValueByKey BLOCK_RAW k st' =
      (if k = getStringK hdr ''bID'' then bytesToString raw else getValueByKey BLOCK_RAW k st)"
proof -
  let ?bid = "getStringK hdr ''bID''"
  obtain s1 s2 s3 s4 s5 where steps:
    "putBlockHeader E hdr ?bid st = Some (True, s1)" "putBlockHeight hdr ?bid s1 = Some (True, s2)"
    "putLatestBlockHeader E hdr s2 = Some (True, s3)" "putTransaction E body ?bid s3 = Some (True, s4)"
    "putBlockRaw E raw ?bid s4 = Some (True, s5)" "st' = commitBatchAll s5"
    using saveBlock_TrueE [OF assms(1)] by blast
  have 3: "pending s3 w = pending s2 w" if "w \<noteq> BLOCK_LATEST" for w
    using steps(3) that by (auto simp: putLatestBlockHeader_def split: Option.bind_splits if_splits)
  have 4: "pending s4 w = pending s3 w" if "w \<noteq> TRANSACTION" for w
    using putTransaction_batches [OF steps(4)] that by (auto simp: put_txs_pending_other)
  have 1: "pending s1 w = m_db st w" if "block_db w" "w \<noteq> BLOCK_HEADER" for w
    using putBlockHeader_batches(1) [OF steps(1)] pending_empty [OF assms(2) that(1)] that(2) by (simp add: fold_addBatch_pending)
  show "getValueByKey BLOCK_HEIGHT k st' = (if k = getStringK hdr ''hgt'' then ?bid else getValueByKey BLOCK_HEIGHT k st)"
    using steps(2,5,6) by (auto simp: putBlockHeight_def putBlockRaw_def 1 3 4 getValueByKey_opt [of _ _ st])
  show "k \<noteq> ?bid @ ''_hash'' \<Longrightarrow> getValueByKey BLOCK_RAW k st' = (if k = ?bid then bytesToString raw else getValueByKey BLOCK_RAW k st)"
    using steps(2,5,6) by (auto simp: putBlockHeight_def putBlockRaw_def 1 3 4 getValueByKey_opt [of _ _ st])
qed

text \<open>Every id in the index of heights is that of a block with a property, whose bytes are stored.\<close>

definition stored_from :: "ext \<Rightarrow> (Block \<Rightarrow> bool) \<Rightarrow> Storage \<Rightarrow> bool" where
  "stored_from E P st \<longleftrightarrow> (\<forall>k. getValueByKey BLOCK_HEIGHT k st \<noteq> [] \<longrightarrow>
     (\<exists>b. P b \<and> getBlockIdB64 E b = getValueByKey BLOCK_HEIGHT k st \<and>
          getValueByKey BLOCK_RAW (getValueByKey BLOCK_HEIGHT k st) st = bytesToString (m_block_raw b)))"

text \<open>
  A late check, while the resolved blocks of a pool are saved: the block is one of them, the ledger is what
  dropping and saving the blocks before it have left, and the check has this result.
\<close>

definition late_check :: "ext \<Rightarrow> UnresolvedBlockPool \<Rightarrow> Block \<Rightarrow> LayeredStorage \<Rightarrow> bool \<Rightarrow> bool" where
  "late_check E p b ls ok \<longleftrightarrow> (\<exists>rs1 u rs2 ds p1. getResolvedBlocks E p = ((rs1 @ u # rs2, ds), p1) \<and> b = ub_block u \<and>
     fold_opt (save_resolved E) rs1 (fold dropLedger ds (m_layered_storage p1)) = Some ls \<and>
     isValidLate E (\<lambda>id_b64 t. getCertificate E id_b64 t ls) b = Some ok)"

text \<open>\<open>R\<close> holds of the blocks of the pool and of the stored ones, \<open>L\<close> of the stored ones.\<close>

definition safe_pool :: "ext \<Rightarrow> (Block \<Rightarrow> bool) \<Rightarrow> (Block \<Rightarrow> bool) \<Rightarrow> UnresolvedBlockPool \<Rightarrow> bool" where
  "safe_pool E R L p \<longleftrightarrow> (\<forall>b \<in> pool_blocks p. R b) \<and>
     batches_empty (pool_storage p) \<and> stored_from E (\<lambda>b. R b \<and> L b) (pool_storage p)"

lemma safe_pool_less:
  assumes "safe_pool E R L p" "pool_blocks p' \<subseteq> pool_blocks p" "block_dbs (pool_storage p') = block_dbs (pool_storage p)"
  shows "safe_pool E R L p'"
  using assms block_dbs_batches [OF assms(3)] block_dbs_read [OF assms(3)] unfolding safe_pool_def stored_from_def by simp blast

lemma safe_pool_core:
  assumes "safe_pool E R L p" "core p' = core p" "pool_storage p' = pool_storage p"
  shows "safe_pool E R L p'"
  using safe_pool_less [OF assms(1)] assms(2,3) pool_blocks_cong [OF assms(2)] by simp

lemma saveBlock_from:
  assumes "saveBlock E (m_block_raw b) (getBlockHeaderJson E b) body st = Some (ok, st')" "batches_empty st"
    "stored_from E P st" "P b" "b64_alphabet E"
  shows "stored_from E P st'"
proof (cases ok)
  case True
  have "saveBlock E (m_block_raw b) (getBlockHeaderJson E b) body st = Some (True, st')" using assms(1) True by simp
  note ix = saveBlock_index [OF this assms(2), unfolded header_members]
  let ?bid = "encodeBase64 E (m_block_id b)"
  have "\<exists>b'. P b' \<and> getBlockIdB64 E b' = getValueByKey BLOCK_HEIGHT k st' \<and>
      getValueByKey BLOCK_RAW (getValueByKey BLOCK_HEIGHT k st') st' = bytesToString (m_block_raw b')"
    if ne: "getValueByKey BLOCK_HEIGHT k st' \<noteq> []" for k
  proof (cases "getValueByKey BLOCK_HEIGHT k st' = ?bid")
    case True
    then show ?thesis using assms(4) ix(2) [of ?bid] by (auto simp: getBlockIdB64_def)
  next
    case False
    then have old: "getValueByKey BLOCK_HEIGHT k st' = getValueByKey BLOCK_HEIGHT k st" using ix(1) [of k] by (auto split: if_splits)
    with assms(3) ne obtain b' where b': "P b'" "getBlockIdB64 E b' = getValueByKey BLOCK_HEIGHT k st"
      "getValueByKey BLOCK_RAW (getValueByKey BLOCK_HEIGHT k st) st = bytesToString (m_block_raw b')"
      unfolding stored_from_def by metis
    have "getValueByKey BLOCK_HEIGHT k st \<noteq> ?bid @ ''_hash''"
      using b64_no_suffix [OF assms(5)] b'(2) by (metis getBlockIdB64_def)
    from ix(2) [OF this] False old b' show ?thesis by auto
  qed
  then show ?thesis by (simp add: stored_from_def)
next
  case False
  with saveBlock_False assms(1) have "getValueByKey w k st' = getValueByKey w k st" for w k
    by (metis (full_types) getValueByKey_def)
  with assms(3) show ?thesis by (simp add: stored_from_def)
qed

lemma save_resolved_from:
  assumes "save_resolved E u ls = Some ls'" "batches_empty (m_storage ls) \<and> stored_from E P (m_storage ls)" "b64_alphabet E"
    "isValidLate E (\<lambda>id_b64 t. getCertificate E id_b64 t ls) (ub_block u) = Some True \<Longrightarrow> P (ub_block u)"
  shows "batches_empty (m_storage ls') \<and> stored_from E P (m_storage ls')"
proof -
  obtain ok where ok: "isValidLate E (\<lambda>id_b64 t. getCertificate E id_b64 t ls) (ub_block u) = Some ok"
    using assms(1) by (auto simp: save_resolved_def Let_def bind_eq_Some_conv)
  show ?thesis
  proof (cases ok)
    case True
    then have P: "P (ub_block u)" using ok assms(4) by simp
    obtain body r st where sv: "saveBlock E (m_block_raw (ub_block u)) (getBlockHeaderJson E (ub_block u)) body (m_storage ls) = Some (r, st)"
      and ls': "block_dbs (m_storage ls') = block_dbs st"
      using assms(1) ok True by (auto simp: save_resolved_def Let_def bind_eq_Some_conv)
    have "batches_empty st" "stored_from E P st"
      using saveBlock_batches_empty [OF sv] saveBlock_from [where P = P, OF sv _ _ P assms(3)] assms(2) by simp_all
    then show ?thesis using block_dbs_batches [OF ls'] block_dbs_read [OF ls'] by (simp add: stored_from_def)
  qed (use assms ok in \<open>simp add: save_resolved_def Let_def\<close>)
qed

lemma procResolved_safe:
  assumes "procResolvedBlocksIf E p = Some p'" "safe_pool E R L p" "b64_alphabet E" "\<And>b ls. late_check E p b ls True \<Longrightarrow> L b"
  shows "safe_pool E R L p'"
proof -
  obtain rs ds p1 where g: "getResolvedBlocks E p = ((rs, ds), p1)" by (metis prod.exhaust)
  note fr = getResolvedBlocks_frame [OF g]
  have safe1: "safe_pool E R L p1" by (rule safe_pool_less [OF assms(2) fr(2,3)])
  obtain ls where ls: "fold_opt (save_resolved E) rs (fold dropLedger ds (m_layered_storage p1)) = Some ls"
    and p': "p' = p1\<lparr>m_layered_storage := ls\<rparr>"
    using assms(1) g by (auto simp: procResolvedBlocksIf_def bind_eq_Some_conv)
  have "batches_empty (m_storage ls) \<and> stored_from E (\<lambda>b. R b \<and> L b) (m_storage ls)"
  proof (rule fold_opt_prefix_invariant [OF ls, where I = "\<lambda>ls. batches_empty (m_storage ls) \<and> stored_from E (\<lambda>b. R b \<and> L b) (m_storage ls)"])
    show "batches_empty (m_storage (fold dropLedger ds (m_layered_storage p1))) \<and>
        stored_from E (\<lambda>b. R b \<and> L b) (m_storage (fold dropLedger ds (m_layered_storage p1)))"
      using safe1 by (simp add: safe_pool_def pool_storage_def)
    fix rs1 u rs2 s s'
    assume step: "rs = rs1 @ u # rs2" "fold_opt (save_resolved E) rs1 (fold dropLedger ds (m_layered_storage p1)) = Some s"
      "batches_empty (m_storage s) \<and> stored_from E (\<lambda>b. R b \<and> L b) (m_storage s)" "save_resolved E u s = Some s'"
    have "R (ub_block u)" using fr(1) step(1) assms(2) by (auto simp: safe_pool_def)
    moreover have "L (ub_block u)" if "isValidLate E (\<lambda>id_b64 t. getCertificate E id_b64 t s) (ub_block u) = Some True"
      using that step(1,2) g by (intro assms(4) [of "ub_block u" s]) (auto simp: late_check_def)
    ultimately show "batches_empty (m_storage s') \<and> stored_from E (\<lambda>b. R b \<and> L b) (m_storage s')"
      using save_resolved_from [OF step(4,3) assms(3)] by blast
  qed
  moreover have "pool_blocks p' = pool_blocks p1" by (simp add: p' pool_blocks_def)
  ultimately show ?thesis using safe1 by (simp add: safe_pool_def p')
qed

section \<open>Every message keeps the pool safe\<close>

lemma ub_pool_simps [simp]:
  "ub_pool (set_ub_pool p a) = p" "ub_pool (app_send m a) = ub_pool a" "ub_pool (set_requests rs a) = ub_pool a"
  "ub_pool (a\<lparr>app_transaction_pool := t\<rparr>) = ub_pool a" "ub_pool (bp_sendErrorMessage E st now e i a) = ub_pool a"
  "ub_pool (a\<lparr>app_block_processor := (app_block_processor a)\<lparr>m_request_list := rs, m_last_block_sender := s\<rparr>\<rparr>) = ub_pool a"
  by (simp_all add: ub_pool_def set_ub_pool_def app_send_def set_requests_def bp_sendErrorMessage_def)

lemma tryResolve_safe:
  assumes "tryResolveUnresolvedBlocksIf E a = Some a'" "safe_pool E R L (ub_pool a)"
  shows "safe_pool E R L (ub_pool a')"
proof -
  obtain l p where l: "getUnresolvedLowestLink (ub_pool a) = Some (l, p)" "ub_pool a' = p"
    using assms(1) by (auto simp: tryResolveUnresolvedBlocksIf_def Let_def split: Option.bind_splits if_splits)
  with lowest_frame [OF l(1)] safe_pool_core [OF assms(2)] show ?thesis by simp
qed

text \<open>The pool whose resolved blocks are saved when a block arrives: the block is pushed and the link announced.\<close>

definition resolving :: "ext \<Rightarrow> u64 \<Rightarrow> Block \<Rightarrow> UnresolvedBlockPool \<Rightarrow> UnresolvedBlockPool \<Rightarrow> bool" where
  "resolving E now b p p' \<longleftrightarrow> (\<exists>res p0 l. push E now b False p = Some (res, p0) \<and> getMostPossibleLink p0 = Some (l, p'))"

lemma accept_block_safe:
  assumes "accept_block E st h body b lk a = Some a'" "safe_pool E R L (ub_pool a)" "b64_alphabet E"
    "\<And>l p b ls. getMostPossibleLink (ub_pool a) = Some (l, p) \<Longrightarrow> late_check E p b ls True \<Longrightarrow> L b"
  shows "safe_pool E R L (ub_pool a')"
proof -
  let ?bp = "app_block_processor a"
  let ?a1 = "a\<lparr>app_block_processor := ?bp\<lparr>m_request_list := filter (\<lambda>r. \<not> request_answered E b r) (m_request_list ?bp),
    m_last_block_sender := getBytesFromB64 E body ''mID''\<rparr>\<rparr>"
  obtain a2 txp where a2: "(if lk then announce_link E st ?a1 else Some ?a1) = Some a2"
    and a': "tryResolveUnresolvedBlocksIf E (a2\<lparr>app_transaction_pool := txp\<rparr>) = Some a'"
    using assms(1) by (auto simp: accept_block_def Let_def bind_eq_Some_conv)
  have "safe_pool E R L (ub_pool a2)"
  proof (cases lk)
    case True
    then obtain l p p2 where p: "getMostPossibleLink (ub_pool a) = Some (l, p)" "procResolvedBlocksIf E p = Some p2" "ub_pool a2 = p2"
      using a2 by (auto simp: announce_link_def bp_getMostPossibleLink_def Let_def split: Option.bind_splits)
    with link_frame [OF p(1)] safe_pool_core [OF assms(2)] have "safe_pool E R L p" by simp
    with p show ?thesis using procResolved_safe [OF p(2) _ assms(3)] assms(4) [OF p(1)] by blast
  qed (use a2 assms(2) in auto)
  with tryResolve_safe [OF a'] show ?thesis by simp
qed

lemma handleMsgBlock_safe:
  assumes "handleMsgBlock E mem st certs h now body a = Some (res, a')" "safe_pool E R L (ub_pool a)" "b64_alphabet E"
    "\<And>b. initialize_msg E mem body new_block = Some (True, b) \<Longrightarrow> isValidEarly E (\<lambda>uid. getCert E uid certs) b = Some True \<Longrightarrow> R b"
    "\<And>b' p b ls. initialize_msg E mem body new_block = Some (True, b') \<Longrightarrow> resolving E now b' (ub_pool a) p \<Longrightarrow>
       late_check E p b ls True \<Longrightarrow> L b"
  shows "safe_pool E R L (ub_pool a')"
proof (cases "ub_pool a' = ub_pool a")
  case False
  then obtain b r p where i: "initialize_msg E mem body new_block = Some (True, b)"
    and b: "isValidEarly E (\<lambda>uid. getCert E uid certs) b = Some True" "push E now b False (ub_pool a) = Some (r, p)"
    and a': "a' = set_ub_pool p a \<or> tryResolveUnresolvedBlocksIf E (set_ub_pool p a) = Some a' \<or>
      accept_block E st h body b (res_linked r) (set_ub_pool p a) = Some a'"
    using assms(1) unfolding handleMsgBlock_def Let_def
    by (auto split: Option.bind_splits if_splits)
  have "safe_pool E R L p"
    using push_frame [OF b(2)] assms(2) assms(4) [OF i b(1)] block_dbs_batches [of "pool_storage p"] block_dbs_read [of "pool_storage p"]
    by (auto simp: safe_pool_def stored_from_def)
  moreover have "L b'" if "getMostPossibleLink p = Some (l, p')" "late_check E p' b' ls True" for l p' b' ls
    using that b(2) by (intro assms(5) [OF i]) (auto simp: resolving_def)
  then have acc: "safe_pool E R L (ub_pool a')" if "accept_block E st h body b (res_linked r) (set_ub_pool p a) = Some a'" "safe_pool E R L p"
    using accept_block_safe [OF that(1) _ assms(3)] that(2) by simp
  moreover have "safe_pool E R L (ub_pool a')" if "tryResolveUnresolvedBlocksIf E (set_ub_pool p a) = Some a'" "safe_pool E R L p"
    using tryResolve_safe [OF that(1)] that(2) by simp
  ultimately show ?thesis using a' by auto
qed (use assms(2) in simp)

lemma bp_handleMessage_safe:
  assumes "bp_handleMessage E mem st certs h now m a = Some a'" "safe_pool E R L (ub_pool a)" "b64_alphabet E"
    "\<And>b. in_type m = MSG_BLOCK \<Longrightarrow> initialize_msg E mem (in_body m) new_block = Some (True, b) \<Longrightarrow>
       isValidEarly E (\<lambda>uid. getCert E uid certs) b = Some True \<Longrightarrow> R b"
    "\<And>b' p b ls. in_type m = MSG_BLOCK \<Longrightarrow> initialize_msg E mem (in_body m) new_block = Some (True, b') \<Longrightarrow>
       resolving E now b' (ub_pool a) p \<Longrightarrow> late_check E p b ls True \<Longrightarrow> L b"
  shows "safe_pool E R L (ub_pool a')"
proof (cases "in_type m = MSG_BLOCK")
  case True
  then obtain res where "handleMsgBlock E mem st certs h now (in_body m) a = Some (res, a')"
    using assms(1) by (auto simp: bp_handleMessage_def)
  from handleMsgBlock_safe [OF this assms(2,3)] assms(4,5) True show ?thesis by blast
next
  case False
  have "core (ub_pool a') = core (ub_pool a) \<and> pool_storage (ub_pool a') = pool_storage (ub_pool a)"
    using assms(1) False
    by (auto simp: bp_handleMessage_def handleMsgReqBlock_def handleMsgReqCheck_def handleMsgReqStatus_def handleMsgRequestHeader_def
        bp_getMostPossibleLink_def Let_def dest!: link_frame split: MessageType.splits Option.bind_splits if_splits option.splits)
  then show ?thesis using safe_pool_core [OF assms(2)] by blast
qed

section \<open>Runs of the processor\<close>

definition bp_run :: "ext \<Rightarrow> bytes \<Rightarrow> Setting \<Rightarrow> CertificatePool \<Rightarrow> (string \<Rightarrow> nat) \<Rightarrow> (u64 \<times> InputMsgEntry) list \<Rightarrow>
    Application \<Rightarrow> Application option" where
  "bp_run E mem st certs h msgs a = fold_opt (\<lambda>(now, m). bp_handleMessage E mem st certs h now m) msgs a"

text \<open>The block was parsed from one of the messages and passed the early check.\<close>

definition received :: "ext \<Rightarrow> bytes \<Rightarrow> CertificatePool \<Rightarrow> (u64 \<times> InputMsgEntry) list \<Rightarrow> Block \<Rightarrow> bool" where
  "received E mem certs msgs b \<longleftrightarrow> (\<exists>(now, m) \<in> set msgs. in_type m = MSG_BLOCK \<and>
     initialize_msg E mem (in_body m) new_block = Some (True, b) \<and> isValidEarly E (\<lambda>uid. getCert E uid certs) b = Some True)"

text \<open>The block passed the late check when one of the messages was handled, against the ledger of that moment.\<close>

definition checked_late :: "ext \<Rightarrow> bytes \<Rightarrow> Setting \<Rightarrow> CertificatePool \<Rightarrow> (string \<Rightarrow> nat) \<Rightarrow> (u64 \<times> InputMsgEntry) list \<Rightarrow>
    Application \<Rightarrow> Block \<Rightarrow> bool" where
  "checked_late E mem st certs h msgs a b \<longleftrightarrow> (\<exists>pre now m post a1 b' p ls. msgs = pre @ (now, m) # post \<and>
     bp_run E mem st certs h pre a = Some a1 \<and> in_type m = MSG_BLOCK \<and>
     initialize_msg E mem (in_body m) new_block = Some (True, b') \<and> resolving E now b' (ub_pool a1) p \<and> late_check E p b ls True)"

lemma bp_run_safe:
  assumes "bp_run E mem st certs h msgs a = Some a'" "b64_alphabet E"
    "safe_pool E (received E mem certs msgs) (checked_late E mem st certs h msgs a) (ub_pool a)"
  shows "safe_pool E (received E mem certs msgs) (checked_late E mem st certs h msgs a) (ub_pool a')"
proof (rule fold_opt_prefix_invariant [OF assms(1) [unfolded bp_run_def],
      where I = "\<lambda>a'. safe_pool E (received E mem certs msgs) (checked_late E mem st certs h msgs a) (ub_pool a')", OF assms(3)])
  fix pre x post a1 a2
  assume split: "msgs = pre @ x # post" and pre: "fold_opt (\<lambda>(now, m). bp_handleMessage E mem st certs h now m) pre a = Some a1"
    and safe: "safe_pool E (received E mem certs msgs) (checked_late E mem st certs h msgs a) (ub_pool a1)"
    and step: "(\<lambda>(now, m). bp_handleMessage E mem st certs h now m) x a1 = Some a2"
  obtain now m where x: "x = (now, m)" by fastforce
  show "safe_pool E (received E mem certs msgs) (checked_late E mem st certs h msgs a) (ub_pool a2)"
  proof (rule bp_handleMessage_safe [OF step [unfolded x, simplified] safe assms(2)])
    fix b assume "in_type m = MSG_BLOCK" "initialize_msg E mem (in_body m) new_block = Some (True, b)"
      "isValidEarly E (\<lambda>uid. getCert E uid certs) b = Some True"
    then show "received E mem certs msgs b" by (auto simp: received_def split x)
  next
    fix b' p b ls assume "in_type m = MSG_BLOCK" "initialize_msg E mem (in_body m) new_block = Some (True, b')"
      "resolving E now b' (ub_pool a1) p" "late_check E p b ls True"
    then show "checked_late E mem st certs h msgs a b"
      using split pre unfolding checked_late_def bp_run_def x by blast
  qed
qed

section \<open>The storage follows the pool\<close>

text \<open>A block as the generator makes it and as it is restored from its raw form.\<close>

definition saveable :: "ext \<Rightarrow> Block \<Rightarrow> bool" where
  "saveable E b \<longleftrightarrow> block_ok E b \<and> 0 < m_height b \<and> m_transactions b \<noteq> [] \<and> m_block_id b \<noteq> [] \<and>
     distinct (getTxIds b) \<and> length (m_transactions b) \<le> MAX_MERKLE_LEAVES"

lemma saveable_saved:
  assumes "saveable E b" "base64_law E" "batches_empty st" "getNthBlockLinkInfo E 0 st = Some l" "link_height l < m_height b"
  shows "\<exists>body st'. getBlockBodyJson E b = Some body \<and>
    saveBlock E (m_block_raw b) (getBlockHeaderJson E b) body st = Some (True, st') \<and> batches_empty st' \<and>
    map_option link_height (getNthBlockLinkInfo E 0 st') = Some (m_height b)"
proof -
  have ok: "block_ok E b" "0 < m_height b" "m_transactions b \<noteq> []" "m_block_id b \<noteq> []" "distinct (getTxIds b)"
    "length (m_transactions b) \<le> MAX_MERKLE_LEAVES" using assms(1) by (simp_all add: saveable_def)
  have nodes: "m_merkle_tree_node b = calcMerkleTreeNode E (m_transactions b)" "m_ssigs b \<noteq> []" using ok(1) by (simp_all add: block_ok_def)
  then obtain body where body: "getBlockBodyJson E b = Some body" using body_json [OF _ ok(6)] by auto
  note w = block_json_written [OF ok(1) assms(2) ok(2-6) body]
  obtain ssigs mtree where "json_at (getBlockHeaderJson E b) ''SSig'' = Some (JArr ssigs)" "json_at body ''mtree'' = Some mtree"
    using header_arrays(1) nodes body_json [OF _ ok(6)] body by auto
  from saveBlock_succeeds [OF w this assms(4)] obtain st' where
    s: "saveBlock E (m_block_raw b) (getBlockHeaderJson E b) body st = Some (True, st')" by blast
  have "map_option link_height (getNthBlockLinkInfo E 0 st') = Some (word_of_nat (unat (m_height b)))"
    using assms(5) by (intro saveBlock_raises [OF s w assms(3,4)]) simp
  with s body saveBlock_batches_empty [OF s] show ?thesis by auto
qed

definition stored_up_to :: "ext \<Rightarrow> u64 \<Rightarrow> Storage \<Rightarrow> bool" where
  "stored_up_to E h st \<longleftrightarrow> batches_empty st \<and> map_option link_height (getNthBlockLinkInfo E 0 st) = Some h"

lemma save_resolved_refused:
  assumes "save_resolved E u ls = Some ls'" "isValidLate E (\<lambda>id_b64 t. getCertificate E id_b64 t ls) (ub_block u) \<noteq> Some True"
  shows "ls' = ls"
  using assms by (auto simp: save_resolved_def Let_def bind_eq_Some_conv)

lemma save_resolved_step:
  assumes "save_resolved E u ls = Some ls'" "saveable E (ub_block u)" "base64_law E" "stored_up_to E h (m_storage ls)"
    "h < m_height (ub_block u)" "isValidLate E (\<lambda>id_b64 t. getCertificate E id_b64 t ls) (ub_block u) = Some True"
  shows "stored_up_to E (m_height (ub_block u)) (m_storage ls')"
    and "getNthBlockIdB64 (m_height (ub_block u)) (m_storage ls') = getBlockIdB64 E (ub_block u)"
    and "0 < k \<Longrightarrow> k \<noteq> m_height (ub_block u) \<Longrightarrow> getNthBlockIdB64 k (m_storage ls') = getNthBlockIdB64 k (m_storage ls)"
proof -
  let ?b = "ub_block u"
  obtain l where l: "batches_empty (m_storage ls)" "getNthBlockLinkInfo E 0 (m_storage ls) = Some l" "link_height l = h"
    using assms(4) by (auto simp: stored_up_to_def)
  from saveable_saved [OF assms(2,3) l(1,2)] l(3) assms(5) obtain body st' where
    s: "getBlockBodyJson E ?b = Some body" "saveBlock E (m_block_raw ?b) (getBlockHeaderJson E ?b) body (m_storage ls) = Some (True, st')"
      "batches_empty st'" "map_option link_height (getNthBlockLinkInfo E 0 st') = Some (m_height ?b)" by blast
  have dbs: "block_dbs (m_storage ls') = block_dbs st'" using assms(1,6) s(1,2) by (auto simp: save_resolved_def Let_def)
  show "stored_up_to E (m_height ?b) (m_storage ls')"
    using s(3,4) dbs block_dbs_batches block_dbs_link unfolding stored_up_to_def by metis
  have pos: "0 < m_height ?b" using assms(2) by (simp add: saveable_def)
  have ix: "getValueByKey BLOCK_HEIGHT key (m_storage ls') =
      (if key = to_string (unat (m_height ?b)) then getBlockIdB64 E ?b else getValueByKey BLOCK_HEIGHT key (m_storage ls))" for key
    using saveBlock_index(1) [OF s(2) l(1), of key] block_dbs_read [OF dbs, of BLOCK_HEIGHT key]
    by (simp add: header_members getBlockIdB64_def)
  show "getNthBlockIdB64 (m_height ?b) (m_storage ls') = getBlockIdB64 E ?b" using pos ix by (auto simp: getNthBlockIdB64_def)
  show "0 < k \<Longrightarrow> k \<noteq> m_height ?b \<Longrightarrow> getNthBlockIdB64 k (m_storage ls') = getNthBlockIdB64 k (m_storage ls)"
    using ix by (auto simp: getNthBlockIdB64_def word_unat_eq_iff word_less_nat_alt)
qed

text \<open>The resolved blocks that pass the late check, each against the ledger that the blocks before it have left.\<close>

fun late_passed :: "ext \<Rightarrow> UnresolvedBlock list \<Rightarrow> LayeredStorage \<Rightarrow> UnresolvedBlock list" where
  "late_passed E [] ls = []"
| "late_passed E (u # us) ls =
     (let rest = (case save_resolved E u ls of None \<Rightarrow> [] | Some ls' \<Rightarrow> late_passed E us ls')
      in if isValidLate E (\<lambda>id_b64 t. getCertificate E id_b64 t ls) (ub_block u) = Some True then u # rest else rest)"

definition height_of :: "UnresolvedBlock \<Rightarrow> u64" where
  "height_of u = m_height (ub_block u)"

lemma height_of_next:
  assumes "h \<le> h'" "height_of u = h' + 1" "saveable E (ub_block u)"
  shows "h < height_of u" "h' < height_of u"
proof -
  have "1 + h' \<noteq> 0" using assms(2,3) by (auto simp: saveable_def height_of_def add.commute)
  then have "h' < h' + 1" using unatSuc [of h'] by (simp add: word_less_nat_alt add.commute)
  with assms(1,2) show "h < height_of u" "h' < height_of u" by auto
qed

lemma save_all_resolved:
  assumes "fold_opt (save_resolved E) rs ls = Some ls'" "\<forall>u \<in> set rs. saveable E (ub_block u)" "base64_law E"
    "stored_up_to E h (m_storage ls)" "heights_from h' (map ub_block rs)" "h \<le> h'"
  shows "stored_up_to E (last (h # map height_of (late_passed E rs ls))) (m_storage ls')"
    and "u \<in> set (late_passed E rs ls) \<Longrightarrow> getNthBlockIdB64 (height_of u) (m_storage ls') = getBlockIdB64 E (ub_block u)"
    and "0 < k \<Longrightarrow> k \<le> h' \<Longrightarrow> getNthBlockIdB64 k (m_storage ls') = getNthBlockIdB64 k (m_storage ls)"
proof -
  have "stored_up_to E (last (h # map height_of (late_passed E rs ls))) (m_storage ls') \<and>
    (\<forall>u \<in> set (late_passed E rs ls). getNthBlockIdB64 (height_of u) (m_storage ls') = getBlockIdB64 E (ub_block u)) \<and>
    (\<forall>k. 0 < k \<longrightarrow> k \<le> h' \<longrightarrow> getNthBlockIdB64 k (m_storage ls') = getNthBlockIdB64 k (m_storage ls))"
    using assms
  proof (induction rs arbitrary: ls h h')
    case (Cons u rs)
    obtain ls1 where ls1: "save_resolved E u ls = Some ls1" "fold_opt (save_resolved E) rs ls1 = Some ls'"
      using Cons.prems(1) by (auto simp: bind_eq_Some_conv)
    have sv: "saveable E (ub_block u)" "\<forall>u \<in> set rs. saveable E (ub_block u)" using Cons.prems(2) by simp_all
    have h: "height_of u = h' + 1" "heights_from (h' + 1) (map ub_block rs)"
      using Cons.prems(5) by (simp_all add: heights_from_Cons height_of_def)
    note hu = height_of_next [OF Cons.prems(6) h(1) sv(1)]
    show ?case
    proof (cases "isValidLate E (\<lambda>id_b64 t. getCertificate E id_b64 t ls) (ub_block u) = Some True")
      case True
      note st = save_resolved_step [OF ls1(1) sv(1) Cons.prems(3,4) hu(1) [unfolded height_of_def] True, folded height_of_def]
      note ih = Cons.IH [OF ls1(2) sv(2) Cons.prems(3) st(1) h(2)] 
      have pos: "0 < height_of u" using sv(1) by (simp add: saveable_def height_of_def)
      show ?thesis using ih st(2,3) pos hu(2) ls1(1) True h(1) by (auto simp: Let_def)
    next
      case False
      then have "ls1 = ls" using save_resolved_refused ls1(1) by blast
      with Cons.IH [OF ls1(2) sv(2) Cons.prems(3) _ h(2), of h] Cons.prems(4) hu h(1) ls1(1) False show ?thesis
        by (auto simp: Let_def)
    qed
  qed simp
  then show "stored_up_to E (last (h # map height_of (late_passed E rs ls))) (m_storage ls')"
    "u \<in> set (late_passed E rs ls) \<Longrightarrow> getNthBlockIdB64 (height_of u) (m_storage ls') = getBlockIdB64 E (ub_block u)"
    "0 < k \<Longrightarrow> k \<le> h' \<Longrightarrow> getNthBlockIdB64 k (m_storage ls') = getNthBlockIdB64 k (m_storage ls)" by blast+
qed

section \<open>Properties\<close>

text \<open>C1. Only checked blocks are stored: whatever messages the processor of a fresh node handles, every height of
  the storage leads to the bytes of a block that was parsed from one of these messages and passed the early check
  (root, transactions, signature of a known merger), and that was resolved while one of them was handled and then
  passed the check of all its support signatures against the ledger of that moment. The blocks of the pool are
  parsed from the messages and passed the early check.\<close>

theorem stored_blocks_checked:
  assumes "bp_run E mem st certs h msgs a = Some a'" "b64_alphabet E"
    "m_block_pool (ub_pool a) = []" "batches_empty (pool_storage (ub_pool a))"
    "\<forall>k. getValueByKey BLOCK_HEIGHT k (pool_storage (ub_pool a)) = []"
  shows "(\<forall>k. getValueByKey BLOCK_HEIGHT k (pool_storage (ub_pool a')) \<noteq> [] \<longrightarrow>
      (\<exists>b. received E mem certs msgs b \<and> checked_late E mem st certs h msgs a b \<and>
        getBlockIdB64 E b = getValueByKey BLOCK_HEIGHT k (pool_storage (ub_pool a')) \<and>
        getValueByKey BLOCK_RAW (getBlockIdB64 E b) (pool_storage (ub_pool a')) = bytesToString (m_block_raw b))) \<and>
    (\<forall>b \<in> pool_blocks (ub_pool a'). received E mem certs msgs b)"
proof -
  have "safe_pool E (received E mem certs msgs) (checked_late E mem st certs h msgs a) (ub_pool a)"
    using assms(3-5) by (simp add: safe_pool_def pool_blocks_def stored_from_def)
  from bp_run_safe [OF assms(1,2) this] show ?thesis unfolding safe_pool_def stored_from_def by metis
qed

text \<open>C9. The storage follows the pool: while the latest stored height is the last height of the pool, taking out and
  saving the resolved blocks makes the last height of the pool that of the last resolved block, and the latest
  stored height that of the last one that passes the late check; every block that passes is found under its
  height. So both stay equal exactly when the last resolved block passes.\<close>

theorem storage_follows_pool:
  assumes "procResolvedBlocksIf E p = Some p'" "getResolvedBlocks E p = ((rs, ds), p1)" "pool_inv p"
    "\<forall>b \<in> pool_blocks p. saveable E b" "base64_law E" "stored_up_to E (m_last_height p) (pool_storage p)"
  defines "passed \<equiv> late_passed E rs (fold dropLedger ds (m_layered_storage p1))"
  shows "m_last_height p' = last (m_last_height p # map height_of rs) \<and>
    stored_up_to E (last (m_last_height p # map height_of passed)) (pool_storage p') \<and>
    (\<forall>u \<in> set passed. getNthBlockIdB64 (height_of u) (pool_storage p') = getBlockIdB64 E (ub_block u))"
proof -
  note fr = getResolvedBlocks_frame [OF assms(2)] and spec = getResolved_spec [OF assms(2,3)]
  obtain ls where ls: "fold_opt (save_resolved E) rs (fold dropLedger ds (m_layered_storage p1)) = Some ls"
    and p': "p' = p1\<lparr>m_layered_storage := ls\<rparr>"
    using assms(1,2) by (auto simp: procResolvedBlocksIf_def bind_eq_Some_conv)
  have st: "stored_up_to E (m_last_height p) (m_storage (fold dropLedger ds (m_layered_storage p1)))"
    using assms(6) block_dbs_batches [OF fr(3)] block_dbs_link [OF fr(3)] by (simp add: stored_up_to_def pool_storage_def)
  have sv: "\<forall>u \<in> set rs. saveable E (ub_block u)" using fr(1) assms(4) by blast
  have heights: "heights_from (m_last_height p) (map ub_block rs)" using spec by blast
  note all = save_all_resolved [OF ls sv assms(5) st heights order.refl]
  have "m_last_height p' = last (m_last_height p # map height_of rs)"
    using spec by (cases "rs = []") (auto simp: p' last_map height_of_def)
  then show ?thesis using all(1,2) unfolding passed_def by (simp add: p')
qed

text \<open>C35. A resolved block that fails the late check is not saved, but the pool has moved on to it: its last height
  is then above the latest stored one, and the next block is stored with a gap below it.\<close>

theorem refused_block_leaves_gap:
  assumes "getResolvedBlocks E p = (([u], ds), p1)" "pool_inv p"
    "isValidLate E (\<lambda>id_b64 t. getCertificate E id_b64 t (fold dropLedger ds (m_layered_storage p1))) (ub_block u) = Some False"
  shows "\<exists>p'. procResolvedBlocksIf E p = Some p' \<and> m_last_height p' = m_last_height p + 1 \<and>
    m_last_block_id p' = m_block_id (ub_block u) \<and> block_dbs (pool_storage p') = block_dbs (pool_storage p)"
proof -
  have "m_last_height p1 = m_last_height p + 1" "m_last_block_id p1 = m_block_id (ub_block u)"
    using getResolved_spec [OF assms(1,2)] by (simp_all add: heights_from_Cons)
  moreover have "procResolvedBlocksIf E p = Some (p1\<lparr>m_layered_storage := fold dropLedger ds (m_layered_storage p1)\<rparr>)"
    using assms(1,3) by (simp add: procResolvedBlocksIf_def save_resolved_def Let_def)
  ultimately show ?thesis using getResolvedBlocks_frame(3) [OF assms(1)] by (simp add: pool_storage_def)
qed

section \<open>Witnesses\<close>

definition node_w :: "UnresolvedBlockPool \<Rightarrow> Application" where
  "node_w p = \<lparr>app_block_processor = \<lparr>m_unresolved_block_pool = p, m_request_list = [], m_last_block_sender = []\<rparr>,
     app_transaction_pool = new_tx_pool, app_output_queue = []\<rparr>"

definition fresh_ls :: LayeredStorage where
  "fresh_ls = \<lparr>m_storage = new_storage, m_mem_ledger = [], m_block_layer = []\<rparr>"

lemma fresh_storage: "batches_empty new_storage" "getValueByKey w k new_storage = []"
  by (simp_all add: batches_empty_def new_storage_def getValueByKey_def)

theorem refused_block_leaves_gap_witness:
  "\<exists>p'. procResolvedBlocksIf ext0 (pool_w [[entry_w 0 blk_1], [entry_w 0 blk_2]]) = Some p' \<and> m_last_height p' = 1 \<and>
    block_dbs (pool_storage p') = block_dbs (m_storage ls_a)"
proof -
  let ?p = "pool_w [[entry_w 0 blk_1], [entry_w 0 blk_2]]"
  obtain rs ds p1 where r: "getResolvedBlocks ext0 ?p = ((rs, ds), p1)" by (metis prod.exhaust)
  obtain u q where u: "resolveBlocksStepByStep ext0 ?p = (q, Some (u, []))" "ub_block u = blk_1" "length (m_block_pool q) = 1"
    using resolve_w by blast
  have "resolve_loop ext0 ?p [] [] = (updateConfirmLevel q, [u], [])"
    by (subst resolve_loop.simps) (simp add: u resolve_short)
  moreover have "m_layered_storage q = ls_a"
    using u(1) by (auto simp: resolveBlocksStepByStep_def Let_def resolve_at_def updateConfirmLevel_def pool_w_def new_pool_def split: option.splits)
  ultimately have rs: "rs = [u]" and ls: "fold dropLedger ds (m_layered_storage p1) = ls_a"
    using r by (auto simp: getResolvedBlocks_def Let_def readBackupIds_def readBackup_def pool_storage_def updateConfirmLevel_def
        ls_a_def fresh_storage split: if_splits)
  have "isValidLate ext0 (\<lambda>id_b64 t. getCertificate ext0 id_b64 t (fold dropLedger ds (m_layered_storage p1))) blk_1 = Some False"
    unfolding ls by (simp add: isValidLate_def getCertificate_def ledger_read_def ls_readLedgerByKey_def st_readLedgerByKey_def
        blk_1_def sig_w_def new_block_def ls_a_def fresh_storage Let_def)
  with refused_block_leaves_gap [OF r [unfolded rs] pool_w_inv(1)] u(2) show ?thesis
    by (auto simp: pool_w_def new_pool_def pool_storage_def)
qed

end
