(* ===== verification/Signature_Pool.thy ===== *)
theory Signature_Pool
  imports Block Ledger Message_Validator
begin

text \<open>
  \<open>class SignaturePool\<close> (\<open>src/services/signature_pool.cpp\<close>): the support signatures collected for the block
  that is being made. The pool is enabled while a collection runs and verifies each signature over
  the time, height and root of that block. The merger id and the chain id are those of the settings.
\<close>

section \<open>Definitions\<close>

record SignaturePool =
  m_signature_pool :: "Signature list"
  sp_height :: block_height_type
  sp_tx_root :: hash_t
  sp_block_time :: timestamp_t
  m_enabled :: bool

definition new_sig_pool :: SignaturePool where
  "new_sig_pool = \<lparr>m_signature_pool = [], sp_height = 0, sp_tx_root = [], sp_block_time = 0, m_enabled = False\<rparr>"

definition enablePool :: "SignaturePool \<Rightarrow> SignaturePool" where "enablePool sp = sp\<lparr>m_enabled := True\<rparr>"
definition disablePool :: "SignaturePool \<Rightarrow> SignaturePool" where "disablePool sp = sp\<lparr>m_enabled := False\<rparr>"
definition sp_clear :: "SignaturePool \<Rightarrow> SignaturePool" where "sp_clear sp = sp\<lparr>m_signature_pool := []\<rparr>"
definition sp_size :: "SignaturePool \<Rightarrow> nat" where "sp_size sp = length (m_signature_pool sp)"
definition sp_push :: "Signature \<Rightarrow> SignaturePool \<Rightarrow> SignaturePool" where
  "sp_push s sp = sp\<lparr>m_signature_pool := m_signature_pool sp @ [s]\<rparr>"

definition setupSigPool :: "block_height_type \<Rightarrow> timestamp_t \<Rightarrow> hash_t \<Rightarrow> SignaturePool \<Rightarrow> SignaturePool" where
  "setupSigPool chain_height block_time tx_root sp =
     enablePool (sp\<lparr>sp_height := chain_height, sp_block_time := block_time, sp_tx_root := tx_root\<rparr>)"

text \<open>The size is compared after each element, so that 0 gives the first signature if it is the first element.\<close>

fun fetch_sigs :: "nat \<Rightarrow> block_height_type \<Rightarrow> Signature list \<Rightarrow> Signature list \<Rightarrow> Signature list" where
  "fetch_sigs n h [] acc = acc"
| "fetch_sigs n h (ssig # rest) acc =
     (let acc' = (if sig_height ssig = h then acc @ [ssig] else acc)
      in if n \<le> length acc' then acc' else fetch_sigs n h rest acc')"

definition fetchN :: "nat \<Rightarrow> block_height_type \<Rightarrow> SignaturePool \<Rightarrow> Signature list" where
  "fetchN n t_height sp = fetch_sigs n t_height (m_signature_pool sp) []"

text \<open>The certificate of the pool of signers, or else the latest one of the ledger.\<close>

definition signer_cert_of :: "ext \<Rightarrow> SignerPool \<Rightarrow> LayeredStorage \<Rightarrow> signer_id_type \<Rightarrow> string option" where
  "signer_cert_of E signers ls uid =
     (let pk_cert = getPkCert uid signers in if pk_cert = [] then getCertificate_id E uid 0 ls else Some pk_cert)"

definition sig_message :: "Setting \<Rightarrow> SignaturePool \<Rightarrow> signer_id_type \<Rightarrow> bytes" where
  "sig_message st sp signer_id =
     getBytes (append_vec (sp_tx_root sp) (append_u64 (sp_height sp) (append_vec (m_localchain_id st) (append_vec (m_id st)
       (append_u64 (sp_block_time sp) (append_vec signer_id bb_new))))))"

definition sp_verifySignature ::
  "ext \<Rightarrow> Setting \<Rightarrow> SignerPool \<Rightarrow> LayeredStorage \<Rightarrow> signer_id_type \<Rightarrow> json \<Rightarrow> SignaturePool \<Rightarrow> bool option" where
  "sp_verifySignature E st signers ls recv_id body sp = do {
     pk_cert \<leftarrow> signer_cert_of E signers ls recv_id;
     if pk_cert = [] then Some False
     else Some (doVerify E pk_cert (sig_message st sp (getBytesFromB64 E body ''sID'')) (getBytesFromB64 E body ''sig'')) }"

definition sp_handleMessage :: "ext \<Rightarrow> Setting \<Rightarrow> SignerPool \<Rightarrow> LayeredStorage \<Rightarrow> json \<Rightarrow> SignaturePool \<Rightarrow> SignaturePool option" where
  "sp_handleMessage E st signers ls body sp =
     (if \<not> m_enabled sp then Some sp
      else do {
        let signer_id = getBytesFromB64 E body ''sID'';
        ok \<leftarrow> sp_verifySignature E st signers ls signer_id body sp;
        Some (if ok then sp_push \<lparr>sig_signer_id = signer_id, sig_signer_signature = getBytesFromB64 E body ''sig'',
                                  sig_height = sp_height sp\<rparr> sp
              else sp) })"

section \<open>What the pool holds\<close>

text \<open>A signature was accepted for the block the pool was set up for.\<close>

definition accepted :: "ext \<Rightarrow> Setting \<Rightarrow> SignaturePool \<Rightarrow> Signature \<Rightarrow> bool" where
  "accepted E st sp s \<longleftrightarrow> sig_height s = sp_height sp \<and>
     (\<exists>cert. cert \<noteq> [] \<and> doVerify E cert (sig_message st sp (sig_signer_id s)) (sig_signer_signature s))"

lemma sig_message_cong:
  "sp_tx_root sp = sp_tx_root sp' \<Longrightarrow> sp_height sp = sp_height sp' \<Longrightarrow> sp_block_time sp = sp_block_time sp' \<Longrightarrow>
    sig_message st sp = sig_message st sp'"
  by (simp add: fun_eq_iff sig_message_def)

lemma accepted_cong:
  "sp_tx_root sp = sp_tx_root sp' \<Longrightarrow> sp_height sp = sp_height sp' \<Longrightarrow> sp_block_time sp = sp_block_time sp' \<Longrightarrow>
    accepted E st sp = accepted E st sp'"
  by (simp add: fun_eq_iff accepted_def sig_message_cong [of sp sp'])

lemma fetch_sigs_take:
  "length acc < n \<Longrightarrow> fetch_sigs n h xs acc = acc @ take (n - length acc) (filter (\<lambda>s. sig_height s = h) xs)"
proof (induction n h xs acc rule: fetch_sigs.induct)
  case (2 n h ssig rest acc)
  show ?case
  proof (cases "sig_height ssig = h \<and> n \<le> length acc + 1")
    case True
    then have "n - length acc = 1" using 2(2) by arith
    with True show ?thesis by simp
  next
    case False
    then show ?thesis using 2 by (auto simp: Let_def take_Cons' Suc_diff_Suc)
  qed
qed simp

lemma handle_accepted:
  assumes "sp_handleMessage E st signers ls body sp = Some sp'" "\<forall>s \<in> set (m_signature_pool sp). accepted E st sp s"
  shows "(\<forall>s \<in> set (m_signature_pool sp'). accepted E st sp' s) \<and> sp_tx_root sp' = sp_tx_root sp \<and>
    sp_height sp' = sp_height sp \<and> sp_block_time sp' = sp_block_time sp \<and> m_enabled sp' = m_enabled sp \<and>
    (\<not> m_enabled sp \<longrightarrow> sp' = sp)"
proof -
  let ?s = "\<lparr>sig_signer_id = getBytesFromB64 E body ''sID'', sig_signer_signature = getBytesFromB64 E body ''sig'', sig_height = sp_height sp\<rparr>"
  consider "sp' = sp" | cert where "sp' = sp_push ?s sp" "m_enabled sp" "cert \<noteq> []"
    "doVerify E cert (sig_message st sp (getBytesFromB64 E body ''sID'')) (getBytesFromB64 E body ''sig'')"
    using assms(1) by (auto simp: sp_handleMessage_def sp_verifySignature_def Let_def split: if_splits Option.bind_splits)
  then show ?thesis
  proof cases
    case 2
    have "accepted E st sp' = accepted E st sp" by (rule accepted_cong) (simp_all add: 2(1) sp_push_def)
    moreover have "accepted E st sp ?s" using 2(3,4) by (auto simp: accepted_def)
    ultimately show ?thesis using 2(1,2) assms(2) by (auto simp: sp_push_def)
  qed (use assms(2) in auto)
qed

end
