(* ===== verification/Block_Production.thy ===== *)
theory Block_Production
  imports Processor_Safety Signature_Pool
begin

text \<open>
  How a merger makes a block (\<open>src/services/signature_requester.cpp\<close>, \<open>src/services/block_generator.hpp\<close>): it selects
  signers, takes the pending transactions, asks the signers for support signatures over the header of the
  coming block, and when enough signatures are there, or the time is over, the block is generated, sent,
  and handed to the own block processor.

  \<open>Merger\<close> extends \<open>Application\<close> by the pools of signatures and signers and the requester. A job posted to the
  strand of the generator is counted in \<open>m_block_gen_strand\<close>. The clock readings of one round are arguments.
  The random shuffle is a parameter.
\<close>

section \<open>State\<close>

record SignatureRequester =
  m_merkle_tree :: "hash_t list"
  m_basic_block_info :: BasicBlockInfo
  m_is_collect_running :: bool
  m_max_signers :: nat
  m_block_gen_strand :: nat

record Merger = Application +
  app_signature_pool :: SignaturePool
  app_signer_pool :: SignerPool
  app_requester :: SignatureRequester

definition merger_ledger :: "Merger \<Rightarrow> LayeredStorage" where
  "merger_ledger a = m_layered_storage (ub_pool a)"

section \<open>Block generator\<close>

definition make_block :: "ext \<Rightarrow> Setting \<Rightarrow> BasicBlockInfo \<Rightarrow> Signature list \<Rightarrow> hash_t list \<Rightarrow> Block option" where
  "make_block E st basic_info support_sigs merkle_tree = do {
     b0 \<leftarrow> initialize_info E basic_info merkle_tree new_block;
     let b1 = snd (setSupportSignatures support_sigs b0);
     let b2 = linkPreviousBlock E (bi_prev_id_b64 basic_info) (bi_prev_hash_b64 basic_info) b1;
     Some (finalize E (m_sk st) (m_sk_pass st) b2) }"

definition generateBlock ::
  "ext \<Rightarrow> bytes \<Rightarrow> Setting \<Rightarrow> CertificatePool \<Rightarrow> (string \<Rightarrow> nat) \<Rightarrow> u64 \<Rightarrow> BasicBlockInfo \<Rightarrow> Signature list \<Rightarrow> hash_t list \<Rightarrow> Merger \<Rightarrow> Merger option" where
  "generateBlock E mem st certs h now basic_info support_sigs merkle_tree a = do {
     b \<leftarrow> make_block E st basic_info support_sigs merkle_tree;
     m \<leftarrow> msg_block E st b [];
     let a1 = app_send m (app_send (msg_header E b) a);
     bp_handleMessage E mem st certs h now \<lparr>in_type = MSG_BLOCK, in_body = out_body m\<rparr> a1 }"

section \<open>Signature requester\<close>

definition isNewSigner :: "ext \<Rightarrow> LayeredStorage \<Rightarrow> Signer \<Rightarrow> bool option" where
  "isNewSigner E ls signer = do {
     cert \<leftarrow> getCertificate_id E (user_id signer) 0 ls;
     Some (cert = [] \<or> cert \<noteq> pk_cert signer) }"

fun newSigners :: "ext \<Rightarrow> LayeredStorage \<Rightarrow> Signer list \<Rightarrow> Signer list option" where
  "newSigners E ls [] = Some []"
| "newSigners E ls (signer # rest) = do {
     new \<leftarrow> isNewSigner E ls signer;
     others \<leftarrow> newSigners E ls rest;
     Some (if new then signer # others else others) }"

definition selectSigners :: "(Signer list \<Rightarrow> Signer list) \<Rightarrow> SignerPool \<Rightarrow> Signer list option" where
  "selectSigners shuffle pool =
     (let num_available_signers = getNumSignerBy GOOD pool
      in if MIN_SIGNATURE_COLLECT_SIZE \<le> num_available_signers
         then getRandomSigners shuffle (min MAX_SIGNATURE_COLLECT_SIZE num_available_signers) pool
         else Some [])"

definition genCertificateTransaction :: "ext \<Rightarrow> Setting \<Rightarrow> u64 \<Rightarrow> Signer list \<Rightarrow> Transaction" where
  "genCertificateTransaction E st now signers =
     (if signers = [] then new_transaction
      else refreshSignature E (m_sk st) (m_sk_pass st) (genNewTxId E
        (new_transaction\<lparr>m_sent_time := now, m_requestor_id := m_id st, m_transaction_type := CERTIFICATES,
           m_content_list := concat (map (\<lambda>s. [encodeBase64 E (user_id s), pk_cert s]) signers)\<rparr>)))"

text \<open>The height is written as a JSON number.\<close>

definition sendRequestMessage :: "ext \<Rightarrow> u64 \<Rightarrow> Signer list \<Rightarrow> Merger \<Rightarrow> Merger" where
  "sendRequestMessage E now signers a =
     (let info = m_basic_block_info (app_requester a)
      in if signers = [] then a
         else app_send \<lparr>out_type = MSG_REQ_SSIG, out_body = json_obj
           [(''time'', JStr (to_string (unat now))), (''mID'', JStr (encodeBase64 E (bi_merger_id info))),
            (''cID'', JStr (encodeBase64 E (bi_chain_id info))), (''txrt'', JStr (encodeBase64 E (bi_transaction_root info))),
            (''hgt'', JNum (uint (bi_height info)))], receivers = map user_id signers\<rparr> a)"

text \<open>The three clock readings of a round: certificate transaction, block, request message.\<close>

record round_times =
  t_cert :: u64
  t_block :: u64
  t_request :: u64

definition collect_transactions ::
  "ext \<Rightarrow> Setting \<Rightarrow> (string \<Rightarrow> nat) \<Rightarrow> u64 \<Rightarrow> Signer list \<Rightarrow> TransactionPool \<Rightarrow> (Transaction list \<times> TransactionPool) option" where
  "collect_transactions E st h now new_signers txp = do {
     txp1 \<leftarrow> (if new_signers = [] then Some txp else map_option snd (tp_push h (genCertificateTransaction E st now new_signers) txp));
     (transactions, txp2) \<leftarrow> fetchLastN h (min (tp_size txp1) MAX_COLLECT_TRANSACTION_SIZE) txp1;
     txp3 \<leftarrow> tp_clear txp2;
     Some (transactions, txp3) }"

definition requestSignatures ::
  "ext \<Rightarrow> Setting \<Rightarrow> (string \<Rightarrow> nat) \<Rightarrow> (Signer list \<Rightarrow> Signer list) \<Rightarrow> round_times \<Rightarrow> Merger \<Rightarrow> Merger option" where
  "requestSignatures E st h shuffle t a =
     (if hasUnresolvedBlocks (ub_pool a) then Some a
      else do {
        target_signers \<leftarrow> selectSigners shuffle (app_signer_pool a);
        if target_signers = [] then Some a
        else do {
          new_signers \<leftarrow> newSigners E (merger_ledger a) target_signers;
          (transactions, txp) \<leftarrow> collect_transactions E st h (t_cert t) new_signers (app_transaction_pool a);
          let rq = app_requester a;
          let tree = generate E (map (getDigest E) transactions) (m_merkle_tree rq);
          (link, a1) \<leftarrow> bp_getMostPossibleLink (a\<lparr>app_transaction_pool := txp\<rparr>);
          let height = (if link_height link = 0 then 1 else link_height link + 1);
          let root = last tree;
          let info = \<lparr>bi_time = t_block t, bi_merger_id = m_id st, bi_chain_id = m_localchain_id st, bi_height = height,
            bi_transaction_root = root, bi_prev_id_b64 = encodeBase64 E (link_id link),
            bi_prev_hash_b64 = encodeBase64 E (link_hash link), bi_transactions = transactions\<rparr>;
          let a2 = a1\<lparr>app_requester := rq\<lparr>m_merkle_tree := tree, m_basic_block_info := info, m_max_signers := length target_signers\<rparr>,
                      app_signature_pool := setupSigPool height (t_block t) root (app_signature_pool a1)\<rparr>;
          let a3 = sendRequestMessage E (t_request t) target_signers a2;
          Some (a3\<lparr>app_requester := (app_requester a3)\<lparr>m_is_collect_running := True\<rparr>\<rparr>) } })"

definition doCreateBlock :: "Merger \<Rightarrow> Merger" where
  "doCreateBlock a = a\<lparr>app_requester := (app_requester a)\<lparr>m_is_collect_running := False,
       m_block_gen_strand := m_block_gen_strand (app_requester a) + 1\<rparr>,
     app_signature_pool := disablePool (app_signature_pool a)\<rparr>"

text \<open>The job that \<open>doCreateBlock\<close> posts.\<close>

definition create_block_job :: "ext \<Rightarrow> bytes \<Rightarrow> Setting \<Rightarrow> CertificatePool \<Rightarrow> (string \<Rightarrow> nat) \<Rightarrow> u64 \<Rightarrow> Merger \<Rightarrow> Merger option" where
  "create_block_job E mem st certs h now a =
     (let sp = app_signature_pool a; rq = app_requester a; info = m_basic_block_info rq;
          a1 = a\<lparr>app_signature_pool := sp_clear sp, app_requester := rq\<lparr>m_block_gen_strand := m_block_gen_strand rq - 1\<rparr>\<rparr>
      in if MIN_SIGNATURE_COLLECT_SIZE \<le> sp_size sp \<and> sp_size sp \<le> MAX_SIGNATURE_COLLECT_SIZE
         then generateBlock E mem st certs h now info
                (fetchN (min (sp_size sp) MAX_SIGNATURE_COLLECT_SIZE) (bi_height info) sp) (m_merkle_tree rq) a1
         else Some a1)"

text \<open>The two timers of a round.\<close>

definition collect_over :: "Merger \<Rightarrow> Merger" where
  "collect_over a = (if m_is_collect_running (app_requester a) then doCreateBlock a else a)"

definition collect_check :: "Merger \<Rightarrow> Merger" where
  "collect_check a =
     (if \<not> m_is_collect_running (app_requester a) then a
      else if m_max_signers (app_requester a) \<le> sp_size (app_signature_pool a) then doCreateBlock a else a)"

section \<open>What the block processor leaves alone\<close>

lemma more_simps [simp]:
  "Application.more (set_ub_pool p a) = Application.more a" "Application.more (app_send m a) = Application.more a"
  "Application.more (set_requests rs a) = Application.more a"
  "Application.more (bp_sendErrorMessage E st now e i a) = Application.more a"
  by (simp_all add: set_ub_pool_def app_send_def set_requests_def bp_sendErrorMessage_def)

lemma link_more: "bp_getMostPossibleLink a = Some (l, a') \<Longrightarrow> Application.more a' = Application.more a"
  by (auto simp: bp_getMostPossibleLink_def split: Option.bind_splits)

lemma tryResolve_more: "tryResolveUnresolvedBlocksIf E a = Some a' \<Longrightarrow> Application.more a' = Application.more a"
  by (auto simp: tryResolveUnresolvedBlocksIf_def Let_def split: Option.bind_splits if_splits)

lemma announce_more: "announce_link E st a = Some a' \<Longrightarrow> Application.more a' = Application.more a"
  by (auto simp: announce_link_def Let_def dest!: link_more split: Option.bind_splits)

lemma accept_more: "accept_block E st h body b lk a = Some a' \<Longrightarrow> Application.more a' = Application.more a"
  by (auto simp: accept_block_def Let_def dest!: announce_more tryResolve_more split: Option.bind_splits if_splits)

lemma handleMsgBlock_more: "handleMsgBlock E mem st certs h now body a = Some (r, a') \<Longrightarrow> Application.more a' = Application.more a"
  by (auto simp: handleMsgBlock_def Let_def dest!: accept_more tryResolve_more split: Option.bind_splits if_splits)

lemma bp_handleMessage_more: "bp_handleMessage E mem st certs h now m a = Some a' \<Longrightarrow> Application.more a' = Application.more a"
  by (auto simp: bp_handleMessage_def handleMsgReqBlock_def handleMsgReqCheck_def handleMsgReqStatus_def handleMsgRequestHeader_def Let_def
      dest!: handleMsgBlock_more link_more split: MessageType.splits Option.bind_splits if_splits option.splits)

lemma merger_fields:
  assumes "Application.more a' = Application.more a"
  shows "app_signature_pool a' = app_signature_pool a" "app_requester a' = app_requester a" "app_signer_pool a' = app_signer_pool a"
  using assms by (cases a; cases a'; simp)+

section \<open>Rounds\<close>

text \<open>
  The steps of a node between and during rounds. A round begins only when the one before is over and its job has
  run: rounds are \<open>BP_INTERVAL\<close> seconds apart and the collection ends after three of them. Everything else
  interleaves freely.
\<close>

inductive reachable ::
  "ext \<Rightarrow> bytes \<Rightarrow> Setting \<Rightarrow> (string \<Rightarrow> nat) \<Rightarrow> (Signer list \<Rightarrow> Signer list) \<Rightarrow> Merger \<Rightarrow> bool"
  for E mem st h shuffle where
  start: "m_signature_pool (app_signature_pool a) = [] \<Longrightarrow> \<not> m_is_collect_running (app_requester a) \<Longrightarrow>
    m_block_gen_strand (app_requester a) = 0 \<Longrightarrow> length (m_merkle_tree (app_requester a)) = 2 * MAX_MERKLE_LEAVES - 1 \<Longrightarrow>
    \<not> m_enabled (app_signature_pool a) \<Longrightarrow> reachable E mem st h shuffle a"
| signature: "reachable E mem st h shuffle a \<Longrightarrow>
    sp_handleMessage E st (app_signer_pool a) (merger_ledger a) body (app_signature_pool a) = Some sp \<Longrightarrow>
    reachable E mem st h shuffle (a\<lparr>app_signature_pool := sp\<rparr>)"
| round: "reachable E mem st h shuffle a \<Longrightarrow> \<not> m_is_collect_running (app_requester a) \<Longrightarrow>
    m_block_gen_strand (app_requester a) = 0 \<Longrightarrow> requestSignatures E st h shuffle t a = Some a' \<Longrightarrow>
    reachable E mem st h shuffle a'"
| over: "reachable E mem st h shuffle a \<Longrightarrow> reachable E mem st h shuffle (collect_over a)"
| check: "reachable E mem st h shuffle a \<Longrightarrow> reachable E mem st h shuffle (collect_check a)"
| job: "reachable E mem st h shuffle a \<Longrightarrow> 0 < m_block_gen_strand (app_requester a) \<Longrightarrow>
    create_block_job E mem st certs h now a = Some a' \<Longrightarrow> reachable E mem st h shuffle a'"
| message: "reachable E mem st h shuffle a \<Longrightarrow> bp_handleMessage E mem st certs h now m a = Some a' \<Longrightarrow>
    reachable E mem st h shuffle a'"
| signers: "reachable E mem st h shuffle a \<Longrightarrow> reachable E mem st h shuffle (a\<lparr>app_signer_pool := sg\<rparr>)"
| transactions: "reachable E mem st h shuffle a \<Longrightarrow> reachable E mem st h shuffle (a\<lparr>app_transaction_pool := txp\<rparr>)"
| outgoing: "reachable E mem st h shuffle a \<Longrightarrow> reachable E mem st h shuffle (a\<lparr>app_output_queue := q\<rparr>)"

text \<open>While a collection runs or its job waits, the pool is set up for the block that is being made.\<close>

definition info_ok :: "ext \<Rightarrow> Setting \<Rightarrow> SignatureRequester \<Rightarrow> SignaturePool \<Rightarrow> bool" where
  "info_ok E st rq sp \<longleftrightarrow>
     (let info = m_basic_block_info rq
      in sp_height sp = bi_height info \<and> sp_block_time sp = bi_time info \<and> sp_tx_root sp = bi_transaction_root info \<and>
         bi_merger_id info = m_id st \<and> bi_chain_id info = m_localchain_id st \<and>
         m_merkle_tree rq = calcMerkleTreeNode E (bi_transactions info) \<and> bi_transaction_root info = last (m_merkle_tree rq))"

definition round_inv :: "ext \<Rightarrow> Setting \<Rightarrow> Merger \<Rightarrow> bool" where
  "round_inv E st a \<longleftrightarrow>
     (let rq = app_requester a; sp = app_signature_pool a; busy = m_is_collect_running rq \<or> 0 < m_block_gen_strand rq
      in length (m_merkle_tree rq) = 2 * MAX_MERKLE_LEAVES - 1 \<and> (\<forall>s \<in> set (m_signature_pool sp). accepted E st sp s) \<and>
         (m_enabled sp \<longrightarrow> m_is_collect_running rq) \<and> (busy \<longrightarrow> info_ok E st rq sp) \<and> (\<not> busy \<longrightarrow> m_signature_pool sp = []) \<and>
         (m_is_collect_running rq \<longrightarrow> m_block_gen_strand rq = 0) \<and> m_block_gen_strand rq \<le> 1)"

lemma round_inv_cong:
  "app_requester a' = app_requester a \<Longrightarrow> app_signature_pool a' = app_signature_pool a \<Longrightarrow> round_inv E st a' = round_inv E st a"
  by (simp add: round_inv_def)

lemma send_request_fields [simp]:
  "app_requester (sendRequestMessage E now ss a) = app_requester a"
  "app_signature_pool (sendRequestMessage E now ss a) = app_signature_pool a"
  by (simp_all add: sendRequestMessage_def app_send_def Let_def)

text \<open>A round that starts sets up the pool for the block of the requester.\<close>

lemma requestSignatures_cases:
  assumes "requestSignatures E st h shuffle t a = Some a'" "length (m_merkle_tree (app_requester a)) = 2 * MAX_MERKLE_LEAVES - 1"
  shows "a' = a \<or> (m_is_collect_running (app_requester a') \<and>
      m_block_gen_strand (app_requester a') = m_block_gen_strand (app_requester a) \<and>
      length (m_merkle_tree (app_requester a')) = 2 * MAX_MERKLE_LEAVES - 1 \<and> info_ok E st (app_requester a') (app_signature_pool a') \<and>
      m_signature_pool (app_signature_pool a') = m_signature_pool (app_signature_pool a))"
proof -
  have tree: "generate E ds (m_merkle_tree (app_requester a)) = generate E ds (new_tree MAX_MERKLE_LEAVES)" for ds
    unfolding generate_def by (rule generate_n_independent [OF assms(2)]) (simp add: length_new_tree)
  have len: "length (generate E ds (new_tree MAX_MERKLE_LEAVES)) = 2 * MAX_MERKLE_LEAVES - 1" for ds
    by (simp add: generate_def length_new_tree)
  have link: "app_signature_pool a1 = app_signature_pool a"
    if "bp_getMostPossibleLink (a\<lparr>app_transaction_pool := txp\<rparr>) = Some (l, a1)" for txp l a1
    using merger_fields(1) [OF link_more [OF that]] by simp
  show ?thesis
    using assms(1)
    by (auto simp: requestSignatures_def Let_def setupSigPool_def enablePool_def tree len info_ok_def calcMerkleTreeNode_def
        dest!: link split: if_splits Option.bind_splits)
qed

lemma generate_more: "generateBlock E mem st certs h now info sigs tree a = Some a' \<Longrightarrow> Application.more a' = Application.more a"
  by (auto simp: generateBlock_def Let_def dest!: bp_handleMessage_more split: Option.bind_splits)

lemma reachable_round_inv: "reachable E mem st h shuffle a \<Longrightarrow> round_inv E st a"
proof (induction rule: reachable.induct)
  case (start a)
  then show ?case by (simp add: round_inv_def Let_def)
next
  case (signature a body sp)
  have acc: "\<forall>s \<in> set (m_signature_pool (app_signature_pool a)). accepted E st (app_signature_pool a) s"
    using signature.IH by (simp add: round_inv_def Let_def)
  from handle_accepted [OF signature.hyps(2) acc] signature.IH show ?case
    by (cases "m_enabled (app_signature_pool a)") (auto simp: round_inv_def Let_def info_ok_def)
next
  case (round a t a')
  then have "length (m_merkle_tree (app_requester a)) = 2 * MAX_MERKLE_LEAVES - 1"
    "m_signature_pool (app_signature_pool a) = []" by (simp_all add: round_inv_def Let_def)
  from requestSignatures_cases [OF round.hyps(4) this(1)] this(2) round.IH round.hyps(2,3) show ?case
    by (auto simp: round_inv_def Let_def)
next
  case (over a)
  then show ?case by (auto simp: collect_over_def doCreateBlock_def disablePool_def round_inv_def Let_def info_ok_def accepted_def sig_message_def)
next
  case (check a)
  then show ?case by (auto simp: collect_check_def doCreateBlock_def disablePool_def round_inv_def Let_def info_ok_def accepted_def sig_message_def)
next
  case (job a certs now a')
  have "app_requester a' = (app_requester a)\<lparr>m_block_gen_strand := m_block_gen_strand (app_requester a) - 1\<rparr> \<and>
      app_signature_pool a' = sp_clear (app_signature_pool a)"
    using job.hyps(3) by (auto simp: create_block_job_def Let_def merger_fields [OF generate_more] split: if_splits)
  with job.IH job.hyps(2) show ?case by (auto simp: round_inv_def Let_def sp_clear_def)
next
  case (message a certs now m a')
  from merger_fields [OF bp_handleMessage_more [OF message.hyps(2)]] message.IH show ?case by (simp add: round_inv_def)
qed (simp_all add: round_inv_def)

lemma fetchN_all:
  assumes "\<forall>s \<in> set (m_signature_pool sp). sig_height s = h" "m_signature_pool sp \<noteq> []" "sp_size sp \<le> n"
  shows "fetchN n h sp = m_signature_pool sp"
  using assms fetch_sigs_take [of "[]" n h "m_signature_pool sp"] by (auto simp: fetchN_def sp_size_def filter_id_conv [THEN iffD2] Suc_le_eq)

lemma make_block_fields:
  assumes "make_block E st info sigs tree = Some b" "sigs \<noteq> []" "tree \<noteq> []"
  shows "m_ssigs b = sigs" "m_merkle_tree_node b = tree" "m_tx_root b = bi_transaction_root info" "m_time b = bi_time info"
    "m_height b = bi_height info" "m_merger_id b = bi_merger_id info" "m_chain_id b = bi_chain_id info" "m_transactions b = bi_transactions info"
  using assms by (auto simp: make_block_def initialize_info_def setSupportSignatures_def linkPreviousBlock_def finalize_def Let_def
      split: Option.bind_splits)

text \<open>The message a support signature of a block is checked against.\<close>

definition support_message :: "Block \<Rightarrow> signer_id_type \<Rightarrow> bytes" where
  "support_message b uid = getBytes (append_vec (getSupportSigMessageCommon b) (append_vec uid bb_new))"

lemma support_message_eq:
  assumes "sp_tx_root sp = m_tx_root b" "sp_height sp = m_height b" "sp_block_time sp = m_time b"
    "m_merger_id b = m_id st" "m_chain_id b = m_localchain_id st"
  shows "sig_message st sp uid = support_message b uid"
  using assms by (simp add: sig_message_def support_message_def getSupportSigMessageCommon_def builder_simps)

section \<open>Properties\<close>

text \<open>C5. Every block a merger makes is sound, however the messages of signers and other mergers interleave with its
  rounds: the block carries all collected signatures, each of which some certificate verifies over exactly the
  message that the late check of the block uses, and its root is that of the Merkle tree of its transactions.\<close>

theorem produced_block_supported:
  assumes "reachable E mem st h shuffle a" "0 < m_block_gen_strand (app_requester a)"
    "MIN_SIGNATURE_COLLECT_SIZE \<le> sp_size (app_signature_pool a)" "sp_size (app_signature_pool a) \<le> MAX_SIGNATURE_COLLECT_SIZE"
    "make_block E st (m_basic_block_info (app_requester a))
       (fetchN (min (sp_size (app_signature_pool a)) MAX_SIGNATURE_COLLECT_SIZE)
         (bi_height (m_basic_block_info (app_requester a))) (app_signature_pool a))
       (m_merkle_tree (app_requester a)) = Some b"
  shows "m_ssigs b = m_signature_pool (app_signature_pool a) \<and> m_merger_id b = m_id st \<and>
    m_merkle_tree_node b = calcMerkleTreeNode E (m_transactions b) \<and> m_tx_root b = last (m_merkle_tree_node b) \<and>
    (\<forall>s \<in> set (m_ssigs b). \<exists>cert. cert \<noteq> [] \<and> doVerify E cert (support_message b (sig_signer_id s)) (sig_signer_signature s))"
proof -
  let ?sp = "app_signature_pool a" and ?rq = "app_requester a"
  have inv: "\<forall>s \<in> set (m_signature_pool ?sp). accepted E st ?sp s" "info_ok E st ?rq ?sp" "m_merkle_tree ?rq \<noteq> []"
    using reachable_round_inv [OF assms(1)] assms(2) by (auto simp: round_inv_def Let_def MAX_MERKLE_LEAVES_def)
  have ne: "m_signature_pool ?sp \<noteq> []" using assms(3) by (auto simp: sp_size_def MIN_SIGNATURE_COLLECT_SIZE_def)
  have "fetchN (min (sp_size ?sp) MAX_SIGNATURE_COLLECT_SIZE) (bi_height (m_basic_block_info ?rq)) ?sp = m_signature_pool ?sp"
    using inv(1,2) ne assms(4) by (intro fetchN_all) (auto simp: accepted_def info_ok_def Let_def)
  note f = make_block_fields [OF assms(5) [unfolded this] ne inv(3)]
  have "sig_message st ?sp = support_message b"
    using inv(2) f by (intro ext support_message_eq) (simp_all add: info_ok_def Let_def)
  then show ?thesis using inv f by (auto simp: info_ok_def Let_def accepted_def)
qed

section \<open>Witnesses\<close>

lemma hm_clear_total: "hm_inv h m \<Longrightarrow> \<exists>m'. hm_clear m = Some m'"
  by (simp add: hm_clear_def hm_inv_def)

text \<open>With nothing pending, a round collects the certificate transaction of its new signers.\<close>

lemma collect_certificates:
  assumes "new_signers \<noteq> []"
  shows "\<exists>txp. collect_transactions E st h now new_signers new_tx_pool = Some ([genCertificateTransaction E st now new_signers], txp)"
proof -
  let ?tx = "genCertificateTransaction E st now new_signers"
  have "tp_size new_tx_pool < LAST_PRIME_NUMBER" using tp_pending_facts(3) [OF tp_inv_new(1)] by (simp add: tp_inv_new(2) LAST_PRIME_NUMBER_def)
  then obtain p1 where p1: "tp_push h ?tx new_tx_pool = Some (True, p1)" "tp_inv h p1" "tp_pending h p1 = [?tx]"
    using push_pending [OF tp_inv_new(1) [of h], of ?tx] by (auto simp: tp_inv_new(2))
  have n: "tp_size p1 = 1" using tp_pending_facts(3) [OF p1(2)] p1(3) by simp
  obtain p2 where p2: "fetchLastN h 1 p1 = Some ([?tx], p2)" "tp_inv h p2"
    using fetchLastN_pending [OF p1(2), of 1] p1(3) by auto
  from p2(2) have "hm_inv h (m_txid_pool p2)" by (simp add: tp_inv_def)
  then obtain ids where "hm_clear (m_txid_pool p2) = Some ids" using hm_clear_total by blast
  then show ?thesis
    using assms p1(1) p2(1) n by (simp add: collect_transactions_def tp_clear_def MAX_COLLECT_TRANSACTION_SIZE_def)
qed

definition signer_w :: Signer where
  "signer_w = \<lparr>user_id = [9], pk_cert = ''pk'', hmac_key = [], last_update = 0, signer_status = GOOD\<rparr>"

definition merger_w :: Merger where
  "merger_w = Application.extend (node_w (new_pool fresh_ls)) \<lparr>app_signature_pool = new_sig_pool, app_signer_pool = [signer_w],
     app_requester = \<lparr>m_merkle_tree = new_tree MAX_MERKLE_LEAVES, m_basic_block_info = \<lparr>bi_time = 0, bi_merger_id = [], bi_chain_id = [],
       bi_height = 0, bi_transaction_root = [], bi_prev_id_b64 = [], bi_prev_hash_b64 = [], bi_transactions = []\<rparr>,
       m_is_collect_running = False, m_max_signers = 0, m_block_gen_strand = 0\<rparr>\<rparr>"

lemma round_w:
  "\<exists>a tx. requestSignatures ext0 new_setting h (\<lambda>x. x) \<lparr>t_cert = 1, t_block = 2, t_request = 3\<rparr> merger_w = Some a \<and>
     bi_transactions (m_basic_block_info (app_requester a)) = [tx] \<and> m_transaction_type tx = CERTIFICATES \<and>
     length (m_content_list tx) = 2 \<and> m_enabled (app_signature_pool a) \<and> m_signature_pool (app_signature_pool a) = [] \<and>
     m_is_collect_running (app_requester a) \<and> app_signer_pool a = [signer_w]"
proof -
  have ub: "ub_pool merger_w = new_pool fresh_ls" by (simp add: ub_pool_def merger_w_def node_w_def Application.defs)
  have "selectSigners (\<lambda>x. x) [signer_w] = Some [signer_w]"
    by (simp add: selectSigners_def getNumSignerBy_def getRandomSigners_def signer_w_def MIN_SIGNATURE_COLLECT_SIZE_def
        MAX_SIGNATURE_COLLECT_SIZE_def Let_def)
  moreover have "newSigners ext0 fresh_ls [signer_w] = Some [signer_w]"
    by (simp add: isNewSigner_def getCertificate_id_def getCertificate_def ledger_read_def ls_readLedgerByKey_def
        st_readLedgerByKey_def fresh_ls_def fresh_storage Let_def)
  moreover obtain txp where "collect_transactions ext0 new_setting h 1 [signer_w] new_tx_pool =
      Some ([genCertificateTransaction ext0 new_setting 1 [signer_w]], txp)" using collect_certificates by blast
  ultimately show ?thesis
    using ub
    by (simp add: requestSignatures_def hasUnresolvedBlocks_def new_pool_def merger_ledger_def bp_getMostPossibleLink_def
        getMostPossibleLink_def Let_def merger_w_def node_w_def Application.defs set_ub_pool_def ub_pool_def sendRequestMessage_def
        app_send_def setupSigPool_def enablePool_def new_sig_pool_def genCertificateTransaction_def refreshSignature_def genNewTxId_def)
qed

theorem produced_block_supported_witness:
  "\<exists>a b. reachable ext0 [] new_setting (\<lambda>_. 0) (\<lambda>x. x) a \<and> length (m_ssigs b) = 1 \<and>
     (\<forall>s \<in> set (m_ssigs b). \<exists>cert. cert \<noteq> [] \<and> doVerify ext0 cert (support_message b (sig_signer_id s)) (sig_signer_signature s))"
proof -
  let ?R = "reachable ext0 [] new_setting (\<lambda>_. 0) (\<lambda>x. x)"
  obtain a tx where a: "requestSignatures ext0 new_setting (\<lambda>_. 0) (\<lambda>x. x) \<lparr>t_cert = 1, t_block = 2, t_request = 3\<rparr> merger_w = Some a"
    "bi_transactions (m_basic_block_info (app_requester a)) = [tx]" "m_transaction_type tx = CERTIFICATES" "length (m_content_list tx) = 2"
    "m_enabled (app_signature_pool a)" "m_signature_pool (app_signature_pool a) = []" "m_is_collect_running (app_requester a)"
    "app_signer_pool a = [signer_w]" using round_w by blast
  have "?R merger_w" by (rule reachable.start) (simp_all add: merger_w_def Application.defs new_sig_pool_def length_new_tree)
  then have Ra: "?R a" by (rule reachable.round [OF _ _ _ a(1)]) (simp_all add: merger_w_def Application.defs)
  let ?sp = "app_signature_pool a"
  let ?sig = "stringToBytes ''pk'' @ sig_message new_setting ?sp [9]"
  let ?body = "json_obj [(''sID'', JStr (encodeBase64 ext0 [9])), (''sig'', JStr (encodeBase64 ext0 ?sig))]"
  let ?s = "\<lparr>sig_signer_id = [9], sig_signer_signature = ?sig, sig_height = sp_height ?sp\<rparr>"
  have b: "getBytesFromB64 ext0 ?body ''sID'' = [9]" "getBytesFromB64 ext0 ?body ''sig'' = ?sig"
    by (rule getBytesFromB64_written [OF ext0_laws(1)], simp)+
  have "doVerify ext0 ''pk'' (sig_message new_setting ?sp [9]) ?sig" by (simp add: doVerify_def ext0_def)
  then have "sp_handleMessage ext0 new_setting (app_signer_pool a) (merger_ledger a) ?body ?sp = Some (sp_push ?s ?sp)"
    using a(5,8) b by (simp add: sp_handleMessage_def sp_verifySignature_def signer_cert_of_def getPkCert_def find_signer_def signer_w_def Let_def)
  from reachable.over [OF reachable.signature [OF Ra this]]
  have R: "?R (collect_over (a\<lparr>app_signature_pool := sp_push ?s ?sp\<rparr>))" .
  let ?a = "collect_over (a\<lparr>app_signature_pool := sp_push ?s ?sp\<rparr>)"
  have f: "sp_size (app_signature_pool ?a) = 1" "0 < m_block_gen_strand (app_requester ?a)"
    "bi_transactions (m_basic_block_info (app_requester ?a)) = [tx]"
    using a(2,6,7) by (simp_all add: collect_over_def doCreateBlock_def disablePool_def sp_size_def sp_push_def)
  obtain x y where "m_content_list tx = [x, y]" using a(4) by (auto simp: length_Suc_conv numeral_2_eq_2)
  then have "extractUserCertsIf [tx] = Some (map_of [(x, y)])" using a(3) by (simp add: getCertsIf_def)
  then obtain blk where blk: "make_block ext0 new_setting (m_basic_block_info (app_requester ?a))
       (fetchN (min (sp_size (app_signature_pool ?a)) MAX_SIGNATURE_COLLECT_SIZE)
         (bi_height (m_basic_block_info (app_requester ?a))) (app_signature_pool ?a)) (m_merkle_tree (app_requester ?a)) = Some blk"
    using f(3) by (simp add: make_block_def initialize_info_def)
  have "MIN_SIGNATURE_COLLECT_SIZE \<le> sp_size (app_signature_pool ?a)" "sp_size (app_signature_pool ?a) \<le> MAX_SIGNATURE_COLLECT_SIZE"
    by (simp_all add: f(1) MIN_SIGNATURE_COLLECT_SIZE_def MAX_SIGNATURE_COLLECT_SIZE_def)
  from produced_block_supported [OF R f(2) this blk] f(1) R show ?thesis
    by (intro exI [of _ ?a] exI [of _ blk] conjI) (auto simp: sp_size_def)
qed

end
