(* ===== verification/Transaction_Collector.thy ===== *)
theory Transaction_Collector
  imports Block_Production
begin

text \<open>
  \<open>class TransactionCollector\<close> (\<open>src/services/transaction_collector.cpp\<close>): while a merger is primary or secondary it
  collects transactions, otherwise it forwards them to the first block producer of the slot; at the
  change of the slot it starts a round of block production when that is its job.

  The deque of jobs is a list; reading or writing an element it does not have, and taking from the empty deque, is
  \<^const>\<open>None\<close>. The timer that runs \<open>checkBpJob\<close> is a call of it; \<open>tc_timer_on\<close> is the flag of \<open>call_once\<close>.
\<close>

section \<open>State\<close>

datatype BpJobStatus = DO | DONT | JOB_UNKNOWN

record TransactionCollector =
  m_current_tx_status :: BpStatus
  m_next_tx_status :: BpStatus
  m_bpjob_sequence :: "BpJobStatus list"
  m_current_block_producers :: "merger_id_type list"
  m_next_block_producers :: "merger_id_type list"
  tc_timer_on :: bool

definition new_collector :: TransactionCollector where
  "new_collector = \<lparr>m_current_tx_status = IN_BOOT_WAIT, m_next_tx_status = BP_UNKNOWN, m_bpjob_sequence = [],
     m_current_block_producers = [], m_next_block_producers = [], tc_timer_on = False\<rparr>"

text \<open>A merger with its collector.\<close>

record Node =
  n_merger :: Merger
  n_collector :: TransactionCollector

section \<open>Collecting\<close>

definition isRunnable :: "TransactionCollector \<Rightarrow> bool" where
  "isRunnable c \<longleftrightarrow> m_current_tx_status c = PRIMARY \<or> m_current_tx_status c = SECONDARY"

text \<open>What each ledger says of a transaction: all three accept every one.\<close>

definition ledger_checks :: "(Transaction \<Rightarrow> bool) list" where
  "ledger_checks = [\<lambda>_. True, \<lambda>_. True, \<lambda>_. True]"

definition isValidTransaction :: "Transaction \<Rightarrow> bool" where
  "isValidTransaction tx \<longleftrightarrow> ledger_checks \<noteq> [] \<and> list_all (\<lambda>isValidTx. isValidTx tx) ledger_checks"

definition forwardMessage :: "Setting \<Rightarrow> InputMsgEntry \<Rightarrow> Node \<Rightarrow> Node" where
  "forwardMessage st m n =
     (case m_current_block_producers (n_collector n) of
        [] \<Rightarrow> n
      | p # _ \<Rightarrow> if \<not> m_tx_forward st then n
          else n\<lparr>n_merger := app_send \<lparr>out_type = in_type m, out_body = in_body m, receivers = [p]\<rparr> (n_merger n)\<rparr>)"

definition tc_handleMessage :: "ext \<Rightarrow> bytes \<Rightarrow> Setting \<Rightarrow> CertificatePool \<Rightarrow> (string \<Rightarrow> nat) \<Rightarrow> InputMsgEntry \<Rightarrow> Node \<Rightarrow> Node option" where
  "tc_handleMessage E mem st certs h m n =
     (if \<not> isRunnable (n_collector n) then Some (forwardMessage st m n)
      else do {
        let a = n_merger n;
        let txid_b64 = getStringK (in_body m) ''txid'';
        dup \<leftarrow> tp_isDuplicated h (base64ToArray E TRANSACTION_ID_TYPE_SIZE mem txid_b64) (app_transaction_pool a);
        if dup then Some n
        else if isDuplicatedTx txid_b64 (pool_storage (ub_pool a)) then Some n
        else do {
          (_, new_tx) \<leftarrow> setJson E (in_body m) new_transaction;
          if getCert E (getBytesFromB64 E (in_body m) ''rID'') certs = [] then Some n
          else if isValidTransaction new_tx then do {
            (_, txp) \<leftarrow> tp_push h new_tx (app_transaction_pool a);
            Some (n\<lparr>n_merger := a\<lparr>app_transaction_pool := txp\<rparr>\<rparr>) }
          else Some n } })"

section \<open>Jobs\<close>

definition set_job :: "nat \<Rightarrow> BpJobStatus \<Rightarrow> TransactionCollector \<Rightarrow> TransactionCollector option" where
  "set_job i j c = (if i < length (m_bpjob_sequence c) then Some (c\<lparr>m_bpjob_sequence := (m_bpjob_sequence c)[i := j]\<rparr>) else None)"

definition turnOnTimer :: "TransactionCollector \<Rightarrow> TransactionCollector" where
  "turnOnTimer c =
     (if tc_timer_on c then c
      else c\<lparr>m_bpjob_sequence := m_bpjob_sequence c @ [DONT, JOB_UNKNOWN, JOB_UNKNOWN], tc_timer_on := True\<rparr>)"

definition setTxCollectStatus :: "BpStatus \<Rightarrow> merger_id_type list \<Rightarrow> TransactionCollector \<Rightarrow> TransactionCollector option" where
  "setTxCollectStatus stat block_producers c0 = do {
     let c = turnOnTimer (c0\<lparr>m_next_tx_status := stat\<rparr>);
     c1 \<leftarrow> (if m_current_tx_status c = PRIMARY then
              (if m_next_tx_status c = PRIMARY then set_job 1 DO c
               else if m_next_tx_status c = SECONDARY then Option.bind (set_job 1 DONT c) (set_job 2 DO)
               else set_job 1 DONT c)
            else if m_current_tx_status c = SECONDARY then
              (if m_next_tx_status c = PRIMARY then set_job 1 DO c else Some c)
            else
              (if m_next_tx_status c = PRIMARY then set_job 1 DO c
               else if m_next_tx_status c = SECONDARY then Option.bind (set_job 1 DONT c) (set_job 2 DO)
               else Some c));
     Some (c1\<lparr>m_next_block_producers := block_producers\<rparr>) }"

text \<open>The job of the slot that ends, and the collector after the change.\<close>

definition next_job :: "TransactionCollector \<Rightarrow> (BpJobStatus \<times> TransactionCollector) option" where
  "next_job c =
     (case m_bpjob_sequence c of
        [] \<Rightarrow> None
      | this_job # jobs \<Rightarrow> Some (this_job, c\<lparr>m_current_tx_status := m_next_tx_status c,
          m_current_block_producers := m_next_block_producers c, m_bpjob_sequence := jobs @ [JOB_UNKNOWN]\<rparr>))"

definition checkBpJob :: "ext \<Rightarrow> Setting \<Rightarrow> (string \<Rightarrow> nat) \<Rightarrow> (Signer list \<Rightarrow> Signer list) \<Rightarrow> round_times \<Rightarrow> Node \<Rightarrow> Node option" where
  "checkBpJob E st h shuffle t n = do {
     (this_job, c) \<leftarrow> next_job (n_collector n);
     if this_job = DO \<and> 0 < tp_size (app_transaction_pool (n_merger n))
     then do { a \<leftarrow> requestSignatures E st h shuffle t (n_merger n); Some (n\<lparr>n_merger := a, n_collector := c\<rparr>) }
     else Some (n\<lparr>n_collector := c\<rparr>) }"

section \<open>Slots\<close>

text \<open>
  In every slot the scheduler announces the status of the next slot, then the slot changes. The jobs taken at the
  changes, for the announcements of a sequence of slots:
\<close>

fun run_slots :: "(BpStatus \<times> merger_id_type list) list \<Rightarrow> TransactionCollector \<Rightarrow> (BpJobStatus list \<times> TransactionCollector) option" where
  "run_slots [] c = Some ([], c)"
| "run_slots ((stat, producers) # slots) c = do {
     c1 \<leftarrow> setTxCollectStatus stat producers c;
     (job, c2) \<leftarrow> next_job c1;
     (jobs, c3) \<leftarrow> run_slots slots c2;
     Some (job # jobs, c3) }"

text \<open>The reference: with the statuses of the last three slots, a block is to be made at the end of the last one.\<close>

definition duty :: "BpStatus \<Rightarrow> BpStatus \<Rightarrow> BpStatus \<Rightarrow> bool" where
  "duty before_last last_slot this_slot \<longleftrightarrow> this_slot = PRIMARY \<or> (last_slot = SECONDARY \<and> before_last \<noteq> SECONDARY)"

text \<open>The job at the front of the deque is decided, the one behind it is open unless the merger is newly secondary.\<close>

definition jobs_ok :: "BpStatus \<Rightarrow> BpStatus \<Rightarrow> BpStatus \<Rightarrow> TransactionCollector \<Rightarrow> bool" where
  "jobs_ok x y z c \<longleftrightarrow> tc_timer_on c \<and> m_current_tx_status c = z \<and>
     (\<exists>j k. m_bpjob_sequence c = [j, k, JOB_UNKNOWN] \<and> (j = DO \<longleftrightarrow> duty x y z) \<and> (k = DO \<longleftrightarrow> z = SECONDARY \<and> y \<noteq> SECONDARY))"

lemma slot_step:
  assumes "jobs_ok x y z c"
  shows "\<exists>c1 j c2. setTxCollectStatus w ps c = Some c1 \<and> next_job c1 = Some (j, c2) \<and> (j = DO \<longleftrightarrow> duty x y z) \<and>
    jobs_ok y z w c2 \<and> m_current_block_producers c2 = ps"
  using assms by (cases z; cases w; auto simp: jobs_ok_def duty_def setTxCollectStatus_def turnOnTimer_def set_job_def next_job_def)

lemma run_slots_duty:
  assumes "jobs_ok x y z c"
  shows "\<exists>jobs c'. run_slots slots c = Some (jobs, c') \<and> length jobs = length slots \<and>
    (\<forall>i < length slots. jobs ! i = DO \<longleftrightarrow> duty (([x, y, z] @ map fst slots) ! i) (([x, y, z] @ map fst slots) ! (i + 1)) (([x, y, z] @ map fst slots) ! (i + 2)))"
  using assms
proof (induction slots arbitrary: x y z c)
  case (Cons s slots)
  obtain w ps where s: "s = (w, ps)" by (cases s)
  obtain c1 j c2 where step: "setTxCollectStatus w ps c = Some c1" "next_job c1 = Some (j, c2)" "j = DO \<longleftrightarrow> duty x y z" "jobs_ok y z w c2"
    using slot_step [OF Cons.prems] by blast
  obtain jobs c3 where rest: "run_slots slots c2 = Some (jobs, c3)" "length jobs = length slots"
    "\<forall>i < length slots. jobs ! i = DO \<longleftrightarrow> duty (([y, z, w] @ map fst slots) ! i) (([y, z, w] @ map fst slots) ! (i + 1)) (([y, z, w] @ map fst slots) ! (i + 2))"
    using Cons.IH [OF step(4)] by blast
  have "(j # jobs) ! i = DO \<longleftrightarrow> duty (([x, y, z] @ map fst (s # slots)) ! i) (([x, y, z] @ map fst (s # slots)) ! (i + 1)) (([x, y, z] @ map fst (s # slots)) ! (i + 2))"
    if "i < length (s # slots)" for i
    using that rest(3) step(3) s by (cases i) auto
  moreover have "run_slots (s # slots) c = Some (j # jobs, c3)" using s step rest by simp
  ultimately show ?case using rest(2) by auto
qed simp

text \<open>The first announcement starts the timer and fills the deque.\<close>

lemma first_slot:
  assumes "\<not> tc_timer_on c" "m_bpjob_sequence c = []" "m_current_tx_status c = IN_BOOT_WAIT"
  shows "\<exists>c1 c2. setTxCollectStatus w ps c = Some c1 \<and> next_job c1 = Some (DONT, c2) \<and> jobs_ok IN_BOOT_WAIT IN_BOOT_WAIT w c2"
  using assms by (cases w; simp add: jobs_ok_def duty_def setTxCollectStatus_def turnOnTimer_def set_job_def next_job_def)

section \<open>Collected transactions\<close>

lemma isDuplicated_pending:
  fixes tx :: Transaction
  assumes "tp_inv h p" "i = m_transaction_id tx"
  shows "tp_isDuplicated h i p = Some (i \<in> m_transaction_id ` set (tp_pending h p))"
proof -
  have inv: "hm_inv h (m_txid_pool p)" using assms(1) by (simp add: tp_inv_def)
  have "hm_lookup h (m_txid_pool p) (getIdStr tx) \<noteq> None \<longleftrightarrow> m_transaction_id tx \<in> m_transaction_id ` set (tp_pending h p)"
    using tp_pending_facts(2) [OF assms(1)] by (auto simp: dom_def set_eq_iff image_iff)
  then show ?thesis using inv assms(2) by (simp add: tp_isDuplicated_def hm_has_def omp.get_view getIdStr_def)
qed

lemma setJson_id:
  assumes "setJson E j new_transaction = Some (True, tx)"
  shows "m_transaction_id tx = base64ToArray E TRANSACTION_ID_TYPE_SIZE mem (getStringK j ''txid'')"
  using assms by (auto simp: setJson_def Let_def base64ToArray_def bytesToArray_def TRANSACTION_ID_TYPE_SIZE_def getBytesFromB64_def
      setContentsFromJson_def split: if_splits Option.bind_splits)

section \<open>Properties\<close>

text \<open>C10. When a merger makes blocks: over every sequence of slots the deque of jobs always has the elements that are
  read and written, and the job at the end of a slot is to make a block exactly when the merger was primary in that
  slot, or had newly become secondary in the slot before.\<close>

theorem block_jobs_follow_duty:
  "\<exists>jobs c. run_slots slots new_collector = Some (jobs, c) \<and> length jobs = length slots \<and>
     (\<forall>i < length slots. jobs ! i = DO \<longleftrightarrow> 0 < i \<and>
        (let st = (!) ([IN_BOOT_WAIT, IN_BOOT_WAIT] @ map fst slots) in duty (st (i - 1)) (st i) (st (i + 1))))"
proof (cases slots)
  case (Cons s rest)
  obtain w ps where s: "s = (w, ps)" by (cases s)
  obtain c1 c2 where f: "setTxCollectStatus w ps new_collector = Some c1" "next_job c1 = Some (DONT, c2)"
    "jobs_ok IN_BOOT_WAIT IN_BOOT_WAIT w c2"
    using first_slot [of new_collector w ps] by (auto simp: new_collector_def)
  obtain jobs c3 where r: "run_slots rest c2 = Some (jobs, c3)" "length jobs = length rest"
    "\<forall>i < length rest. jobs ! i = DO \<longleftrightarrow> duty (([IN_BOOT_WAIT, IN_BOOT_WAIT, w] @ map fst rest) ! i)
       (([IN_BOOT_WAIT, IN_BOOT_WAIT, w] @ map fst rest) ! (i + 1)) (([IN_BOOT_WAIT, IN_BOOT_WAIT, w] @ map fst rest) ! (i + 2))"
    using run_slots_duty [OF f(3)] by blast
  have "(DONT # jobs) ! i = DO \<longleftrightarrow> 0 < i \<and>
      (let st = (!) ([IN_BOOT_WAIT, IN_BOOT_WAIT] @ map fst slots) in duty (st (i - 1)) (st i) (st (i + 1)))"
    if "i < length slots" for i
    using that r(3) Cons s by (cases i) (auto simp: Let_def)
  moreover have "run_slots slots new_collector = Some (DONT # jobs, c3)" using Cons s f r by simp
  ultimately show ?thesis using r(2) Cons by auto
qed simp

text \<open>While a merger collects, a transaction that parses, is not stored yet and names a requester with a
  known certificate becomes pending, on top of the stack unless its id is pending already: the signature of the requester
  is not checked.\<close>

theorem known_requester_accepted:
  assumes "isRunnable (n_collector n)" "tp_inv h (app_transaction_pool (n_merger n))"
    "length (tp_pending h (app_transaction_pool (n_merger n))) < LAST_PRIME_NUMBER"
    "setJson E (in_body m) new_transaction = Some (True, tx)"
    "\<not> isDuplicatedTx (getStringK (in_body m) ''txid'') (pool_storage (ub_pool (n_merger n)))"
    "getCert E (getBytesFromB64 E (in_body m) ''rID'') certs \<noteq> []"
  shows "\<exists>n'. tc_handleMessage E mem st certs h m n = Some n' \<and> n_collector n' = n_collector n \<and>
    tp_pending h (app_transaction_pool (n_merger n')) = snd (stack_step (Push tx) (tp_pending h (app_transaction_pool (n_merger n))))"
proof -
  let ?p = "app_transaction_pool (n_merger n)"
  have dup: "tp_isDuplicated h (base64ToArray E TRANSACTION_ID_TYPE_SIZE mem (getStringK (in_body m) ''txid'')) ?p =
      Some (m_transaction_id tx \<in> m_transaction_id ` set (tp_pending h ?p))"
    using isDuplicated_pending [OF assms(2) setJson_id [OF assms(4), symmetric]] setJson_id [OF assms(4)] by metis
  obtain p' where p': "tp_push h tx ?p = Some (m_transaction_id tx \<notin> m_transaction_id ` set (tp_pending h ?p), p')"
    "tp_pending h p' = snd (stack_step (Push tx) (tp_pending h ?p))"
    using push_pending [OF assms(2), of tx] assms(3) tp_pending_facts(3) [OF assms(2)] by auto
  show ?thesis
    using assms p' dup by (auto simp: tc_handleMessage_def isValidTransaction_def ledger_checks_def)
qed

section \<open>Witnesses\<close>

theorem block_jobs_follow_duty_witness:
  "\<exists>jobs c. run_slots [(IDLE, []), (SECONDARY, []), (IDLE, []), (PRIMARY, []), (IDLE, [])] new_collector = Some (jobs, c) \<and>
     jobs ! 2 \<noteq> DO \<and> jobs ! 3 = DO \<and> jobs ! 4 = DO"
proof -
  let ?slots = "[(IDLE, []), (SECONDARY, []), (IDLE, []), (PRIMARY, []), (IDLE, [])]"
  obtain jobs c where r: "run_slots ?slots new_collector = Some (jobs, c)"
    "\<forall>i < 5. jobs ! i = DO \<longleftrightarrow> 0 < i \<and>
        (let st = (!) ([IN_BOOT_WAIT, IN_BOOT_WAIT] @ map fst ?slots) in duty (st (i - 1)) (st i) (st (i + 1)))"
    using block_jobs_follow_duty [of ?slots] by auto
  have "jobs ! 2 \<noteq> DO" "jobs ! 3 = DO" "jobs ! 4 = DO"
    using r(2) [rule_format, of 2] r(2) [rule_format, of 3] r(2) [rule_format, of 4] by (simp_all add: duty_def)
  with r(1) show ?thesis by blast
qed

text \<open>A transaction without signature of a known requester.\<close>

definition collecting_w :: Node where
  "collecting_w = \<lparr>n_merger = merger_w, n_collector = new_collector\<lparr>m_current_tx_status := PRIMARY\<rparr>\<rparr>"

lemma collecting_w_pool: "isRunnable (n_collector collecting_w)" "app_transaction_pool (n_merger collecting_w) = new_tx_pool" "pool_storage (ub_pool (n_merger collecting_w)) = new_storage"
  by (simp_all add: collecting_w_def merger_w_def node_w_def Application.defs ub_pool_def new_pool_def pool_storage_def fresh_ls_def isRunnable_def)

theorem known_requester_accepted_witness:
  "let tx = tx_a\<lparr>m_tx_signature := []\<rparr> in
     \<exists>n. tc_handleMessage ext0 [] new_setting [encodeBase64 ext0 [7] \<mapsto> ''c''] (\<lambda>_. 0) \<lparr>in_type = MSG_TX, in_body = tx_getJson ext0 tx\<rparr>
           collecting_w = Some n \<and> tp_pending (\<lambda>_. 0) (app_transaction_pool (n_merger n)) = [tx]"
proof -
  let ?tx = "tx_a\<lparr>m_tx_signature := []\<rparr>"
  have ok: "tx_ok ?tx" using tx_a_ok(1) by (simp add: tx_ok_def)
  have id: "getBytesFromB64 ext0 (tx_getJson ext0 ?tx) ''rID'' = [7]"
    by (rule getBytesFromB64_written [OF ext0_laws(1)]) (simp add: tx_getJson_def tx_a_ok(4))
  have "\<exists>n'. tc_handleMessage ext0 [] new_setting [encodeBase64 ext0 [7] \<mapsto> ''c''] (\<lambda>_. 0) \<lparr>in_type = MSG_TX, in_body = tx_getJson ext0 ?tx\<rparr>
      collecting_w = Some n' \<and> n_collector n' = n_collector collecting_w \<and>
      tp_pending (\<lambda>_. 0) (app_transaction_pool (n_merger n')) =
        snd (stack_step (Push ?tx) (tp_pending (\<lambda>_. 0) (app_transaction_pool (n_merger collecting_w))))"
  proof (rule known_requester_accepted)
    show "setJson ext0 (in_body \<lparr>in_type = MSG_TX, in_body = tx_getJson ext0 ?tx\<rparr>) new_transaction = Some (True, ?tx)"
      by (simp add: setJson_written [OF ext0_laws(1) ok])
  qed (simp_all add: collecting_w_pool tp_inv_new LAST_PRIME_NUMBER_def isDuplicatedTx_def fresh_storage id getCert_def)
  then show ?thesis by (auto simp: Let_def collecting_w_pool tp_inv_new)
qed

end
