(* ===== verification/Task_On_Time.thy ===== *)
theory Task_On_Time
  imports Chain_Types
begin

text \<open>
  When a task on time runs (\<open>class TaskOnTime\<close> in \<open>src/utils/periodic_task.hpp\<close>): the place in the slot and the length of
  a slot, in milliseconds, and the time to wait for the next run. The timers of the I/O service are not modelled. A C++ \<open>int\<close>
  is an \<^typ>\<open>int\<close>, and its conversions are written out.
\<close>

section \<open>Definitions\<close>

definition setTime :: "int \<Rightarrow> u64 \<Rightarrow> int \<times> u64" where
  "setTime at_time intval =
     (let a = (if intval \<le> (word_of_int at_time :: u64)
               then sint (ucast ((word_of_int at_time :: u64) mod intval) :: u32) else at_time)
      in (if a < 0 then 0 else a, intval))"

text \<open>The guard of \<open>runTaskOnTime\<close>.\<close>

definition runs_on_time :: "int \<Rightarrow> u64 \<Rightarrow> bool" where
  "runs_on_time at_time intval \<longleftrightarrow> 0 \<le> at_time \<and> 1000 \<le> intval"

definition remain_time :: "int \<Rightarrow> u64 \<Rightarrow> u64 \<Rightarrow> u64" where
  "remain_time at_time intval this_time =
     (let this_slot = this_time div intval;
          this_slot_event_time = this_slot * intval + word_of_int at_time;
          next_slot_event_time = (this_slot + 1) * intval + word_of_int at_time;
          remain = (if this_slot_event_time \<le> this_time then next_slot_event_time - this_time
                    else this_slot_event_time - this_time)
      in if remain < 100 then remain + intval else remain)"

section \<open>The same on natural numbers\<close>

definition remain_nat :: "nat \<Rightarrow> nat \<Rightarrow> nat \<Rightarrow> nat" where
  "remain_nat a n t =
     (let e = t div n * n + a; r = (if e \<le> t then e + n - t else e - t) in if r < 100 then r + n else r)"

lemma remain_nat_bounds:
  assumes "1000 \<le> n" "a < n"
  shows "100 \<le> remain_nat a n t" "remain_nat a n t < n + 100" "(t + remain_nat a n t) mod n = a"
proof -
  define q where "q = t div n"
  define m where "m = t mod n"
  have t: "t = q * n + m" "m < n" using assms(1) by (simp_all add: q_def m_def)
  have "remain_nat a n t = (let r = (if a \<le> m then a + n - m else a - m) in if r < 100 then r + n else r)"
    unfolding remain_nat_def using t by (simp add: Let_def flip: q_def)
  moreover have "(q * n + k * n + a) mod n = a" for k using assms(2) by (simp flip: add_mult_distrib)
  note this [of 0] this [of 1] this [of 2]
  ultimately show "100 \<le> remain_nat a n t" "remain_nat a n t < n + 100" "(t + remain_nat a n t) mod n = a"
    using assms t by (auto simp: Let_def mult_2 add.assoc add.commute)
qed

lemma remain_time_nat:
  assumes "1000 \<le> unat intval" "a < unat intval" "unat this_time + 3 * unat intval < 2 ^ 64"
  shows "unat (remain_time (int a) intval this_time) = remain_nat a (unat intval) (unat this_time)"
proof -
  let ?n = "unat intval" and ?t = "unat this_time"
  define d where "d = ?t div ?n"
  have d: "unat (this_time div intval) = d" by (simp add: d_def unat_div)
  have q: "d * ?n \<le> ?t" by (simp add: d_def)
  have t: "?t < d * ?n + ?n" using div_mult_mod_eq [of ?t ?n] mod_less_divisor [of ?n ?t] assms(1) unfolding d_def by linarith
  have "d \<le> ?t" by (simp add: d_def)
  then have d1: "d + 1 < 2 ^ 64" using assms(1,3) by linarith
  have a64: "unat (word_of_nat a :: u64) = a" using assms(2,3) by (simp add: unat_of_nat)
  have slot: "unat (this_time div intval * intval + word_of_nat a) = d * ?n + a"
    using q assms(2,3) by (simp add: unat_word_ariths(1,2) d a64)
  have nxt: "unat ((this_time div intval + 1) * intval + word_of_nat a) = d * ?n + a + ?n"
    using q assms(2,3) d1 by (simp add: unat_word_ariths(1,2) d a64 add_mult_distrib)
  show ?thesis
    using slot nxt assms q t
    by (simp add: remain_time_def remain_nat_def Let_def word_le_nat_alt word_less_nat_alt unat_sub_if' unat_word_ariths(1) flip: d_def)
qed

section \<open>Properties\<close>

text \<open>A task on time runs at its place in a slot: for a place inside the slot, the time to wait ends at that place,
  at least 100 milliseconds ahead and less than that beyond the length of a slot.\<close>

theorem task_runs_in_place:
  assumes "runs_on_time at_time intval" "at_time < uint intval" "unat this_time + 3 * unat intval < 2 ^ 64"
  shows "100 \<le> remain_time at_time intval this_time \<and> unat (remain_time at_time intval this_time) < unat intval + 100 \<and>
    int ((unat this_time + unat (remain_time at_time intval this_time)) mod unat intval) = at_time"
proof -
  define a where "a = nat at_time"
  have a: "at_time = int a" "a < unat intval" using assms(1,2) by (auto simp: runs_on_time_def a_def nat_less_iff simp flip: uint_nat)
  have n: "1000 \<le> unat intval" using assms(1) by (simp add: runs_on_time_def word_le_nat_alt)
  show ?thesis
    using remain_nat_bounds [OF n a(2), of "unat this_time"] remain_time_nat [OF n a(2) assms(3)] a(1) by (simp add: word_le_nat_alt)
qed

theorem task_runs_in_place_witness: "remain_time 9000 10000 123450 = 5550 \<and> 100 \<le> remain_time 9000 10000 123450"
proof -
  have "100 \<le> remain_time 9000 10000 123450"
    using task_runs_in_place [of 9000 10000 123450] by (simp add: runs_on_time_def)
  then show ?thesis by (simp add: remain_time_def)
qed

text \<open>A negative place is not set to 0 as the second test intends: the first one takes it as a large number.\<close>

lemma negative_place: "setTime (- 1) 10000 = (1615, 10000)"
  by (simp add: setTime_def)

end
