(* ===== verification/Bp_Scheduler.thy ===== *)
theory Bp_Scheduler
  imports Merger_Client Transaction_Collector Task_On_Time
begin

text \<open>
  \<open>class BpScheduler\<close> (\<open>src/modules/bp_scheduler/bp_scheduler.cpp\<close>): mergers tell each other their status in every slot, and
  from the table of statuses each computes which merger makes the next block, which one follows, and its own part.

  \<open>bs_recv_status\<close> is the table, in the order of ids once it was sorted. \<open>BpNode\<close> holds what the handlers change: the scheduler,
  the table of connections, the certificates and the output queue. The clock readings of a handler are taken as one. An
  index out of range and an uncaught exception are \<^const>\<open>None\<close>; a difference of times that does not fit 64 bits is taken as
  large.
\<close>

section \<open>State\<close>

type_synonym BpRecvStatusInfo = "merger_id_type \<times> u64 \<times> BpStatus"

record BpScheduler =
  bs_up_slot :: u64
  bs_current_status :: BpStatus
  bs_is_lock :: bool
  bs_welcome :: bool
  bs_recv_status :: "BpRecvStatusInfo list"
  bs_block_producers :: "merger_id_type list"

definition new_scheduler :: BpScheduler where
  "new_scheduler = \<lparr>bs_up_slot = 0, bs_current_status = IN_BOOT_WAIT, bs_is_lock = True, bs_welcome = True,
     bs_recv_status = [], bs_block_producers = []\<rparr>"

record BpNode =
  bn_scheduler :: BpScheduler
  bn_conn :: ConnManager
  bn_certs :: CertificatePool
  bn_output :: "OutputMsgEntry list"

definition bn_send :: "OutputMsgEntry \<Rightarrow> BpNode \<Rightarrow> BpNode" where
  "bn_send m n = n\<lparr>bn_output := deliverOutputMessage m (bn_output n)\<rparr>"

section \<open>Names of statuses\<close>

definition STATUS_STRING :: "(BpStatus \<times> string) list" where
  "STATUS_STRING = [(IN_BOOT_WAIT, ''IN_BOOT_WAIT''), (IDLE, ''IDLE''), (PRIMARY, ''PRIMARY''), (SECONDARY, ''SECONDARY''),
     (ERROR_ON_SIGNERS, ''ERROR_ON_SIGNERS''), (BP_UNKNOWN, ''UNKNOWN'')]"

definition stringToStatus :: "string \<Rightarrow> BpStatus" where
  "stringToStatus str = (case find (\<lambda>item. snd item = str) STATUS_STRING of Some item \<Rightarrow> fst item | None \<Rightarrow> BP_UNKNOWN)"

definition statusToString :: "BpStatus \<Rightarrow> string" where
  "statusToString status = (case map_of STATUS_STRING status of Some s \<Rightarrow> s | None \<Rightarrow> ''UNKNOWN'')"

section \<open>Scheduling\<close>

definition is_possible :: "u64 \<Rightarrow> BpRecvStatusInfo \<Rightarrow> bool" where
  "is_possible slot = (\<lambda>(_, time_slot, status). time_slot = slot \<and> (status = IDLE \<or> status = PRIMARY \<or> status = SECONDARY))"

text \<open>The loop over the table: the possible mergers with their statuses, whether all entries are idle, and the own
  position, which is one less than the number of possible mergers up to the own entry.\<close>

fun scan_recv :: "merger_id_type \<Rightarrow> u64 \<Rightarrow> BpRecvStatusInfo list \<Rightarrow> (merger_id_type \<times> BpStatus) list \<Rightarrow> bool \<Rightarrow> u64 \<Rightarrow>
    (merger_id_type \<times> BpStatus) list \<times> bool \<times> u64" where
  "scan_recv my_id slot [] possible is_all_idle my_pos = (possible, is_all_idle, my_pos)"
| "scan_recv my_id slot ((i, time_slot, status) # items) possible is_all_idle my_pos =
     (let possible' = (if is_possible slot (i, time_slot, status) then possible @ [(i, status)] else possible)
      in scan_recv my_id slot items possible' (is_all_idle \<and> status = IDLE)
           (if my_id = i then word_of_nat (length possible') - 1 else my_pos))"

text \<open>The first possible secondary, else the first possible primary.\<close>

definition find_primary :: "(merger_id_type \<times> BpStatus) list \<Rightarrow> nat option" where
  "find_primary possible =
     (case find_index (\<lambda>m. snd m = SECONDARY) possible of
        Some i \<Rightarrow> Some i
      | None \<Rightarrow> find_index (\<lambda>m. snd m = PRIMARY) possible)"

text \<open>Status of the possible merger at a position, once the positions of the primary and the secondary are known.\<close>

definition part_of :: "nat option \<Rightarrow> nat \<Rightarrow> nat \<Rightarrow> BpStatus" where
  "part_of primary secondary_pos i =
     (if i = secondary_pos then SECONDARY else if primary = Some i then PRIMARY else IDLE)"

definition my_prev_status :: "merger_id_type \<Rightarrow> BpRecvStatusInfo list \<Rightarrow> BpStatus" where
  "my_prev_status my_id items = (case find (\<lambda>item. fst item = my_id) items of Some (_, _, s) \<Rightarrow> s | None \<Rightarrow> IN_BOOT_WAIT)"

definition reschedule :: "merger_id_type \<Rightarrow> u64 \<Rightarrow> BpScheduler \<Rightarrow> BpScheduler option" where
  "reschedule my_id now s =
     (if bs_is_lock s \<or> bs_current_status s = ERROR_ON_SIGNERS then Some s
      else if my_prev_status my_id (bs_recv_status s) = IN_BOOT_WAIT then Some (s\<lparr>bs_current_status := IDLE\<rparr>)
      else let (possible, is_all_idle, my_pos) = scan_recv my_id (now div BP_INTERVAL) (bs_recv_status s) [] True 0;
               n = length possible
           in if n = 0 then Some s
              else if n = 1 then Some (s\<lparr>bs_current_status := PRIMARY, bs_block_producers := [my_id]\<rparr>)
              else if is_all_idle then
                Some (s\<lparr>bs_current_status := (if my_pos = 0 then PRIMARY else if my_pos = 1 then SECONDARY else IDLE),
                        bs_block_producers := [fst (possible ! 0), fst (possible ! 1)]\<rparr>)
              else let primary = find_primary possible;
                       primary_pos = (case primary of Some i \<Rightarrow> i | None \<Rightarrow> 0);
                       secondary_pos = (primary_pos + 1) mod n
                   in if unat my_pos < n
                      then Some (s\<lparr>bs_current_status := part_of primary secondary_pos (unat my_pos),
                                   bs_block_producers := [fst (possible ! primary_pos), fst (possible ! secondary_pos)]\<rparr>)
                      else None)"

definition updateRecvStatus :: "merger_id_type \<Rightarrow> u64 \<Rightarrow> merger_id_type \<Rightarrow> u64 \<Rightarrow> BpStatus \<Rightarrow> BpScheduler \<Rightarrow> BpScheduler option" where
  "updateRecvStatus my_id now merger_id timeslot stat s =
     reschedule my_id now (s\<lparr>bs_recv_status :=
       (if \<exists>item \<in> set (bs_recv_status s). fst item = merger_id
        then update_first (\<lambda>item. fst item = merger_id) (\<lambda>item. (fst item, timeslot, stat)) (bs_recv_status s)
        else sort_key fst (bs_recv_status s @ [(merger_id, timeslot, stat)]))\<rparr>)"

definition bs_start :: "merger_id_type \<Rightarrow> u64 \<Rightarrow> BpScheduler \<Rightarrow> BpScheduler option" where
  "bs_start my_id now s = updateRecvStatus my_id now my_id (now div BP_INTERVAL) IN_BOOT_WAIT (s\<lparr>bs_up_slot := now div BP_INTERVAL\<rparr>)"

definition setWelcome :: "bool \<Rightarrow> BpScheduler \<Rightarrow> BpScheduler" where
  "setWelcome st s = s\<lparr>bs_welcome := st\<rparr>"

section \<open>Tasks\<close>

definition lockStatus :: "BpScheduler \<Rightarrow> TransactionCollector \<Rightarrow> (BpScheduler \<times> TransactionCollector) option" where
  "lockStatus s c = do {
     c' \<leftarrow> setTxCollectStatus (bs_current_status s) (bs_block_producers s) c;
     Some (s\<lparr>bs_is_lock := True\<rparr>, c') }"

text \<open>The status a merger announces, from its own status and the number of its signers.\<close>

definition ping_status :: "nat \<Rightarrow> BpStatus \<Rightarrow> BpStatus" where
  "ping_status num_signers status =
     (let s1 = (if status \<noteq> IN_BOOT_WAIT \<and> num_signers < MIN_SIGNATURE_COLLECT_SIZE then ERROR_ON_SIGNERS else status)
      in if s1 = ERROR_ON_SIGNERS \<and> MIN_SIGNATURE_COLLECT_SIZE \<le> num_signers then IDLE else s1)"

definition msg_ping :: "ext \<Rightarrow> Setting \<Rightarrow> u64 \<Rightarrow> nat \<Rightarrow> BpStatus \<Rightarrow> OutputMsgEntry" where
  "msg_ping E st now num_signers status = \<lparr>out_type = MSG_PING, out_body = json_obj
     [(''mID'', JStr (encodeBase64 E (m_id st))), (''cID'', JStr (encodeBase64 E (m_localchain_id st))),
      (''time'', JStr (to_string (unat now))), (''sCnt'', JStr (to_string num_signers)),
      (''stat'', JStr (statusToString status))], receivers = []\<rparr>"

definition sendPingMessage :: "ext \<Rightarrow> Setting \<Rightarrow> SignerPool \<Rightarrow> u64 \<Rightarrow> BpNode \<Rightarrow> BpNode option" where
  "sendPingMessage E st pool now n = do {
     let num_signers = getNumSignerBy GOOD pool;
     let status = ping_status num_signers (bs_current_status (bn_scheduler n));
     let n1 = bn_send (msg_ping E st now num_signers status) n;
     s \<leftarrow> updateRecvStatus (m_id st) now (m_id st) (now div BP_INTERVAL) status
            ((bn_scheduler n)\<lparr>bs_current_status := status, bs_is_lock := False\<rparr>);
     Some (n1\<lparr>bn_scheduler := s\<rparr>) }"

section \<open>Messages\<close>

definition bs_update :: "Setting \<Rightarrow> u64 \<Rightarrow> merger_id_type \<Rightarrow> u64 \<Rightarrow> BpStatus \<Rightarrow> BpNode \<Rightarrow> BpNode option" where
  "bs_update st now merger_id timeslot stat n =
     map_option (\<lambda>s. n\<lparr>bn_scheduler := s\<rparr>) (updateRecvStatus (m_id st) now merger_id timeslot stat (bn_scheduler n))"

definition handle_ping :: "Setting \<Rightarrow> u64 \<Rightarrow> merger_id_type \<Rightarrow> u64 \<Rightarrow> json \<Rightarrow> BpNode \<Rightarrow> BpNode option" where
  "handle_ping st now merger_id timeslot body n = do {
     num_signers \<leftarrow> getInt body ''sCnt'';
     let status = stringToStatus (getStringK body ''stat'');
     bs_update st now merger_id timeslot
       (if num_signers < word_of_nat MIN_SIGNATURE_COLLECT_SIZE then ERROR_ON_SIGNERS else status) n }"

definition msg_welcome :: "ext \<Rightarrow> Setting \<Rightarrow> u64 \<Rightarrow> merger_id_type \<Rightarrow> ConnManager \<Rightarrow> OutputMsgEntry" where
  "msg_welcome E st now merger_id cm = \<lparr>out_type = MSG_WELCOME, out_body = json_obj
     [(''mID'', JStr (encodeBase64 E (m_id st))), (''cID'', JStr (encodeBase64 E (m_localchain_id st))),
      (''time'', JStr (to_string (unat now))), (''val'', JBool True), (''merger'', getAllMergerInfoJson E cm),
      (''se'', getAllSeInfoJson E cm)], receivers = [merger_id]\<rparr>"

definition handle_up :: "ext \<Rightarrow> Setting \<Rightarrow> u64 \<Rightarrow> merger_id_type \<Rightarrow> u64 \<Rightarrow> json \<Rightarrow> BpNode \<Rightarrow> BpNode option" where
  "handle_up E st now merger_id timeslot body n = do {
     let info = new_node_info\<lparr>mi_id := merger_id, mi_address := getStringK body ''ip'', mi_port := getStringK body ''port'',
                 mi_cert := getStringK body ''mCert''\<rparr>;
     b1 \<leftarrow> json_erase_key ''time'' body;
     b2 \<leftarrow> json_erase_key ''ver'' b1;
     b3 \<leftarrow> json_erase_key ''cID'' b2;
     let n1 = n\<lparr>bn_conn := writeMergerInfo b3 (setMergerInfo E info True (bn_conn n))\<rparr>;
     n2 \<leftarrow> bs_update st now merger_id timeslot IN_BOOT_WAIT n1;
     Some (bn_send (msg_welcome E st now merger_id (bn_conn n2)) n2) }"

definition handle_welcome :: "ext \<Rightarrow> Setting \<Rightarrow> json \<Rightarrow> BpNode \<Rightarrow> BpNode option" where
  "handle_welcome E st body n =
     (if \<not> getBoolean body ''val'' then Some n
      else do {
        (cm, certs) \<leftarrow> set_known_nodes E st Some body (bn_conn n, bn_certs n);
        Some (n\<lparr>bn_scheduler := (bn_scheduler n)\<lparr>bs_welcome := True\<rparr>, bn_conn := cm, bn_certs := certs\<rparr>) })"

definition bs_handleMessage :: "ext \<Rightarrow> Setting \<Rightarrow> u64 \<Rightarrow> InputMsgEntry \<Rightarrow> BpNode \<Rightarrow> BpNode option" where
  "bs_handleMessage E st now msg n =
     (let body = in_body msg
      in if getStringK body ''cID'' \<noteq> encodeBase64 E (m_localchain_id st) then Some n
         else do {
           let merger_id = getBytesFromB64 E body ''mID'';
           merger_time \<leftarrow> getTime body ''time'';
           let timeslot = merger_time div BP_INTERVAL;
           if uint (BP_INTERVAL div 2) < \<bar>sint merger_time - sint now\<bar> then Some n
           else case in_type msg of
             MSG_PING \<Rightarrow> handle_ping st now merger_id timeslot body n
           | MSG_UP \<Rightarrow> handle_up E st now merger_id timeslot body n
           | MSG_WELCOME \<Rightarrow> handle_welcome E st body n
           | _ \<Rightarrow> Some n })"

section \<open>The table\<close>

definition possible_list :: "u64 \<Rightarrow> BpRecvStatusInfo list \<Rightarrow> (merger_id_type \<times> BpStatus) list" where
  "possible_list slot items = map (\<lambda>(i, _, s). (i, s)) (filter (is_possible slot) items)"

definition all_idle :: "BpRecvStatusInfo list \<Rightarrow> bool" where
  "all_idle items \<longleftrightarrow> (\<forall>(_, _, s) \<in> set items. s = IDLE)"

lemma possible_list_simps [simp]:
  "possible_list slot [] = []"
  "possible_list slot (xs @ ys) = possible_list slot xs @ possible_list slot ys"
  "possible_list slot ((i, t, s) # xs) = (if is_possible slot (i, t, s) then [(i, s)] else []) @ possible_list slot xs"
  by (simp_all add: possible_list_def)

lemma scan_recv_other:
  "my_id \<notin> fst ` set items \<Longrightarrow>
     scan_recv my_id slot items acc idle pos = (acc @ possible_list slot items, idle \<and> all_idle items, pos)"
  by (induction my_id slot items acc idle pos rule: scan_recv.induct) (auto simp: all_idle_def)

lemma scan_recv_own:
  assumes "my_id \<notin> fst ` set xs" "my_id \<notin> fst ` set ys"
  shows "scan_recv my_id slot (xs @ (my_id, t, s) # ys) acc idle pos =
    (acc @ possible_list slot (xs @ (my_id, t, s) # ys), idle \<and> all_idle (xs @ (my_id, t, s) # ys),
     word_of_nat (length acc + length (possible_list slot (xs @ [(my_id, t, s)]))) - 1)"
  using assms
proof (induction xs arbitrary: acc idle pos)
  case Nil
  then show ?case using scan_recv_other [of my_id ys slot] by (auto simp: all_idle_def)
next
  case (Cons x xs)
  obtain i u v where x: "x = (i, u, v)" by (cases x)
  show ?case using Cons x by (auto simp: all_idle_def)
qed

lemma possible_ids: "distinct (map fst items) \<Longrightarrow> distinct (map fst (possible_list slot items))"
proof -
  assume "distinct (map fst items)"
  then have "distinct (map fst (filter (is_possible slot) items))" by (rule distinct_map_filter)
  then show ?thesis by (simp add: possible_list_def comp_def case_prod_beta)
qed

text \<open>The place of the merger that is to be primary.\<close>

definition primary_place :: "u64 \<Rightarrow> BpRecvStatusInfo list \<Rightarrow> nat option" where
  "primary_place slot items = (if all_idle items then Some 0 else find_primary (possible_list slot items))"

lemma find_primary_bound: "find_primary l = Some i \<Longrightarrow> i < length l"
  by (auto simp: find_primary_def find_index_Some split: option.splits)

lemma own_place:
  assumes "distinct (map fst items)" "(my_id, slot, s) \<in> set items" "s \<in> {IDLE, PRIMARY, SECONDARY}" "length items < 2 ^ 64"
  shows "\<exists>k < length (possible_list slot items). possible_list slot items ! k = (my_id, s) \<and>
    scan_recv my_id slot items [] True 0 = (possible_list slot items, all_idle items, word_of_nat k) \<and> unat (word_of_nat k :: u64) = k"
proof -
  obtain xs ys where i: "items = xs @ (my_id, slot, s) # ys" using assms(2) by (auto simp: in_set_conv_decomp)
  have "my_id \<notin> fst ` set xs" "my_id \<notin> fst ` set ys" using assms(1) by (auto simp: i image_iff)
  note scan = scan_recv_own [OF this, of slot slot s "[]" True 0, folded i]
  let ?k = "length (possible_list slot xs)"
  have pos: "is_possible slot (my_id, slot, s)" using assms(3) by (auto simp: is_possible_def)
  have "length (possible_list slot xs) \<le> length xs" by (simp add: possible_list_def)
  then have "?k < 2 ^ 64" using assms(4) i by simp
  then show ?thesis using scan pos by (intro exI [of _ ?k]) (simp add: i unat_of_nat nth_append)
qed

lemma my_prev_own:
  "distinct (map fst items) \<Longrightarrow> (my_id, t, s) \<in> set items \<Longrightarrow> my_prev_status my_id items = s"
  by (induction items) (force simp: my_prev_status_def)+

section \<open>Parts\<close>

text \<open>An entry that may take part in a slot.\<close>

definition takes_part :: "merger_id_type \<Rightarrow> u64 \<Rightarrow> BpScheduler \<Rightarrow> bool" where
  "takes_part my_id now s \<longleftrightarrow> \<not> bs_is_lock s \<and> bs_current_status s \<noteq> ERROR_ON_SIGNERS \<and>
     (\<exists>st \<in> {IDLE, PRIMARY, SECONDARY}. (my_id, now div BP_INTERVAL, st) \<in> set (bs_recv_status s))"

text \<open>The table of a scheduler: one entry per merger.\<close>

definition table_ok :: "BpRecvStatusInfo list \<Rightarrow> bool" where
  "table_ok items \<longleftrightarrow> sorted (map fst items) \<and> distinct (map fst items) \<and> length items < 2 ^ 64"

lemma word_of_nat_small: "unat (word_of_nat k :: u64) = k \<Longrightarrow> (word_of_nat k :: u64) = 0 \<longleftrightarrow> k = 0"
  "unat (word_of_nat k :: u64) = k \<Longrightarrow> (word_of_nat k :: u64) = 1 \<longleftrightarrow> k = 1"
  by (auto simp: unat_eq_zero dest: arg_cong [where f = unat])

lemma reschedule_places:
  fixes s :: BpScheduler and now :: u64
  defines "poss \<equiv> possible_list (now div BP_INTERVAL) (bs_recv_status s)"
  assumes "takes_part my_id now s" "table_ok (bs_recv_status s)" "2 \<le> length poss"
  obtains k where "k < length poss" "fst (poss ! k) = my_id"
    "\<And>p. primary_place (now div BP_INTERVAL) (bs_recv_status s) = Some p \<Longrightarrow>
      reschedule my_id now s = Some (s\<lparr>bs_current_status := part_of (Some p) ((p + 1) mod length poss) k,
        bs_block_producers := [fst (poss ! p), fst (poss ! ((p + 1) mod length poss))]\<rparr>)"
    "primary_place (now div BP_INTERVAL) (bs_recv_status s) = None \<Longrightarrow>
      reschedule my_id now s = Some (s\<lparr>bs_current_status := part_of None 1 k, bs_block_producers := [fst (poss ! 0), fst (poss ! 1)]\<rparr>)"
proof -
  let ?slot = "now div BP_INTERVAL"
  from assms(2) obtain st where st: "st \<in> {IDLE, PRIMARY, SECONDARY}" "(my_id, ?slot, st) \<in> set (bs_recv_status s)"
    and live: "\<not> bs_is_lock s" "bs_current_status s \<noteq> ERROR_ON_SIGNERS" by (auto simp: takes_part_def)
  have d: "distinct (map fst (bs_recv_status s))" "length (bs_recv_status s) < 2 ^ 64" using assms(3) by (simp_all add: table_ok_def)
  obtain k where k: "k < length poss" "poss ! k = (my_id, st)" "unat (word_of_nat k :: u64) = k"
    "scan_recv my_id ?slot (bs_recv_status s) [] True 0 = (poss, all_idle (bs_recv_status s), word_of_nat k)"
    using own_place [OF d(1) st(2,1) d(2)] unfolding poss_def by blast
  have n: "length poss \<noteq> 0" "length poss \<noteq> 1" "1 mod length poss = 1" using assms(4) by auto
  have prev: "my_prev_status my_id (bs_recv_status s) \<noteq> IN_BOOT_WAIT" using my_prev_own [OF d(1) st(2)] st(1) by auto
  have eq: "reschedule my_id now s =
    (if all_idle (bs_recv_status s)
     then Some (s\<lparr>bs_current_status := part_of (Some 0) 1 k, bs_block_producers := [fst (poss ! 0), fst (poss ! 1)]\<rparr>)
     else let primary_pos = (case find_primary poss of Some i \<Rightarrow> i | None \<Rightarrow> 0); secondary_pos = (primary_pos + 1) mod length poss
          in Some (s\<lparr>bs_current_status := part_of (find_primary poss) secondary_pos k,
               bs_block_producers := [fst (poss ! primary_pos), fst (poss ! secondary_pos)]\<rparr>))"
    using live prev k n by (auto simp: reschedule_def Let_def part_of_def word_of_nat_small [OF k(3)] simp del: One_nat_def)
  show ?thesis
  proof (rule that [OF k(1)])
    show "fst (poss ! k) = my_id" by (simp add: k(2))
  qed (use eq n in \<open>auto simp: primary_place_def Let_def simp flip: poss_def simp del: One_nat_def split: if_splits\<close>)
qed

lemma parts_by_id:
  assumes "distinct (map fst poss)" "2 \<le> length poss" "k < length poss" "p < length poss"
  defines "q \<equiv> (p + 1) mod length poss"
  shows "q < length poss" "fst (poss ! p) \<noteq> fst (poss ! q)"
    "part_of (Some p) q k = (if fst (poss ! k) = fst (poss ! p) then PRIMARY else if fst (poss ! k) = fst (poss ! q) then SECONDARY else IDLE)"
proof -
  show q: "q < length poss" unfolding q_def using assms(2) by (intro mod_less_divisor) linarith
  have pq: "p \<noteq> q" using assms(2,4) by (cases "p + 1 = length poss") (auto simp: q_def)
  have eq: "fst (poss ! i) = fst (poss ! j) \<longleftrightarrow> i = j" if "i < length poss" "j < length poss" for i j
    using nth_eq_iff_index_eq [OF assms(1)] that by simp
  show "fst (poss ! p) \<noteq> fst (poss ! q)" using eq [OF assms(4) q] pq by simp
  show "part_of (Some p) q k = (if fst (poss ! k) = fst (poss ! p) then PRIMARY else if fst (poss ! k) = fst (poss ! q) then SECONDARY else IDLE)"
    using eq [OF assms(3,4)] eq [OF assms(3) q] pq by (auto simp: part_of_def)
qed

lemma reschedule_parts:
  assumes "takes_part my_id now s" "table_ok (bs_recv_status s)"
    "2 \<le> length (possible_list (now div BP_INTERVAL) (bs_recv_status s))"
    "primary_place (now div BP_INTERVAL) (bs_recv_status s) = Some p"
  defines "poss \<equiv> possible_list (now div BP_INTERVAL) (bs_recv_status s)"
  defines "a \<equiv> fst (poss ! p)" and "b \<equiv> fst (poss ! ((p + 1) mod length poss))"
  shows "reschedule my_id now s = Some (s\<lparr>bs_current_status := (if my_id = a then PRIMARY else if my_id = b then SECONDARY else IDLE),
      bs_block_producers := [a, b]\<rparr>) \<and> a \<noteq> b"
proof -
  obtain k where k: "k < length poss" "fst (poss ! k) = my_id"
    "reschedule my_id now s = Some (s\<lparr>bs_current_status := part_of (Some p) ((p + 1) mod length poss) k, bs_block_producers := [a, b]\<rparr>)"
    using reschedule_places [OF assms(1-3)] assms(4) unfolding poss_def a_def b_def by metis
  have "p < length poss"
    using assms(3,4) by (auto simp: primary_place_def poss_def split: if_splits dest: find_primary_bound)
  moreover have "distinct (map fst poss)" unfolding poss_def using assms(2) by (intro possible_ids) (simp add: table_ok_def)
  moreover have "2 \<le> length poss" using assms(3) by (simp add: poss_def)
  ultimately show ?thesis using parts_by_id [of poss k p] k by (simp add: a_def b_def)
qed

section \<open>What the handlers do to the table\<close>

definition set_status :: "merger_id_type \<Rightarrow> u64 \<Rightarrow> BpStatus \<Rightarrow> BpRecvStatusInfo list \<Rightarrow> BpRecvStatusInfo list" where
  "set_status i slot stat items =
     (if \<exists>item \<in> set items. fst item = i then update_first (\<lambda>item. fst item = i) (\<lambda>item. (fst item, slot, stat)) items
      else sort_key fst (items @ [(i, slot, stat)]))"

lemma update_set_status:
  "updateRecvStatus my_id now i slot stat s = reschedule my_id now (s\<lparr>bs_recv_status := set_status i slot stat (bs_recv_status s)\<rparr>)"
  by (simp add: updateRecvStatus_def set_status_def)

lemma reschedule_table: "reschedule my_id now s = Some s' \<Longrightarrow> bs_recv_status s' = bs_recv_status s \<and> bs_is_lock s' = bs_is_lock s"
  by (auto simp: reschedule_def Let_def split: if_splits prod.splits)

lemma update_first_mem: "\<exists>x \<in> set xs. P x \<Longrightarrow> \<exists>x \<in> set xs. P x \<and> f x \<in> set (update_first P f xs)"
  by (induction xs) auto

lemma set_status_mem: "(i, slot, stat) \<in> set (set_status i slot stat items)"
  using update_first_mem [of items "\<lambda>item. fst item = i" "\<lambda>item. (fst item, slot, stat)"]
  by (cases "\<exists>item \<in> set items. fst item = i") (force simp: set_status_def)+

lemma set_status_other: "j \<noteq> i \<Longrightarrow> (j, x) \<in> set (set_status i slot stat items) \<longleftrightarrow> (j, x) \<in> set items"
proof -
  assume "j \<noteq> i"
  moreover have "(j, x) \<in> set (update_first (\<lambda>item. fst item = i) (\<lambda>item. (fst item, slot, stat)) items) \<longleftrightarrow> (j, x) \<in> set items"
    if "j \<noteq> i" using that by (induction items) auto
  ultimately show ?thesis by (auto simp: set_status_def)
qed

text \<open>The table keeps one entry per merger, in the order of the ids.\<close>

lemma set_status_sorted:
  assumes "sorted (map fst items)" "distinct (map fst items)"
  shows "sorted (map fst (set_status i slot stat items))" "distinct (map fst (set_status i slot stat items))"
proof -
  have "sorted (map fst (set_status i slot stat items)) \<and> distinct (map fst (set_status i slot stat items))"
  proof (cases "\<exists>item \<in> set items. fst item = i")
    case True
    then show ?thesis using assms by (simp add: set_status_def)
  next
    case False
    have "distinct (map fst (items @ [(i, slot, stat)]))" using assms(2) False by auto
    then have "distinct (map fst (sort_key fst (items @ [(i, slot, stat)])))"
      by (simp only: distinct_map distinct_sort set_sort)
    with False show ?thesis by (simp add: set_status_def sorted_sort_key del: sort_key_simps)
  qed
  then show "sorted (map fst (set_status i slot stat items))" "distinct (map fst (set_status i slot stat items))" by auto
qed

lemma stat_names [simp]: "stringToStatus (statusToString st) = st"
  by (cases st) (simp_all add: stringToStatus_def statusToString_def STATUS_STRING_def)

lemma write_others_total:
  "\<exists>cm'. write_others E st Some l cm = Some cm' \<and> m_merger_info cm' = m_merger_info cm"
proof -
  have "\<exists>cm'. fold_opt (\<lambda>j c. if getStringK j ''mID'' = encodeBase64 E (m_id st) then Some c
      else map_option (\<lambda>j'. writeMergerInfo j' c) (Some j)) (json_elems l) cm = Some cm' \<and> m_merger_info cm' = m_merger_info cm"
    by (rule fold_opt_total) auto
  then show ?thesis by (simp add: write_others_def)
qed

section \<open>Properties\<close>

text \<open>C6. Two mergers with the same table agree on the coming slot: both compute the same two producers, one is primary
  exactly if it is the first of them, secondary exactly if it is the second, and idle otherwise. So no two
  mergers are primary at once.\<close>

theorem mergers_agree:
  assumes "takes_part i now s" "takes_part j now' r" "bs_recv_status r = bs_recv_status s" "now' div BP_INTERVAL = now div BP_INTERVAL"
    "table_ok (bs_recv_status s)" "2 \<le> length (possible_list (now div BP_INTERVAL) (bs_recv_status s))"
    "primary_place (now div BP_INTERVAL) (bs_recv_status s) \<noteq> None"
  shows "\<exists>s' r' a b. reschedule i now s = Some s' \<and> reschedule j now' r = Some r' \<and> a \<noteq> b \<and>
    bs_block_producers s' = [a, b] \<and> bs_block_producers r' = [a, b] \<and>
    bs_current_status s' = (if i = a then PRIMARY else if i = b then SECONDARY else IDLE) \<and>
    bs_current_status r' = (if j = a then PRIMARY else if j = b then SECONDARY else IDLE)"
proof -
  obtain p where p: "primary_place (now div BP_INTERVAL) (bs_recv_status s) = Some p" using assms(7) by blast
  note S = reschedule_parts [OF assms(1,5,6) p]
  have "primary_place (now' div BP_INTERVAL) (bs_recv_status r) = Some p" using p assms(3,4) by simp
  from reschedule_parts [OF assms(2) _ _ this] assms(3-6) S show ?thesis by auto
qed

text \<open>C37. The secondary of a slot takes over: when exactly one possible merger announces that it is secondary, every merger
  that takes part makes it the first producer, and it alone becomes primary.\<close>

theorem secondary_takes_over:
  assumes "takes_part i now s" "table_ok (bs_recv_status s)" "2 \<le> length (possible_list (now div BP_INTERVAL) (bs_recv_status s))"
    "(b, SECONDARY) \<in> set (possible_list (now div BP_INTERVAL) (bs_recv_status s))"
    "\<forall>m \<in> set (possible_list (now div BP_INTERVAL) (bs_recv_status s)). snd m = SECONDARY \<longrightarrow> fst m = b"
  shows "\<exists>s' c. reschedule i now s = Some s' \<and> bs_block_producers s' = [b, c] \<and> (bs_current_status s' = PRIMARY \<longleftrightarrow> i = b)"
proof -
  let ?poss = "possible_list (now div BP_INTERVAL) (bs_recv_status s)"
  have "\<not> all_idle (bs_recv_status s)" using assms(4) by (force simp: all_idle_def possible_list_def)
  moreover obtain p where p: "find_index (\<lambda>m. snd m = SECONDARY) ?poss = Some p"
    using assms(4) find_index_None [of "\<lambda>m. snd m = SECONDARY" ?poss] by fastforce
  ultimately have "primary_place (now div BP_INTERVAL) (bs_recv_status s) = Some p" by (simp add: primary_place_def find_primary_def)
  moreover have "fst (?poss ! p) = b" using find_index_Some [OF p] assms(5) by auto
  ultimately show ?thesis using reschedule_parts [OF assms(1-3)] by auto
qed

text \<open>No primary: when the possible mergers are all idle but some other entry of the table is not, every merger that
  takes part lists the first possible merger as first producer, and none becomes primary, not even that one.\<close>

theorem nobody_primary:
  assumes "takes_part i now s" "table_ok (bs_recv_status s)" "2 \<le> length (possible_list (now div BP_INTERVAL) (bs_recv_status s))"
    "\<forall>m \<in> set (possible_list (now div BP_INTERVAL) (bs_recv_status s)). snd m = IDLE" "\<not> all_idle (bs_recv_status s)"
  shows "\<exists>s'. reschedule i now s = Some s' \<and> bs_current_status s' \<noteq> PRIMARY \<and>
    hd (bs_block_producers s') = fst (hd (possible_list (now div BP_INTERVAL) (bs_recv_status s)))"
proof -
  let ?poss = "possible_list (now div BP_INTERVAL) (bs_recv_status s)"
  have "primary_place (now div BP_INTERVAL) (bs_recv_status s) = None"
    using assms(4,5) by (auto simp: primary_place_def find_primary_def find_index_None split: option.splits)
  moreover have "hd ?poss = ?poss ! 0" using assms(3) by (intro hd_conv_nth) auto
  moreover obtain k where "primary_place (now div BP_INTERVAL) (bs_recv_status s) = None \<Longrightarrow>
      reschedule i now s = Some (s\<lparr>bs_current_status := part_of None 1 k, bs_block_producers := [fst (?poss ! 0), fst (?poss ! 1)]\<rparr>)"
    using reschedule_places [OF assms(1-3)] by metis
  ultimately show ?thesis by (simp add: part_of_def)
qed

text \<open>C38. The status a merger announces arrives: another merger of the chain that handles the ping within five seconds
  has the slot of the announced time and the announced status of the sender in its table, and keeps the entries of all others. A merger that announces
  fewer signers than a block needs (\<open>MIN_SIGNATURE_COLLECT_SIZE\<close>) is recorded as having an error on its signers, whatever status it announces.\<close>

theorem ping_recorded:
  assumes "base64_law E" "m_localchain_id st' = m_localchain_id st" "unat now < 2 ^ 63"
    "\<bar>sint now - sint now'\<bar> \<le> 5" "k < 2 ^ 31"
    "bs_handleMessage E st' now' \<lparr>in_type = MSG_PING, in_body = out_body (msg_ping E st now k stat)\<rparr> n = Some n'"
  shows "(m_id st, now div BP_INTERVAL, if k < MIN_SIGNATURE_COLLECT_SIZE then ERROR_ON_SIGNERS else stat) \<in> set (bs_recv_status (bn_scheduler n')) \<and>
    (\<forall>i x. i \<noteq> m_id st \<longrightarrow> ((i, x) \<in> set (bs_recv_status (bn_scheduler n')) \<longleftrightarrow> (i, x) \<in> set (bs_recv_status (bn_scheduler n))))"
proof -
  let ?body = "out_body (msg_ping E st now k stat)"
  have b: "getStringK ?body ''cID'' = encodeBase64 E (m_localchain_id st)" "getStringK ?body ''stat'' = statusToString stat"
    "getStringK ?body ''time'' = to_string (unat now)" "getStringK ?body ''sCnt'' = to_string k"
    by (simp_all add: msg_ping_def getString_def)
  have id: "getBytesFromB64 E ?body ''mID'' = m_id st"
    by (rule getBytesFromB64_written [OF assms(1)]) (simp add: msg_ping_def)
  have time: "getTime ?body ''time'' = Some now" "getInt ?body ''sCnt'' = Some (word_of_nat k)"
    using getTime_written [OF b(3)] getInt_written [OF b(4)] assms(3,5) by simp_all
  let ?stat = "if k < MIN_SIGNATURE_COLLECT_SIZE then ERROR_ON_SIGNERS else stat"
  have "unat (word_of_nat k :: u64) = k" using assms(5) by (simp add: unat_of_nat take_bit_nat_eq_self)
  then have few: "(word_of_nat k :: u64) < word_of_nat MIN_SIGNATURE_COLLECT_SIZE \<longleftrightarrow> k < MIN_SIGNATURE_COLLECT_SIZE"
    by (simp add: word_less_nat_alt MIN_SIGNATURE_COLLECT_SIZE_def)
  obtain s' where s': "updateRecvStatus (m_id st') now' (m_id st) (now div BP_INTERVAL) ?stat (bn_scheduler n) = Some s'"
    "n' = n\<lparr>bn_scheduler := s'\<rparr>"
    using assms(2,4,6) b(1,2) id time
    by (auto simp: bs_handleMessage_def handle_ping_def bs_update_def BP_INTERVAL_def few)
  then have "bs_recv_status s' = set_status (m_id st) (now div BP_INTERVAL) ?stat (bs_recv_status (bn_scheduler n))"
    using reschedule_table by (fastforce simp: update_set_status)
  then show ?thesis using set_status_mem set_status_other s'(2) by simp
qed

text \<open>C39. A merger that comes up learns the others: the welcome of a merger in reply, handled within five seconds, puts every
  other merger its sender knows in the table, as connected, and its certificate in the pool, unless a service
  endpoint has the same id.\<close>

theorem welcome_shares_mergers:
  assumes "base64_law E" "m_localchain_id st' = m_localchain_id st" "unat now < 2 ^ 63" "\<bar>sint now - sint now'\<bar> \<le> 5"
    "mergers.well_formed E cm" "(k, info) \<in> set (m_merger_info cm)" "mi_id info \<noteq> m_id st'"
    "\<forall>se \<in> set (getAllSeInfo cm). mi_id se \<noteq> mi_id info"
  shows "\<exists>n'. bs_handleMessage E st' now' \<lparr>in_type = MSG_WELCOME, in_body = out_body (msg_welcome E st now (m_id st') cm)\<rparr> n = Some n' \<and>
    map_of (m_merger_info (bn_conn n')) k = Some (info\<lparr>mi_conn_status := True\<rparr>) \<and>
    getCert E (mi_id info) (bn_certs n') = mi_cert info \<and> bs_welcome (bn_scheduler n')"
proof -
  let ?body = "out_body (msg_welcome E st now (m_id st') cm)"
  have b: "getStringK ?body ''cID'' = encodeBase64 E (m_localchain_id st)" "getStringK ?body ''time'' = to_string (unat now)"
    "json_find ?body ''merger'' = Some (getAllMergerInfoJson E cm)" "json_find ?body ''se'' = Some (getAllSeInfoJson E cm)"
    "getBoolean ?body ''val''"
    by (simp_all add: msg_welcome_def getString_def getBoolean_def)
  have time: "getTime ?body ''time'' = Some now" using getTime_written [OF b(2)] assms(3) by simp
  obtain cm1 certs1 where m: "setMultiMergerInfo E st' (getAllMergerInfoJson E cm) (bn_conn n, bn_certs n) = Some (cm1, certs1)"
    "map_of (m_merger_info cm1) k = Some (info\<lparr>mi_conn_status := True\<rparr>)" "getCert E (mi_id info) certs1 = mi_cert info"
    using shared_mergers_known [OF assms(1,5,6,7)] by blast
  obtain cm2 where cm2: "write_others E st' Some (getAllMergerInfoJson E cm) cm1 = Some cm2" "m_merger_info cm2 = m_merger_info cm1"
    using write_others_total by blast
  obtain cm3 certs3 where se: "setMultiSeInfo E (getAllSeInfoJson E cm) (cm2, certs1) = (cm3, certs3)" by fastforce
  have "\<forall>j \<in> set (json_elems (getAllSeInfoJson E cm)). decodeBase64 E (getStringK j ''seID'') \<noteq> mi_id info"
    using assms(8) by (auto simp: getAllSeInfoJson_def getAllSeInfo_def node_to_json_def decode_encode [OF assms(1)] getString_def)
  from set_multi_se_keeps(2) [OF this assms(1), of cm2 certs1] set_multi_se_keeps(1) [of E "json_elems (getAllSeInfoJson E cm)" cm2 certs1]
  have "m_merger_info cm3 = m_merger_info cm2" "certs3 (encodeBase64 E (mi_id info)) = certs1 (encodeBase64 E (mi_id info))"
    using se by (simp_all add: setMultiSeInfo_def)
  with m cm2 se b time assms(2,4) show ?thesis
    by (simp add: bs_handleMessage_def handle_welcome_def set_known_nodes_def BP_INTERVAL_def getCert_def)
qed

section \<open>Witnesses\<close>

definition sched_w :: "BpRecvStatusInfo list \<Rightarrow> BpScheduler" where
  "sched_w items = new_scheduler\<lparr>bs_is_lock := False, bs_current_status := IDLE, bs_recv_status := items\<rparr>"

definition items_w :: "BpRecvStatusInfo list" where
  "items_w = [([1], 12, IDLE), ([2], 12, SECONDARY), ([3], 11, PRIMARY)]"

definition idle_w :: "BpRecvStatusInfo list" where
  "idle_w = [([1], 12, IDLE), ([2], 12, IDLE), ([3], 12, ERROR_ON_SIGNERS)]"

lemma items_w_ok: "table_ok items_w" "possible_list 12 items_w = [([1], IDLE), ([2], SECONDARY)]" "primary_place 12 items_w = Some 1"
  "takes_part [1] 123 (sched_w items_w)" "takes_part [2] 124 (sched_w items_w)"
  by (simp_all add: items_w_def table_ok_def possible_list_def is_possible_def primary_place_def all_idle_def find_primary_def
      takes_part_def sched_w_def new_scheduler_def BP_INTERVAL_def)

lemma idle_w_ok: "table_ok idle_w" "possible_list 12 idle_w = [([1], IDLE), ([2], IDLE)]" "\<not> all_idle idle_w" "takes_part [1] 123 (sched_w idle_w)"
  by (simp_all add: idle_w_def table_ok_def possible_list_def is_possible_def all_idle_def
      takes_part_def sched_w_def new_scheduler_def BP_INTERVAL_def)

lemma recv_w [simp]: "bs_recv_status (sched_w items) = items"
  by (simp add: sched_w_def)

lemma slot_w [simp]: "123 div BP_INTERVAL = 12" "124 div BP_INTERVAL = 12"
  by (simp_all add: BP_INTERVAL_def)

theorem mergers_agree_witness:
  "\<exists>s r a b. reschedule [1] 123 (sched_w items_w) = Some s \<and> reschedule [2] 124 (sched_w items_w) = Some r \<and> a \<noteq> b \<and>
     bs_block_producers s = [a, b] \<and> bs_block_producers r = [a, b]"
  using mergers_agree [OF items_w_ok(4,5)] items_w_ok by auto

theorem secondary_takes_over_witness:
  "\<exists>s c. reschedule [1] 123 (sched_w items_w) = Some s \<and> bs_block_producers s = [[2], c] \<and> bs_current_status s \<noteq> PRIMARY"
  using secondary_takes_over [OF items_w_ok(4), of "[2]"] items_w_ok by auto

theorem nobody_primary_witness:
  "\<exists>s. reschedule [1] 123 (sched_w idle_w) = Some s \<and> bs_current_status s \<noteq> PRIMARY \<and> hd (bs_block_producers s) = [1]"
  using nobody_primary [OF idle_w_ok(4)] idle_w_ok by auto

definition bp_node_w :: BpNode where
  "bp_node_w = \<lparr>bn_scheduler = new_scheduler, bn_conn = new_conn_manager [], bn_certs = Map.empty, bn_output = []\<rparr>"

theorem ping_recorded_witness:
  "\<exists>n. bs_handleMessage ext0 st_w 121 \<lparr>in_type = MSG_PING, in_body = out_body (msg_ping ext0 st_w 123 1 SECONDARY)\<rparr> bp_node_w = Some n \<and>
     (m_id st_w, 12, SECONDARY) \<in> set (bs_recv_status (bn_scheduler n))"
proof -
  let ?m = "\<lparr>in_type = MSG_PING, in_body = out_body (msg_ping ext0 st_w 123 1 SECONDARY)\<rparr>"
  have b: "getStringK (in_body ?m) ''cID'' = encodeBase64 ext0 (m_localchain_id st_w)" "getStringK (in_body ?m) ''time'' = to_string 123"
    "getStringK (in_body ?m) ''sCnt'' = to_string 1"
    by (simp_all add: msg_ping_def getString_def del: to_string.simps)
  have "getTime (in_body ?m) ''time'' = Some 123" "getInt (in_body ?m) ''sCnt'' = Some 1"
    using getTime_written [OF b(2)] getInt_written [OF b(3)] by simp_all
  then obtain n where n: "bs_handleMessage ext0 st_w 121 ?m bp_node_w = Some n"
    using b(1) by (simp add: bs_handleMessage_def handle_ping_def bs_update_def updateRecvStatus_def reschedule_def bp_node_w_def new_scheduler_def
        BP_INTERVAL_def Let_def)
  with ping_recorded [OF ext0_laws(1) refl _ _ _ n] show ?thesis by (simp add: MIN_SIGNATURE_COLLECT_SIZE_def)
qed

theorem welcome_shares_mergers_witness:
  "\<exists>n. bs_handleMessage ext0 st_w 121 \<lparr>in_type = MSG_WELCOME, in_body = out_body (msg_welcome ext0 new_setting 123 (m_id st_w) (mc_conn (client_w ext0)))\<rparr>
         bp_node_w = Some n \<and> map_of (m_merger_info (bn_conn n)) (encodeBase64 ext0 [7]) = Some peer_w"
proof -
  have "m_localchain_id st_w = m_localchain_id new_setting" by (simp add: st_w_def)
  from welcome_shares_mergers [OF ext0_laws(1) this _ _ client_w_ok, of 123 121 bp_node_w] show ?thesis
    by (auto simp: st_w_def peer_w_def client_w_def getAllSeInfo_def setMergerInfo_def new_conn_manager_def)
qed

end
