(* ===== verification/Health_Checker.thy ===== *)
theory Health_Checker
  imports Block_Processor
begin

text \<open>
  \<open>class BlockHealthChecker\<close> (\<open>src/modules/health_checker/block_health_checker.cpp\<close>): before a merger runs, all stored blocks
  are read, checked and compared with their predecessors. The line the user types after a failed check is an argument; the
  result is the exit code of the stage. Heights are counted as natural numbers, so the loop ends also for the largest height.
\<close>

section \<open>Definitions\<close>

text \<open>The block stored at a height, as the checker builds it; the result of \<open>initialize\<close> is not looked at.\<close>

definition load_block :: "ext \<Rightarrow> bytes \<Rightarrow> Storage \<Rightarrow> nat \<Rightarrow> Block option" where
  "load_block E mem st i = do {
     nth_block \<leftarrow> readBlock E (word_of_nat i) st;
     (_, test_block) \<leftarrow> initialize_stored E mem nth_block new_block;
     Some test_block }"

definition check_nth :: "ext \<Rightarrow> CertificatePool \<Rightarrow> LayeredStorage \<Rightarrow> string \<Rightarrow> string \<Rightarrow> Block \<Rightarrow> bool option" where
  "check_nth E certs ls prev_hash_b64 prev_block_id_b64 b = do {
     early \<leftarrow> isValidEarly E (\<lambda>uid. getCert E uid certs) b;
     if \<not> early then Some False
     else do {
       late \<leftarrow> isValidLate E (\<lambda>id_b64 t. getCertificate E id_b64 t ls) b;
       Some (late \<and> encodeBase64 E (m_prev_block_hash b) = prev_hash_b64 \<and> encodeBase64 E (m_prev_block_id b) = prev_block_id_b64) } }"

text \<open>The loop over \<open>n\<close> heights from \<open>i\<close> on: whether the blocks are healthy and the height of the last healthy one.\<close>

fun health_loop :: "ext \<Rightarrow> bytes \<Rightarrow> CertificatePool \<Rightarrow> LayeredStorage \<Rightarrow> nat \<Rightarrow> nat \<Rightarrow> string \<Rightarrow> string \<Rightarrow> (bool \<times> nat) option" where
  "health_loop E mem certs ls i 0 prev_hash_b64 prev_block_id_b64 = Some (True, i - 1)"
| "health_loop E mem certs ls i (Suc n) prev_hash_b64 prev_block_id_b64 = do {
     b \<leftarrow> load_block E mem (m_storage ls) i;
     ok \<leftarrow> check_nth E certs ls prev_hash_b64 prev_block_id_b64 b;
     if ok then health_loop E mem certs ls (i + 1) n (encodeBase64 E (m_block_hash b)) (getBlockIdB64 E b)
     else Some (False, i - 1) }"

definition to_lower :: "char \<Rightarrow> char" where
  "to_lower c = (if 65 \<le> (of_char c :: nat) \<and> (of_char c :: nat) \<le> 90 then char_of ((of_char c :: nat) + 32) else c)"

definition startHealthCheck :: "ext \<Rightarrow> bytes \<Rightarrow> CertificatePool \<Rightarrow> string \<Rightarrow> LayeredStorage \<Rightarrow> ExitCode option" where
  "startHealthCheck E mem certs commend ls = do {
     latest_block_info \<leftarrow> getNthBlockLinkInfo E 0 (m_storage ls);
     if link_height latest_block_info = 0 then Some BLOCK_HEALTH_SKIP
     else do {
       (is_healthy, _) \<leftarrow> health_loop E mem certs ls 1 (unat (link_height latest_block_info))
                           GENESIS_BLOCK_PREV_HASH_B64 GENESIS_BLOCK_PREV_ID_B64;
       Some (if is_healthy then EXIT_NORMAL
             else let c = map to_lower commend
                  in if c = ''run'' then ERROR_BLOCK_HEALTH_SKIP
                     else if c = ''del'' then EXIT_NORMAL
                     else ERROR_ABORT) } }"

section \<open>Chains of blocks\<close>

text \<open>A chain on top of a block with a given hash and id, all blocks valid.\<close>

fun valid_chain :: "ext \<Rightarrow> CertificatePool \<Rightarrow> LayeredStorage \<Rightarrow> string \<Rightarrow> string \<Rightarrow> Block list \<Rightarrow> bool" where
  "valid_chain E certs ls prev_hash prev_id [] \<longleftrightarrow> True"
| "valid_chain E certs ls prev_hash prev_id (b # bs) \<longleftrightarrow>
     isValidEarly E (\<lambda>uid. getCert E uid certs) b = Some True \<and>
     isValidLate E (\<lambda>id_b64 t. getCertificate E id_b64 t ls) b = Some True \<and>
     encodeBase64 E (m_prev_block_hash b) = prev_hash \<and> encodeBase64 E (m_prev_block_id b) = prev_id \<and>
     valid_chain E certs ls (encodeBase64 E (m_block_hash b)) (encodeBase64 E (m_block_id b)) bs"

lemma check_nth_True:
  "check_nth E certs ls ph pid b = Some True \<longleftrightarrow>
     isValidEarly E (\<lambda>uid. getCert E uid certs) b = Some True \<and>
     isValidLate E (\<lambda>id_b64 t. getCertificate E id_b64 t ls) b = Some True \<and>
     encodeBase64 E (m_prev_block_hash b) = ph \<and> encodeBase64 E (m_prev_block_id b) = pid"
  by (auto simp: check_nth_def split: Option.bind_splits if_splits)

lemma health_loop_chain:
  "(\<exists>k. health_loop E mem certs ls i n ph pid = Some (True, k)) \<longleftrightarrow>
     (\<exists>bs. map (load_block E mem (m_storage ls)) [i..<i + n] = map Some bs \<and> valid_chain E certs ls ph pid bs)"
proof (induction n arbitrary: i ph pid)
  case (Suc n)
  have up: "[i..<i + Suc n] = i # [Suc i..<Suc i + n]" by (simp add: upt_conv_Cons)
  show ?case
  proof (cases "load_block E mem (m_storage ls) i")
    case None
    then show ?thesis using up by (auto simp: Cons_eq_map_conv)
  next
    case (Some b)
    have "(\<exists>k. health_loop E mem certs ls i (Suc n) ph pid = Some (True, k)) \<longleftrightarrow> check_nth E certs ls ph pid b = Some True \<and>
        (\<exists>k. health_loop E mem certs ls (Suc i) n (encodeBase64 E (m_block_hash b)) (encodeBase64 E (m_block_id b)) = Some (True, k))"
      using Some by (auto simp: getBlockIdB64_def split: Option.bind_splits if_splits)
    also have "\<dots> \<longleftrightarrow> (\<exists>bs. map (load_block E mem (m_storage ls)) [i..<i + Suc n] = map Some bs \<and> valid_chain E certs ls ph pid bs)"
      unfolding Suc.IH up list.map Some check_nth_True by (auto simp: Cons_eq_map_conv)
    finally show ?thesis .
  qed
qed (simp del: upt.simps)

section \<open>Properties\<close>

text \<open>C20. The health check of a storage that is not empty passes, when the command of the user is not \<open>del\<close>, exactly if the blocks at the
  heights from one to the latest can all be read and form a chain from the genesis values: each block valid in both checks and
  naming the hash and the id of the one before.\<close>

theorem health_check_exact:
  assumes "getNthBlockLinkInfo E 0 (m_storage ls) = Some l" "link_height l \<noteq> 0" "map to_lower commend \<noteq> ''del''"
  shows "startHealthCheck E mem certs commend ls = Some EXIT_NORMAL \<longleftrightarrow>
    (\<exists>bs. map (load_block E mem (m_storage ls)) [1..<1 + unat (link_height l)] = map Some bs \<and>
       valid_chain E certs ls GENESIS_BLOCK_PREV_HASH_B64 GENESIS_BLOCK_PREV_ID_B64 bs)"
proof -
  have "startHealthCheck E mem certs commend ls = Some EXIT_NORMAL \<longleftrightarrow>
    (\<exists>k. health_loop E mem certs ls 1 (unat (link_height l)) GENESIS_BLOCK_PREV_HASH_B64 GENESIS_BLOCK_PREV_ID_B64 = Some (True, k))"
    using assms by (auto simp: startHealthCheck_def Let_def split: Option.bind_splits if_splits)
  then show ?thesis using health_loop_chain by simp
qed

section \<open>Witness\<close>

text \<open>A storage that names a latest block of height one and has no block at that height.\<close>

definition broken_w :: LayeredStorage where
  "broken_w = \<lparr>m_storage = commitBatchAll (addBatch BLOCK_HEADER ''x_hgt'' ''1'' (addBatch BLOCK_LATEST ''bID'' ''x'' new_storage)),
     m_mem_ledger = [], m_block_layer = []\<rparr>"

lemma broken_w_values:
  "getValueByKey w k (m_storage broken_w) =
     (if w = BLOCK_HEADER \<and> k = ''x_hgt'' then ''1'' else if w = BLOCK_LATEST \<and> k = ''bID'' then ''x'' else [])"
  by (cases w) (simp_all add: broken_w_def getValueByKey_def commitBatchAll_def addBatch_def new_storage_def write_batch_def
      clearBatchAll_def clear_batch_def db_write_def batch_add_def)

theorem health_check_exact_witness:
  "startHealthCheck ext0 [] Map.empty ''run'' broken_w \<noteq> Some EXIT_NORMAL"
proof -
  obtain l where l: "getNthBlockLinkInfo ext0 0 (m_storage broken_w) = Some l" "link_height l = 1"
    by (simp add: getNthBlockLinkInfo_def broken_w_values getSize_def getTimeS_def stoll_def parse_dec_def is_space_def is_digit_def
        digits_val_def digit_val_def)
  have "load_block ext0 [] (m_storage broken_w) 1 = Some b \<Longrightarrow> m_block_raw b = []" for b
    by (auto simp: load_block_def readBlock_def getNthBlockIdB64_def broken_w_values initialize_stored_def initialize_raw_def
        getBlockHeader_def getHeaderEnd_def new_block_def Let_def split: Option.bind_splits if_splits)
  moreover have "m_block_raw b = [] \<Longrightarrow> isValidEarly ext0 f b = Some False" for b f by (simp add: isValidEarly_def)
  ultimately show ?thesis
    using health_check_exact [OF l(1), of "''run''" "[]" Map.empty] l(2) by (auto simp: to_lower_def Cons_eq_map_conv)
qed

end
