(* ===== verification/Bootstrap.thy ===== *)
theory Bootstrap
  imports Bp_Scheduler Health_Checker
begin

text \<open>
  How a merger comes up: the stages of the application (\<open>src/application.cpp\<close>, \<open>src/modules/module.hpp\<close>), the synchronisation of
  blocks with other mergers (\<open>src/modules/bootstraper/block_synchronizer.cpp\<close>) and the bootstrapper that starts it
  (\<open>src/modules/bootstraper/bootstrapper.cpp\<close>).

  The callback of a synchronisation or a stage is the exit code it is called with. Timers are calls of their tasks in any
  order. \<open>std::call_once\<close> is a flag.
\<close>

section \<open>Synchroniser\<close>

record OtherStatusData =
  os_hash_b64 :: string
  os_height :: block_height_type

record BlockSynchronizer =
  sync_exit :: "ExitCode option"
  m_is_sync_begin :: bool
  m_is_sync_done :: bool
  m_link_from :: nth_link_type
  m_sync_flags :: "bool list"
  m_chain_status :: "(string \<times> OtherStatusData) list"

record SyncNode =
  sn_app :: Application
  sn_sync :: BlockSynchronizer
  sn_input :: "InputMsgEntry list"

definition new_sync :: "nth_link_type \<Rightarrow> BlockSynchronizer" where
  "new_sync l = \<lparr>sync_exit = None, m_is_sync_begin = False, m_is_sync_done = False, m_link_from = l, m_sync_flags = [], m_chain_status = []\<rparr>"

definition syncFinish :: "ExitCode \<Rightarrow> BlockSynchronizer \<Rightarrow> BlockSynchronizer" where
  "syncFinish exit_code s = s\<lparr>m_is_sync_done := True, sync_exit := (case sync_exit s of None \<Rightarrow> Some exit_code | Some e \<Rightarrow> Some e)\<rparr>"

definition blockSyncControl :: "BlockSynchronizer \<Rightarrow> BlockSynchronizer" where
  "blockSyncControl s =
     (if m_is_sync_done s \<or> \<not> m_is_sync_begin s then s
      else if list_all id (m_sync_flags s) then syncFinish EXIT_NORMAL s else s)"

definition resize_flags :: "nat \<Rightarrow> bool list \<Rightarrow> bool list" where
  "resize_flags n flags = flags @ replicate (n - length flags) False"

text \<open>A block of a height above the start marks its flag.\<close>

definition note_block :: "block_height_type \<Rightarrow> BlockSynchronizer \<Rightarrow> BlockSynchronizer" where
  "note_block height s =
     (if 0 < height \<and> link_height (m_link_from s) < height
      then let req_map_size = unat (height - link_height (m_link_from s))
           in s\<lparr>m_sync_flags := (resize_flags req_map_size (m_sync_flags s))[req_map_size - 1 := True]\<rparr>
      else s)"

text \<open>\<open>insert\<close> keeps the status that is there already.\<close>

definition collectingStatus :: "json \<Rightarrow> BlockSynchronizer \<Rightarrow> BlockSynchronizer option" where
  "collectingStatus body s =
     (if m_is_sync_begin s then Some s
      else do {
        height \<leftarrow> getSize (getStringK body ''hgt'');
        let k = getStringK body ''mID'';
        Some (if map_of (m_chain_status s) k \<noteq> None then s
              else s\<lparr>m_chain_status := ins_member k \<lparr>os_hash_b64 = getStringK body ''hash'', os_height = height\<rparr> (m_chain_status s)\<rparr>) })"

definition checkMsgFromSigner :: "MessageType \<Rightarrow> bool" where
  "checkMsgFromSigner t \<longleftrightarrow> t = MSG_JOIN \<or> t = MSG_RESPONSE_1 \<or> t = MSG_LEAVE"

definition sendErrorToSigner :: "ext \<Rightarrow> Setting \<Rightarrow> u64 \<Rightarrow> json \<Rightarrow> Application \<Rightarrow> Application" where
  "sendErrorToSigner E st now body a =
     (let signer_id = getBytesFromB64 E body ''sID''
      in if signer_id = [] then a
         else app_send \<lparr>out_type = MSG_ERROR, out_body = json_obj
           [(''sender'', JStr (encodeBase64 E (m_id st))), (''time'', JStr (to_string (unat now))),
            (''type'', JStr (to_string (error_code MERGER_BOOTSTRAP))),
            (''info'', JStr ''Merger is in bootstrapping. Please, wait.'')], receivers = [signer_id]\<rparr> a)"

definition messageFetch :: "ext \<Rightarrow> bytes \<Rightarrow> Setting \<Rightarrow> CertificatePool \<Rightarrow> (string \<Rightarrow> nat) \<Rightarrow> u64 \<Rightarrow> SyncNode \<Rightarrow> SyncNode option" where
  "messageFetch E mem st certs h now n =
     (if m_is_sync_done (sn_sync n) \<or> sn_input n = [] then Some n
      else let (m, q) = input_fetch (sn_input n); n1 = n\<lparr>sn_input := q\<rparr>
           in if in_type m = MSG_NULL then Some n1
              else let n2 = (if checkMsgFromSigner (in_type m) then n1\<lparr>sn_app := sendErrorToSigner E st now (in_body m) (sn_app n1)\<rparr> else n1)
                   in case in_type m of
                        MSG_ERROR \<Rightarrow> Some (if getStringK (in_body m) ''type'' = to_string (error_code BSYNC_NO_BLOCK)
                                            then n2\<lparr>sn_sync := syncFinish EXIT_NORMAL (sn_sync n2)\<rparr> else n2)
                      | MSG_BLOCK \<Rightarrow> do {
                          (res, a) \<leftarrow> handleMsgBlock E mem st certs h now (in_body m) (sn_app n2);
                          Some (n2\<lparr>sn_app := a, sn_sync := note_block (res_height res) (sn_sync n2)\<rparr>) }
                      | MSG_RES_STATUS \<Rightarrow> do { s \<leftarrow> collectingStatus (in_body m) (sn_sync n2); Some (n2\<lparr>sn_sync := s\<rparr>) }
                      | MSG_REQ_STATUS \<Rightarrow> do { a \<leftarrow> bp_handleMessage E mem st certs h now m (sn_app n2); Some (n2\<lparr>sn_app := a\<rparr>) }
                      | _ \<Rightarrow> Some n2)"

definition sendRequestBlock :: "ext \<Rightarrow> Setting \<Rightarrow> u64 \<Rightarrow> u64 \<Rightarrow> string \<Rightarrow> merger_id_type \<Rightarrow> Application \<Rightarrow> Application" where
  "sendRequestBlock E st now height block_hash_b64 t_merger a =
     app_send \<lparr>out_type = MSG_REQ_BLOCK, out_body = json_obj
       [(''mID'', JStr (encodeBase64 E (m_id st))), (''time'', JStr (to_string (unat now))), (''mCert'', JStr []),
        (''hgt'', JStr (to_string (unat height))), (''prevHash'', JStr []), (''hash'', JStr block_hash_b64), (''mSig'', JStr [])],
       receivers = [t_merger]\<rparr> a"

definition sendRequestStatus :: "ext \<Rightarrow> Setting \<Rightarrow> u64 \<Rightarrow> Application \<Rightarrow> Application" where
  "sendRequestStatus E st now a =
     app_send \<lparr>out_type = MSG_REQ_STATUS, out_body = json_obj
       [(''mID'', JStr (encodeBase64 E (m_id st))), (''time'', JStr (to_string (unat now)))], receivers = []\<rparr> a"

text \<open>The highest announced block: height, hash and the merger that announced it first in the order of the map.\<close>

definition last_block_of :: "(string \<times> OtherStatusData) list \<Rightarrow> block_height_type \<times> string \<times> string" where
  "last_block_of status = fold (\<lambda>(k, d) (height, hash, merger).
     if height < os_height d then (os_height d, os_hash_b64 d, k) else (height, hash, merger)) status (0, [], [])"

definition sendRequestLastBlock :: "ext \<Rightarrow> Setting \<Rightarrow> u64 \<Rightarrow> SyncNode \<Rightarrow> SyncNode" where
  "sendRequestLastBlock E st now n =
     (let s = sn_sync n; from = link_height (m_link_from s);
          (height, hash, merger) = last_block_of (m_chain_status s);
          request = (\<lambda>n. n\<lparr>sn_app := sendRequestBlock E st now height hash (decodeBase64 E merger) (sn_app n)\<rparr>);
          finish = (\<lambda>e n. n\<lparr>sn_sync := syncFinish e (sn_sync n)\<rparr>)
      in if height = 0 then finish ERROR_SYNC_ALONE n
         else if height < from \<or> (from = height \<and> encodeBase64 E (link_hash (m_link_from s)) = hash) then finish EXIT_NORMAL n
         else if from = height then finish EXIT_NORMAL (request n)
         else (request n)\<lparr>sn_sync := s\<lparr>m_sync_flags := resize_flags (unat (height - from)) (m_sync_flags s), m_is_sync_begin := True\<rparr>\<rparr>)"

definition startBlockSync :: "ext \<Rightarrow> Setting \<Rightarrow> u64 \<Rightarrow> SyncNode \<Rightarrow> SyncNode option" where
  "startBlockSync E st now n = do {
     (l, a) \<leftarrow> bp_getMostPossibleLink (sn_app n);
     Some (n\<lparr>sn_app := sendRequestStatus E st now a, sn_sync := (sn_sync n)\<lparr>m_link_from := l\<rparr>\<rparr>) }"

section \<open>Bootstrapper\<close>

definition sendMsgUp :: "ext \<Rightarrow> Setting \<Rightarrow> u64 \<Rightarrow> Application \<Rightarrow> Application" where
  "sendMsgUp E st now a =
     app_send \<lparr>out_type = MSG_UP, out_body = json_obj
       [(''mID'', JStr (encodeBase64 E (m_id st))), (''time'', JStr (to_string (unat now))), (''ver'', JStr ''1''),
        (''cID'', JStr (encodeBase64 E (m_localchain_id st))), (''ip'', JStr (m_address st)), (''port'', JStr (m_port st)),
        (''mCert'', JStr (m_cert st))], receivers = []\<rparr> a"

text \<open>The exit code of the stage, once there is one; the message is sent once.\<close>

definition endSync :: "ext \<Rightarrow> Setting \<Rightarrow> u64 \<Rightarrow> ExitCode \<Rightarrow> ExitCode option \<times> Application \<Rightarrow> ExitCode option \<times> Application" where
  "endSync E st now exit_code = (\<lambda>(done, a).
     case done of Some e \<Rightarrow> (Some e, a) | None \<Rightarrow> (Some exit_code, sendMsgUp E st now a))"

datatype boot_step = START_SYNC | END_SYNC ExitCode

text \<open>What the bootstrapper decides, from the height of the own chain and the table of connections; \<open>polls\<close> are the tables
  at the times it looks for a connection to a highest merger.\<close>

definition selfCheckUp :: "ext \<Rightarrow> block_height_type \<Rightarrow> ConnManager list \<Rightarrow> ConnManager \<Rightarrow> boot_step \<times> ConnManager" where
  "selfCheckUp E own_height polls cm =
     (let (max_block_height, mids) = getMaxBlockHgtMergers cm; cm1 = clearBlockHgtList cm
      in if mids = [] then (START_SYNC, cm1)
         else if max_block_height \<le> own_height then (END_SYNC EXIT_NORMAL, cm1)
         else if \<exists>c \<in> set polls. \<exists>i \<in> set mids. fst (getMergerStatus E i c) then (START_SYNC, cm1)
         else (END_SYNC ERROR_SYNC_ALONE, cm1))"

section \<open>Stages\<close>

datatype module = BLOCK_HEALTH_CHECKER | PROCESSOR | COMMUNICATION | OUT_MESSAGE_FETCHER | BOOTSTRAPPER | MESSAGE_FETCHER | SCHEDULER

record Stages =
  m_modules :: "module list list"
  m_callbacks :: "module list"
  m_running_stage :: nat
  sg_started :: "module list"
  sg_jobs :: "module list"
  sg_stopped :: bool

definition registerModule :: "module \<Rightarrow> nat \<Rightarrow> bool \<Rightarrow> Stages \<Rightarrow> Stages" where
  "registerModule m stage runover_flag s =
     (let ms = m_modules s @ replicate (stage + 1 - length (m_modules s)) []
      in s\<lparr>m_callbacks := (if runover_flag then m_callbacks s @ [m] else m_callbacks s), m_modules := ms[stage := ms ! stage @ [m]]\<rparr>)"

definition app_setup :: "Setting \<Rightarrow> Stages" where
  "app_setup st =
     (let s0 = \<lparr>m_modules = [], m_callbacks = [], m_running_stage = 0, sg_started = [], sg_jobs = [], sg_stopped = False\<rparr>;
          s1 = (if m_db_check st then registerModule BLOCK_HEALTH_CHECKER 0 True s0 else s0)
      in registerModule SCHEDULER 3 False (registerModule MESSAGE_FETCHER 3 False (registerModule BOOTSTRAPPER 2 True
           (registerModule OUT_MESSAGE_FETCHER 2 False (registerModule COMMUNICATION 1 True (registerModule PROCESSOR 1 False s1))))))"

text \<open>Three modules post a job to the io service when they are started, whose last act is the report that the stage is over;
  the bootstrapper makes it after further posted tasks. The jobs of the other modules never report.\<close>

definition reports :: "module \<Rightarrow> bool" where
  "reports m \<longleftrightarrow> m \<in> {BLOCK_HEALTH_CHECKER, COMMUNICATION, BOOTSTRAPPER}"

definition module_start :: "module \<Rightarrow> Stages \<Rightarrow> Stages" where
  "module_start m s = s\<lparr>sg_started := sg_started s @ [m], sg_jobs := (if reports m then sg_jobs s @ [m] else sg_jobs s)\<rparr>"

text \<open>\<open>start\<close>, with the call of \<open>runNextStage\<close> for an empty stage written out.\<close>

function app_start :: "Stages \<Rightarrow> Stages option" where
  "app_start s =
     (if m_running_stage s < length (m_modules s)
      then if m_modules s ! m_running_stage s = [] then app_start (s\<lparr>m_running_stage := m_running_stage s + 1\<rparr>)
           else Some (fold module_start (m_modules s ! m_running_stage s) s)
      else None)"
  by pat_completeness auto

termination
  by (relation "measure (\<lambda>s. length (m_modules s) - m_running_stage s)") auto

declare app_start.simps [simp del]

definition runNextStage :: "ExitCode \<Rightarrow> Stages \<Rightarrow> Stages option" where
  "runNextStage exit_code s0 =
     (let s = (if exit_code = ERROR_ABORT then s0\<lparr>sg_stopped := True\<rparr> else s0)
      in if m_running_stage s < length (m_modules s) then app_start (s\<lparr>m_running_stage := m_running_stage s + 1\<rparr>) else Some s)"

text \<open>\<open>stageOver\<close> calls the callback of a module that has one.\<close>

definition stageOver :: "module \<Rightarrow> ExitCode \<Rightarrow> Stages \<Rightarrow> Stages option" where
  "stageOver m exit_code s = (if m \<in> set (m_callbacks s) then runNextStage exit_code s else Some s)"

text \<open>The next posted job runs and reports, unless the io service is stopped.\<close>

definition run_job :: "ExitCode \<Rightarrow> Stages \<Rightarrow> Stages option" where
  "run_job exit_code s =
     (if sg_stopped s then Some s
      else case sg_jobs s of [] \<Rightarrow> Some s | m # js \<Rightarrow> stageOver m exit_code (s\<lparr>sg_jobs := js\<rparr>))"

section \<open>Runs of a synchronisation\<close>

text \<open>The height of the block a fetch hands to the block processor and the pool accepts.\<close>

definition fetched_height :: "ext \<Rightarrow> bytes \<Rightarrow> Setting \<Rightarrow> CertificatePool \<Rightarrow> (string \<Rightarrow> nat) \<Rightarrow> u64 \<Rightarrow> SyncNode \<Rightarrow> block_height_type set" where
  "fetched_height E mem st certs h now n =
     (case sn_input n of
        [] \<Rightarrow> {}
      | m # _ \<Rightarrow> if in_type m = MSG_BLOCK
          then (case handleMsgBlock E mem st certs h now (in_body m) (sn_app n) of Some (res, _) \<Rightarrow> {res_height res} | None \<Rightarrow> {})
          else {})"

text \<open>A node during the synchronisation, with the heights of the blocks it has accepted.\<close>

inductive sync_reach :: "ext \<Rightarrow> bytes \<Rightarrow> Setting \<Rightarrow> CertificatePool \<Rightarrow> (string \<Rightarrow> nat) \<Rightarrow> SyncNode \<Rightarrow> block_height_type set \<Rightarrow> bool"
  for E mem st certs h where
  start: "sn_sync n = new_sync l \<Longrightarrow> sync_reach E mem st certs h n {}"
| receive: "sync_reach E mem st certs h n H \<Longrightarrow> sync_reach E mem st certs h (n\<lparr>sn_input := q\<rparr>) H"
| fetch: "sync_reach E mem st certs h n H \<Longrightarrow> messageFetch E mem st certs h now n = Some n' \<Longrightarrow>
    sync_reach E mem st certs h n' (H \<union> fetched_height E mem st certs h now n)"
| request: "sync_reach E mem st certs h n H \<Longrightarrow> \<not> m_is_sync_begin (sn_sync n) \<Longrightarrow>
    sync_reach E mem st certs h (sendRequestLastBlock E st now n) H"
| control: "sync_reach E mem st certs h n H \<Longrightarrow> sync_reach E mem st certs h (n\<lparr>sn_sync := blockSyncControl (sn_sync n)\<rparr>) H"

text \<open>Marked flags stand for accepted heights, and once the last block was asked for, the flags reach up to every
  announced height.\<close>

definition flags_ok :: "BlockSynchronizer \<Rightarrow> block_height_type set \<Rightarrow> bool" where
  "flags_ok s H \<longleftrightarrow> (let from = unat (link_height (m_link_from s)) in
     from + length (m_sync_flags s) < 2 ^ 64 \<and>
     (\<forall>i < length (m_sync_flags s). m_sync_flags s ! i \<longrightarrow> word_of_nat (from + i + 1) \<in> H) \<and>
     (m_is_sync_begin s \<longrightarrow> (\<forall>(_, d) \<in> set (m_chain_status s). unat (os_height d) \<le> from + length (m_sync_flags s))))"

lemma length_resize [simp]: "length (resize_flags n flags) = max n (length flags)"
  by (simp add: resize_flags_def)

lemma nth_resize: "i < max n (length flags) \<Longrightarrow> resize_flags n flags ! i \<longleftrightarrow> i < length flags \<and> flags ! i"
  by (auto simp: resize_flags_def nth_append)

lemma flags_ok_mono: "flags_ok s H \<Longrightarrow> H \<subseteq> H' \<Longrightarrow> flags_ok s H'"
  by (auto simp: flags_ok_def Let_def)

lemma note_block_flags:
  assumes "flags_ok s H" "height \<in> H"
  shows "flags_ok (note_block height s) H"
proof (cases "link_height (m_link_from s) < height")
  case True
  let ?from = "unat (link_height (m_link_from s))" and ?n = "unat (height - link_height (m_link_from s))"
  have n: "?n = unat height - ?from" "?from < unat height" using True by (simp_all add: unat_sub word_less_nat_alt word_le_nat_alt)
  have h: "unat height < 2 ^ 64" using unsigned_less [of height] by simp
  have eq: "height = word_of_nat (?from + (?n - 1) + 1)" using n by simp
  show ?thesis
    using assms True n h eq by (auto simp: flags_ok_def note_block_def Let_def nth_list_update nth_resize less_imp_le)
qed (use assms in \<open>simp add: note_block_def\<close>)

lemma fold_max_height:
  fixes acc :: "block_height_type \<times> string \<times> string"
  shows "fst acc \<le> fst (fold (\<lambda>(k, d) (height, hash, merger). if height < os_height d then (os_height d, os_hash_b64 d, k) else (height, hash, merger)) l acc)
    \<and> (\<forall>(_, d) \<in> set l. os_height d \<le> fst (fold (\<lambda>(k, d) (height, hash, merger). if height < os_height d then (os_height d, os_hash_b64 d, k) else (height, hash, merger)) l acc))"
proof (induction l arbitrary: acc)
  case (Cons x l)
  obtain k d where x: "x = (k, d)" by (cases x)
  obtain a b c where acc: "acc = (a, b, c)" by (cases acc)
  show ?case
    using Cons.IH [of "if a < os_height d then (os_height d, os_hash_b64 d, k) else (a, b, c)"] x acc
    by (auto split: if_splits intro: order.trans)
qed simp

lemma last_block_highest: "(k, d) \<in> set l \<Longrightarrow> os_height d \<le> fst (last_block_of l)"
  using fold_max_height [of "(0, [], [])" l] by (auto simp: last_block_of_def)

lemma syncFinish_flags [simp]: "flags_ok (syncFinish e s) H = flags_ok s H"
  by (simp add: flags_ok_def syncFinish_def)

lemma request_flags:
  assumes "flags_ok (sn_sync n) H"
  shows "flags_ok (sn_sync (sendRequestLastBlock E st now n)) H"
proof -
  let ?s = "sn_sync n"
  obtain height hash merger where l: "last_block_of (m_chain_status ?s) = (height, hash, merger)" by (cases "last_block_of (m_chain_status ?s)")
  let ?from = "link_height (m_link_from ?s)"
  have h: "unat height < 2 ^ 64" using unsigned_less [of height] by simp
  have "flags_ok (?s\<lparr>m_sync_flags := resize_flags (unat (height - ?from)) (m_sync_flags ?s), m_is_sync_begin := True\<rparr>) H" if "?from < height"
  proof -
    have n: "unat (height - ?from) = unat height - unat ?from" "unat ?from < unat height"
      using that by (simp_all add: unat_sub word_less_nat_alt word_le_nat_alt)
    have "unat (os_height d) \<le> unat height" if "(k, d) \<in> set (m_chain_status ?s)" for k d
      using last_block_highest [OF that] l by (simp add: word_le_nat_alt)
    then show ?thesis using assms n h by (fastforce simp: flags_ok_def Let_def nth_resize)
  qed
  then show ?thesis using assms l by (auto simp: sendRequestLastBlock_def Let_def)
qed

lemma fetch_flags:
  assumes "messageFetch E mem st certs h now n = Some n'" "flags_ok (sn_sync n) H"
  shows "flags_ok (sn_sync n') (H \<union> fetched_height E mem st certs h now n)"
proof (cases "sn_input n")
  case (Cons m q)
  have old: "flags_ok (sn_sync n) (H \<union> fetched_height E mem st certs h now n)" using flags_ok_mono [OF assms(2)] by blast
  have status: "flags_ok s' K" if "collectingStatus body s = Some s'" "flags_ok s K" for body s s' K
    using that by (auto simp: collectingStatus_def flags_ok_def Let_def split: if_splits Option.bind_splits)
  show ?thesis
  proof (cases "in_type m = MSG_BLOCK \<and> \<not> m_is_sync_done (sn_sync n)")
    case True
    then obtain res a where r: "handleMsgBlock E mem st certs h now (in_body m) (sn_app n) = Some (res, a)"
      "sn_sync n' = note_block (res_height res) (sn_sync n)"
      using assms(1) Cons by (auto simp: messageFetch_def input_fetch_def checkMsgFromSigner_def Let_def split: Option.bind_splits)
    moreover have "res_height res \<in> H \<union> fetched_height E mem st certs h now n" using True Cons r(1) by (simp add: fetched_height_def)
    ultimately show ?thesis using note_block_flags [OF old] by simp
  next
    case False
    then show ?thesis
      using assms(1) Cons old status
      by (auto simp: messageFetch_def input_fetch_def Let_def split: MessageType.splits Option.bind_splits if_splits)
  qed
qed (use assms in \<open>simp add: messageFetch_def fetched_height_def\<close>)

lemma sync_flags: "sync_reach E mem st certs h n H \<Longrightarrow> flags_ok (sn_sync n) H"
proof (induction rule: sync_reach.induct)
  case (start n l)
  then show ?case using unsigned_less [of "link_height l"] by (simp add: flags_ok_def new_sync_def)
next
  case (fetch n H now n')
  then show ?case using fetch_flags by blast
next
  case (request n H now)
  then show ?case using request_flags by blast
qed (simp_all add: blockSyncControl_def)

section \<open>Properties\<close>

text \<open>C7. When the control of the synchronisation ends it, nothing is missing: over every order of messages and
  timers, the pool has then accepted a block of every height from the start up to every height another merger announced.\<close>

theorem sync_complete:
  assumes "sync_reach E mem st certs h n H" "sync_exit (sn_sync n) = None" "sync_exit (blockSyncControl (sn_sync n)) = Some e"
  shows "e = EXIT_NORMAL \<and> (\<forall>(_, d) \<in> set (m_chain_status (sn_sync n)). \<forall>x.
    link_height (m_link_from (sn_sync n)) < x \<and> x \<le> os_height d \<longrightarrow> x \<in> H)"
proof -
  let ?s = "sn_sync n"
  have b: "m_is_sync_begin ?s" "list_all id (m_sync_flags ?s)" "e = EXIT_NORMAL"
    using assms(2,3) by (auto simp: blockSyncControl_def syncFinish_def split: if_splits)
  note ok = sync_flags [OF assms(1)]
  have "x \<in> H" if kd: "(k, d) \<in> set (m_chain_status ?s)" and x: "link_height (m_link_from ?s) < x" "x \<le> os_height d" for k d x
  proof -
    let ?from = "unat (link_height (m_link_from ?s))"
    define i where "i = unat x - ?from - 1"
    have i: "?from + i + 1 = unat x" using x(1) by (simp add: i_def word_less_nat_alt)
    have "unat (os_height d) \<le> ?from + length (m_sync_flags ?s)" using ok b(1) kd by (auto simp: flags_ok_def Let_def)
    then have "i < length (m_sync_flags ?s)" using x i by (simp add: word_le_nat_alt)
    then have "word_of_nat (?from + i + 1) \<in> H" using ok b(2) by (auto simp: flags_ok_def Let_def list_all_length)
    then have "word_of_nat (unat x) \<in> H" by (simp only: i)
    then show ?thesis by simp
  qed
  then show ?thesis using b(3) by blast
qed

text \<open>The bootstrapper never compares heights: lists of mergers whose entries have no member named \<open>merger\<close>, such as the
  lists other mergers and the tracker send, leave the list of heights empty, whatever heights they carry, and
  the synchronisation is started even when the own chain is the highest.\<close>

theorem bootstrap_never_skips:
  assumes "\<forall>j \<in> set (json_elems mergers). json_find j ''merger'' = None" "m_init_block_hgt_list cm = []"
  shows "\<exists>cm' certs'. setMultiMergerInfo E st mergers (cm, certs) = Some (cm', certs') \<and>
    fst (selfCheckUp E own_height polls cm') = START_SYNC"
proof -
  obtain cm' certs' where m: "setMultiMergerInfo E st mergers (cm, certs) = Some (cm', certs')" "m_init_block_hgt_list cm' = []"
    using set_multi_heights [OF assms(1), of E st cm certs] assms(2) by auto
  then have "fst (selfCheckUp E own_height polls cm') = START_SYNC" by (simp add: selfCheckUp_def getMaxBlockHgtMergers_def)
  with m show ?thesis by blast
qed

lemma setup_modules:
  "app_setup st = \<lparr>m_modules = [if m_db_check st then [BLOCK_HEALTH_CHECKER] else [], [PROCESSOR, COMMUNICATION],
       [OUT_MESSAGE_FETCHER, BOOTSTRAPPER], [MESSAGE_FETCHER, SCHEDULER]],
     m_callbacks = (if m_db_check st then [BLOCK_HEALTH_CHECKER] else []) @ [COMMUNICATION, BOOTSTRAPPER],
     m_running_stage = 0, sg_started = [], sg_jobs = [], sg_stopped = False\<rparr>"
  by (simp add: app_setup_def registerModule_def Let_def)

text \<open>A state in which the modules of the stages up to \<open>i\<close> have been started and that of stage \<open>i\<close> has still to report.\<close>

definition stage_state :: "Setting \<Rightarrow> nat \<Rightarrow> bool \<Rightarrow> Stages" where
  "stage_state st i b = (app_setup st)\<lparr>m_running_stage := i, sg_started := concat (take (i + 1) (m_modules (app_setup st))),
     sg_jobs := filter reports (m_modules (app_setup st) ! i), sg_stopped := b\<rparr>"

lemma start_state: "app_start (app_setup st) = Some (stage_state st (if m_db_check st then 0 else 1) False)"
  by (cases "m_db_check st") (simp_all add: setup_modules module_start_def reports_def stage_state_def app_start.simps)

text \<open>One report takes the application to the next stage, until the last stage or an abort.\<close>

lemma run_job_step:
  assumes "i < 3" "i = 0 \<longrightarrow> m_db_check st"
  shows "run_job e (stage_state st i False) = Some (stage_state st (i + 1) (e = ERROR_ABORT))"
proof -
  consider "i = 0" | "i = 1" | "i = 2" using assms(1) by linarith
  then show ?thesis
    using assms(2)
    by cases (simp_all add: run_job_def stage_state_def setup_modules reports_def stageOver_def runNextStage_def app_start.simps module_start_def Let_def
        numeral_2_eq_2 numeral_3_eq_3)
qed

lemma run_job_idle: "run_job e (stage_state st i True) = Some (stage_state st i True)" "run_job e (stage_state st 3 False) = Some (stage_state st 3 False)"
  by (simp_all add: run_job_def stage_state_def setup_modules reports_def numeral_3_eq_3)

lemma run_jobs_idle: "fold_opt run_job es (stage_state st i True) = Some (stage_state st i True)"
  "fold_opt run_job es (stage_state st 3 False) = Some (stage_state st 3 False)"
  by (induction es) (simp_all add: run_job_idle)

text \<open>How many of the reports are made, when \<open>n\<close> can be made: none after an abort.\<close>

fun reports_made :: "nat \<Rightarrow> ExitCode list \<Rightarrow> nat" where
  "reports_made n [] = 0"
| "reports_made 0 (e # es) = 0"
| "reports_made (Suc n) (e # es) = (if e = ERROR_ABORT then 1 else Suc (reports_made n es))"

lemma run_jobs_state:
  assumes "i + n = 3" "i = 0 \<longrightarrow> m_db_check st"
  shows "fold_opt run_job es (stage_state st i False) =
    Some (stage_state st (i + reports_made n es) (ERROR_ABORT \<in> set (take (reports_made n es) es)))"
  using assms
proof (induction n es arbitrary: i rule: reports_made.induct)
  case (2 e es)
  then show ?case using run_jobs_idle(2) [of "e # es" st] by simp
next
  case (3 n e es)
  have step: "run_job e (stage_state st i False) = Some (stage_state st (i + 1) (e = ERROR_ABORT))"
    using run_job_step 3(2,3) by simp
  show ?case
    using 3(1) [of "i + 1"] 3(2) by (auto simp: step run_jobs_idle(1))
qed simp

text \<open>C40. The stages run in order, and how far: with or without the check of the storage, and whatever exit codes the modules
  report, the application starts the groups of modules in the order checker (if it is switched on), block processor and communication,
  sender and bootstrapper, receiver and scheduler, one more group for each report that is made, and never reads
  past the last stage. An abort stops the io service: the jobs that are posted from then on are not run, so
  no later module reports; the one group that follows the aborting stage is started nevertheless. The service is stopped
  exactly when one of the reports that were made is an abort.\<close>

theorem stages_in_order:
  "\<exists>s0 s. app_start (app_setup st) = Some s0 \<and> fold_opt run_job es s0 = Some s \<and>
     (let groups = (if m_db_check st then [[BLOCK_HEALTH_CHECKER]] else []) @
            [[PROCESSOR, COMMUNICATION], [OUT_MESSAGE_FETCHER, BOOTSTRAPPER], [MESSAGE_FETCHER, SCHEDULER]];
          k = reports_made (length groups - 1) es
      in sg_started s = concat (take (k + 1) groups) \<and> (sg_stopped s \<longleftrightarrow> ERROR_ABORT \<in> set (take k es)))"
proof (cases "m_db_check st")
  case True
  then have "fold_opt run_job es (stage_state st 0 False) =
      Some (stage_state st (reports_made 3 es) (ERROR_ABORT \<in> set (take (reports_made 3 es) es)))"
    using run_jobs_state [of 0 3 st es] by simp
  with True show ?thesis
    unfolding start_state by (simp add: stage_state_def setup_modules Let_def numeral_3_eq_3)
next
  case False
  then have "fold_opt run_job es (stage_state st 1 False) =
      Some (stage_state st (1 + reports_made 2 es) (ERROR_ABORT \<in> set (take (reports_made 2 es) es)))"
    using run_jobs_state [of 1 2 st es] by simp
  with False show ?thesis
    unfolding start_state by (simp add: stage_state_def setup_modules Let_def numeral_2_eq_2)
qed

section \<open>Witnesses\<close>

text \<open>One merger announces a block of height one, which has arrived.\<close>

definition sync_w :: "Application \<Rightarrow> SyncNode" where
  "sync_w a = \<lparr>sn_app = a, sn_sync = new_sync \<lparr>link_id = [], link_prev_id = [], link_hash = [], link_prev_hash = [], link_height = 0, link_time = 0\<rparr>,
     sn_input = []\<rparr>"

definition blk_fin :: Block where
  "blk_fin = finalize ext1 ''key'' [] blk_pre"

definition app_dup :: "OutputMsgEntry list \<Rightarrow> Application" where
  "app_dup q = (node_w ((new_pool fresh_ls)\<lparr>m_block_pool := [[entry_w 0 blk_fin]]\<rparr>))\<lparr>app_output_queue := q\<rparr>"

definition block_body_w :: json where
  "block_body_w = json_obj [(''blockraw'', JStr (encodeBase64 ext1 (m_block_raw blk_fin))), (''tx'', getBlockTXsAsJson ext1 blk_pre)]"

lemma blk_fin_received:
  "\<exists>a res. handleMsgBlock ext1 [] st (\<lambda>_. Some ''key'') h now block_body_w (app_dup q) = Some (res, a) \<and> res_height res = 1"
proof -
  have kp: "key_pair ext1 ''key'' [] ''key''" by (simp add: ext1_laws)
  have raw: "getBytesFromB64 ext1 block_body_w ''blockraw'' = m_block_raw blk_fin"
    by (rule getBytesFromB64_written [OF ext1_laws(1)]) (simp add: block_body_w_def)
  have init: "initialize_msg ext1 [] block_body_w new_block = Some (True, blk_fin)"
    using initialize_finalized [OF blk_pre_ok ext1_laws(1,5,3) doVerify_doSign(2) [OF kp]] raw
    by (simp add: initialize_msg_def block_body_w_def blk_fin_def)
  have early: "isValidEarly ext1 (\<lambda>uid. getCert ext1 uid (\<lambda>_. Some ''key'')) blk_fin = Some True"
    using finalized_early [OF blk_pre_checks(1,2) _ blk_pre_checks(3), of "''key''" "[]"]
    by (simp add: blk_pre_side ext1_laws getCert_def blk_fin_def)
  let ?p = "(new_pool fresh_ls)\<lparr>m_block_pool := [[entry_w 0 blk_fin]]\<rparr>"
  have h: "m_height blk_fin = 1" by (simp add: blk_fin_def finalize_def blk_pre_def Let_def)
  have "push ext1 now blk_fin False ?p = Some (push_failed\<lparr>res_height := 1, res_duplicated := True\<rparr>, ?p)"
    by (simp add: push_def prepareBins_def bin_of_def h new_pool_def entry_w_def block_eq_def cast_int_def Let_def)
  moreover have "getUnresolvedLowestLink ?p = Some ((0, []), ?p\<lparr>m_cache_possible_pos := Some (1, 0)\<rparr>)"
    by (simp add: getUnresolvedLowestLink_def getLongestBlockPos_def longest_pos_def new_pool_def entry_w_def relax_pos_def h Let_def)
  ultimately show ?thesis using init early
    by (simp add: handleMsgBlock_def app_dup_def ub_pool_def node_w_def tryResolveUnresolvedBlocksIf_def set_ub_pool_def Let_def)
qed

definition status_msg_w :: InputMsgEntry where
  "status_msg_w = \<lparr>in_type = MSG_RES_STATUS, in_body = json_obj [(''mID'', JStr ''m''), (''hash'', JStr ''x''), (''hgt'', JStr ''1'')]\<rparr>"

theorem sync_complete_witness:
  "\<exists>n H. sync_reach ext1 [] new_setting (\<lambda>_. Some ''key'') (\<lambda>_. 0) n H \<and> sync_exit (blockSyncControl (sn_sync n)) = Some EXIT_NORMAL \<and>
     (1 :: block_height_type) \<in> H"
proof -
  let ?R = "sync_reach ext1 [] new_setting (\<lambda>_. Some ''key'') (\<lambda>_. 0)"
  let ?d = "\<lparr>os_hash_b64 = ''x'', os_height = 1\<rparr>"
  define n0 where "n0 = (sync_w (app_dup []))\<lparr>sn_input := [status_msg_w]\<rparr>"
  have R0: "?R n0 {}" unfolding n0_def by (intro sync_reach.receive sync_reach.start) (simp add: sync_w_def)
  define n1 where "n1 = (sync_w (app_dup []))\<lparr>sn_sync := (sn_sync (sync_w (app_dup [])))\<lparr>m_chain_status := [(''m'', ?d)]\<rparr>\<rparr>"
  have "getSize ''1'' = Some 1" by (simp add: getSize_def stoll_def parse_dec_def is_space_def is_digit_def digits_val_def digit_val_def digit_char_def)
  then have f1: "messageFetch ext1 [] new_setting (\<lambda>_. Some ''key'') (\<lambda>_. 0) 7 n0 = Some n1"
    by (simp add: messageFetch_def n0_def n1_def sync_w_def new_sync_def status_msg_w_def input_fetch_def checkMsgFromSigner_def
        collectingStatus_def getString_def Let_def)
  have R1: "?R n1 {}" using sync_reach.fetch [OF R0 f1] by (simp add: fetched_height_def n0_def status_msg_w_def)
  obtain q where n2: "sendRequestLastBlock ext1 new_setting 7 n1 = (sync_w (app_dup q))\<lparr>sn_sync := (sn_sync n1)\<lparr>m_sync_flags := [False], m_is_sync_begin := True\<rparr>\<rparr>"
    by (simp add: sendRequestLastBlock_def n1_def sync_w_def new_sync_def last_block_of_def sendRequestBlock_def app_send_def app_dup_def
        resize_flags_def node_w_def Let_def)
  have nb: "\<not> m_is_sync_begin (sn_sync n1)" by (simp add: n1_def sync_w_def new_sync_def)
  define n2 where "n2 = (sync_w (app_dup q))\<lparr>sn_sync := (sn_sync n1)\<lparr>m_sync_flags := [False], m_is_sync_begin := True\<rparr>,
    sn_input := [\<lparr>in_type = MSG_BLOCK, in_body = block_body_w\<rparr>]\<rparr>"
  have R2: "?R n2 {}" unfolding n2_def
    using sync_reach.receive [OF sync_reach.request [OF R1 nb, of 7], of "[\<lparr>in_type = MSG_BLOCK, in_body = block_body_w\<rparr>]", unfolded n2] .
  obtain a res where r: "handleMsgBlock ext1 [] new_setting (\<lambda>_. Some ''key'') (\<lambda>_. 0) 7 block_body_w (app_dup q) = Some (res, a)" "res_height res = 1"
    using blk_fin_received by blast
  define n3 where "n3 = \<lparr>sn_app = a, sn_sync = (sn_sync n1)\<lparr>m_sync_flags := [True], m_is_sync_begin := True\<rparr>, sn_input = []\<rparr>"
  have "messageFetch ext1 [] new_setting (\<lambda>_. Some ''key'') (\<lambda>_. 0) 7 n2 = Some n3"
    by (simp add: messageFetch_def n2_def sync_w_def n1_def new_sync_def input_fetch_def checkMsgFromSigner_def r note_block_def resize_flags_def n3_def)
  from sync_reach.fetch [OF R2 this] obtain H where R3: "?R n3 H" by blast
  have e: "sync_exit (sn_sync n3) = None" "sync_exit (blockSyncControl (sn_sync n3)) = Some EXIT_NORMAL" "(''m'', ?d) \<in> set (m_chain_status (sn_sync n3))"
    "link_height (m_link_from (sn_sync n3)) = 0"
    by (simp_all add: n3_def n1_def sync_w_def new_sync_def blockSyncControl_def syncFinish_def)
  from sync_complete [OF R3 e(1,2)] e(3,4) have "1 \<in> H" by fastforce
  with R3 e(2) show ?thesis by blast
qed

theorem bootstrap_never_skips_witness:
  "\<exists>cm certs. setMultiMergerInfo ext0 new_setting (JArr [json_obj [(''mID'', JStr ''x''), (''hgt'', JStr ''7'')]]) (new_conn_manager [], Map.empty) =
       Some (cm, certs) \<and> fst (selfCheckUp ext0 9 [] cm) = START_SYNC"
  by (rule bootstrap_never_skips) (simp_all add: new_conn_manager_def)

end
