(* ===== verification/Merger_Server.thy ===== *)
theory Merger_Server
  imports Merger_Client
begin

text \<open>
  The server (\<open>src/modules/communication/merger_server.cpp\<close>, \<open>merger_server.hpp\<close>): one object per call, taken through its states by
  the events of the completion queue.

  \<open>sv_calls\<close> are the live objects by address. \<open>sv_pending\<close> are the operations the queue has still to report, each with the object
  that is its tag; an object does not see which operation was completed, only its own state. The writes of
  \<open>MergerClient::sendToSigner\<close> are among them: the sending thread looks up the entry of a signer (\<open>sv_sending\<close>, its local
  variable) and then starts a write on that stream, with the channel object as its tag. What gRPC promises is the
  enabling of the steps: only a read, a write or a reply is reported as failed while the server runs, the end of a call
  is reported after its begin, only an ended call is cancelled, a write on an ended call is reported as failed, and a second write on
  a stream whose write is outstanding ends the program. Replies are collected in \<open>sv_replies\<close>. An exception of
  \<open>unpackMsg\<close> is \<^const>\<open>None\<close>; in \<open>RecvFromMerger\<close> it is lost in the discarded future.

  The exception that the loop of \<open>recvMessage\<close> catches is that of \<open>std::async\<close>, when no thread can be started for a request.
  From then on \<open>sv_caught\<close> holds: events only delete their objects, until the queue is at its end and the server is
  started again. \<open>sv_errors\<close> counts these exceptions. Nothing in the source shuts the queue down, so a node may also stay in
  that loop for ever. Running out of memory is not modelled, and a step that would use a deleted object has no successor.
\<close>

section \<open>State\<close>

datatype RpcCallStatus = CREATE | PROCESS | READ | WAIT | FINISH

datatype service = CHECK_CONN | RECV_FROM_MERGER | RECV_FROM_SE | OPEN_CHANNEL | SIGNER_SERVICE

datatype rpc_op = OP_REQUEST | OP_READ | OP_WRITE | OP_FINISH | OP_DONE

datatype rpc_reply = REPLY rpc_status | REPLY_INTERNAL

record CallData =
  cd_service :: service
  m_receive_status :: RpcCallStatus
  m_signer_id_b64 :: string

record MergerServer =
  sv_calls :: "nat \<rightharpoonup> CallData"
  sv_next :: nat
  sv_pending :: "(nat \<times> rpc_op) set"
  sv_input :: "InputMsgEntry list"
  sv_rpc :: RpcReceiverList
  sv_replies :: "(nat \<times> rpc_reply) list"
  sv_sending :: "SignerRpcInfo option"
  sv_caught :: bool
  sv_errors :: nat

text \<open>What an event brings: the bytes of a request, the sender of an identity, whether the call is cancelled, and the clock.\<close>

record rpc_event =
  ev_data :: bytes
  ev_sender :: string
  ev_cancelled :: bool
  ev_now :: u64

section \<open>Calls\<close>

text \<open>The state a call listens in, after the first \<open>proceed\<close> of its constructor.\<close>

definition listening :: "service \<Rightarrow> RpcCallStatus" where
  "listening k = (if k = OPEN_CHANNEL then READ else PROCESS)"

definition new_call :: "service \<Rightarrow> MergerServer \<Rightarrow> MergerServer" where
  "new_call k sv =
     (let i = sv_next sv
      in sv\<lparr>sv_calls := (sv_calls sv)(i \<mapsto> \<lparr>cd_service = k, m_receive_status = listening k, m_signer_id_b64 = []\<rparr>), sv_next := i + 1,
            sv_pending := sv_pending sv \<union> {(i, OP_REQUEST)} \<union> (if k = OPEN_CHANNEL then {(i, OP_DONE)} else {})\<rparr>)"

definition set_call_status :: "nat \<Rightarrow> RpcCallStatus \<Rightarrow> MergerServer \<Rightarrow> MergerServer" where
  "set_call_status i s sv = sv\<lparr>sv_calls := (sv_calls sv)(i := map_option (\<lambda>c. c\<lparr>m_receive_status := s\<rparr>) (sv_calls sv i))\<rparr>"

definition delete_call :: "nat \<Rightarrow> MergerServer \<Rightarrow> MergerServer" where
  "delete_call i sv = sv\<lparr>sv_calls := (sv_calls sv)(i := None)\<rparr>"

definition finish_call :: "nat \<Rightarrow> rpc_reply \<Rightarrow> MergerServer \<Rightarrow> MergerServer" where
  "finish_call i r sv = (set_call_status i FINISH sv)\<lparr>sv_replies := sv_replies sv @ [(i, r)], sv_pending := insert (i, OP_FINISH) (sv_pending sv)\<rparr>"

definition check_conn_proceed :: "nat \<Rightarrow> CallData \<Rightarrow> MergerServer \<Rightarrow> MergerServer" where
  "check_conn_proceed i c sv =
     (if m_receive_status c = PROCESS then finish_call i (REPLY RPC_OK) (new_call CHECK_CONN sv) else delete_call i sv)"

definition recv_from_merger_proceed :: "ext \<Rightarrow> SignerPool \<Rightarrow> rpc_event \<Rightarrow> nat \<Rightarrow> CallData \<Rightarrow> MergerServer \<Rightarrow> MergerServer" where
  "recv_from_merger_proceed E pool ev i c sv =
     (if m_receive_status c = PROCESS
      then let sv1 = new_call RECV_FROM_MERGER sv
           in case unpackMsg E pool (ev_data ev) [] (sv_input sv1) of
                None \<Rightarrow> sv1
              | Some (status, _, q) \<Rightarrow> finish_call i (REPLY status) (sv1\<lparr>sv_input := q\<rparr>)
      else delete_call i sv)"

text \<open>Service endpoints and signers: an exception is answered.\<close>

definition recv_caught_proceed :: "service \<Rightarrow> ext \<Rightarrow> SignerPool \<Rightarrow> rpc_event \<Rightarrow> nat \<Rightarrow> CallData \<Rightarrow> MergerServer \<Rightarrow> MergerServer" where
  "recv_caught_proceed k E pool ev i c sv =
     (if m_receive_status c = PROCESS
      then let sv1 = new_call k sv
           in case unpackMsg E pool (ev_data ev) [] (sv_input sv1) of
                None \<Rightarrow> finish_call i REPLY_INTERNAL sv1
              | Some (status, _, q) \<Rightarrow> finish_call i (REPLY status) (sv1\<lparr>sv_input := q\<rparr>)
      else delete_call i sv)"

definition recv_from_se_proceed :: "ext \<Rightarrow> SignerPool \<Rightarrow> rpc_event \<Rightarrow> nat \<Rightarrow> CallData \<Rightarrow> MergerServer \<Rightarrow> MergerServer" where
  "recv_from_se_proceed = recv_caught_proceed RECV_FROM_SE"

definition signer_service_proceed :: "ext \<Rightarrow> SignerPool \<Rightarrow> rpc_event \<Rightarrow> nat \<Rightarrow> CallData \<Rightarrow> MergerServer \<Rightarrow> MergerServer" where
  "signer_service_proceed = recv_caught_proceed SIGNER_SERVICE"

definition open_channel_proceed :: "rpc_event \<Rightarrow> nat \<Rightarrow> CallData \<Rightarrow> MergerServer \<Rightarrow> MergerServer" where
  "open_channel_proceed ev i c sv =
     (case m_receive_status c of
        READ \<Rightarrow> (let sv1 = set_call_status i PROCESS (new_call OPEN_CHANNEL sv) in sv1\<lparr>sv_pending := insert (i, OP_READ) (sv_pending sv1)\<rparr>)
      | PROCESS \<Rightarrow> sv\<lparr>sv_calls := (sv_calls sv)(i \<mapsto> c\<lparr>m_signer_id_b64 := ev_sender ev, m_receive_status := WAIT\<rparr>),
                      sv_rpc := setReplyMsg (ev_sender ev) i i (sv_rpc sv)\<rparr>
      | WAIT \<Rightarrow> if ev_cancelled ev
                then delete_call i (sv\<lparr>sv_input := genInternalMsg (ev_now ev) MSG_LEAVE (m_signer_id_b64 c) (sv_input sv),
                       sv_rpc := eraseRpcInfo (m_signer_id_b64 c) (sv_rpc sv)\<rparr>)
                else sv
      | _ \<Rightarrow> sv)"

definition proceed :: "ext \<Rightarrow> SignerPool \<Rightarrow> bool \<Rightarrow> rpc_event \<Rightarrow> nat \<Rightarrow> MergerServer \<Rightarrow> MergerServer" where
  "proceed E pool st ev i sv =
     (case sv_calls sv i of
        None \<Rightarrow> sv
      | Some c \<Rightarrow>
          if \<not> st then delete_call i sv
          else case cd_service c of
            CHECK_CONN \<Rightarrow> check_conn_proceed i c sv
          | RECV_FROM_MERGER \<Rightarrow> recv_from_merger_proceed E pool ev i c sv
          | RECV_FROM_SE \<Rightarrow> recv_from_se_proceed E pool ev i c sv
          | OPEN_CHANNEL \<Rightarrow> open_channel_proceed ev i c sv
          | SIGNER_SERVICE \<Rightarrow> signer_service_proceed E pool ev i c sv)"

definition runServer :: "MergerServer \<Rightarrow> MergerServer" where
  "runServer sv = fold new_call [CHECK_CONN, RECV_FROM_MERGER, RECV_FROM_SE, OPEN_CHANNEL, SIGNER_SERVICE] sv"

section \<open>Events\<close>

text \<open>An event is taken from the queue.\<close>

definition taken :: "nat \<Rightarrow> rpc_op \<Rightarrow> MergerServer \<Rightarrow> MergerServer" where
  "taken i op sv = sv\<lparr>sv_pending := sv_pending sv - {(i, op)}\<rparr>"

text \<open>No thread for a request: the next listener is there, the request is neither unpacked nor answered.\<close>

definition thread_failed :: "service \<Rightarrow> MergerServer \<Rightarrow> MergerServer" where
  "thread_failed k sv = (new_call k sv)\<lparr>sv_caught := True, sv_errors := sv_errors sv + 1\<rparr>"

definition restarted :: "MergerServer \<Rightarrow> MergerServer" where
  "restarted sv = runServer (sv\<lparr>sv_caught := False\<rparr>)"

text \<open>The two halves of the loop body of \<open>sendToSigner\<close>.\<close>

definition look_up_stream :: "ext \<Rightarrow> id_type \<Rightarrow> MergerServer \<Rightarrow> MergerServer" where
  "look_up_stream E receiver sv =
     (let (info, l) = getSignerRpcInfo E receiver (sv_rpc sv) in sv\<lparr>sv_rpc := l, sv_sending := Some info\<rparr>)"

definition write_stream :: "nat \<Rightarrow> MergerServer \<Rightarrow> MergerServer" where
  "write_stream i sv = sv\<lparr>sv_pending := insert (i, OP_WRITE) (sv_pending sv), sv_sending := None\<rparr>"

section \<open>Runs\<close>

text \<open>The loop takes an event only while the input queue has room, and leaves out failed operations.\<close>

inductive serving :: "ext \<Rightarrow> MergerServer \<Rightarrow> bool" for E where
  start: "sv_calls sv = Map.empty \<Longrightarrow> sv_pending sv = {} \<Longrightarrow> sv_rpc sv = Map.empty \<Longrightarrow> sv_sending sv = None \<Longrightarrow> \<not> sv_caught sv \<Longrightarrow> sv_errors sv = 0 \<Longrightarrow>
    serving E (runServer sv)"
| complete: "serving E sv \<Longrightarrow> \<not> sv_caught sv \<Longrightarrow> (i, op) \<in> sv_pending sv \<Longrightarrow> sv_calls sv i \<noteq> None \<Longrightarrow>
    length (sv_input sv) < AVAILABLE_INPUT_SIZE \<Longrightarrow>
    (op = OP_DONE \<longrightarrow> (i, OP_REQUEST) \<notin> sv_pending sv) \<Longrightarrow> (ev_cancelled ev \<longrightarrow> op = OP_DONE \<or> (i, OP_DONE) \<notin> sv_pending sv) \<Longrightarrow>
    (op = OP_WRITE \<longrightarrow> (i, OP_DONE) \<in> sv_pending sv) \<Longrightarrow> serving E (proceed E pool True ev i (taken i op sv))"
| failed: "serving E sv \<Longrightarrow> \<not> sv_caught sv \<Longrightarrow> (i, op) \<in> sv_pending sv \<Longrightarrow> sv_calls sv i \<noteq> None \<Longrightarrow>
    op = OP_READ \<or> op = OP_WRITE \<or> op = OP_FINISH \<Longrightarrow> serving E (taken i op sv)"
| caught: "serving E sv \<Longrightarrow> \<not> sv_caught sv \<Longrightarrow> (i, OP_REQUEST) \<in> sv_pending sv \<Longrightarrow> sv_calls sv i = Some c \<Longrightarrow>
    cd_service c \<in> {RECV_FROM_MERGER, RECV_FROM_SE, SIGNER_SERVICE} \<Longrightarrow> length (sv_input sv) < AVAILABLE_INPUT_SIZE \<Longrightarrow>
    serving E (thread_failed (cd_service c) (taken i OP_REQUEST sv))"
| drained: "serving E sv \<Longrightarrow> sv_caught sv \<Longrightarrow> (i, op) \<in> sv_pending sv \<Longrightarrow> sv_calls sv i \<noteq> None \<Longrightarrow>
    serving E (proceed E pool False ev i (taken i op sv))"
| restart: "serving E sv \<Longrightarrow> sv_caught sv \<Longrightarrow> sv_pending sv = {} \<Longrightarrow> serving E (restarted sv)"
| looked_up: "serving E sv \<Longrightarrow> serving E (look_up_stream E r sv)"
| sent: "serving E sv \<Longrightarrow> sv_sending sv = Some info \<Longrightarrow> send_msg info = Some stream \<Longrightarrow> tag_identity info = Some i \<Longrightarrow>
    sv_calls sv stream \<noteq> None \<Longrightarrow> (i, OP_WRITE) \<notin> sv_pending sv \<Longrightarrow> serving E (write_stream i sv)"
| consumed: "serving E sv \<Longrightarrow> serving E (sv\<lparr>sv_input := q\<rparr>)"

section \<open>Invariants\<close>

text \<open>The operations that are pending for a call fit its state.\<close>

definition ops_of :: "MergerServer \<Rightarrow> nat \<Rightarrow> rpc_op set" where
  "ops_of sv i = {op. (i, op) \<in> sv_pending sv}"

definition call_ok :: "rpc_op set \<Rightarrow> CallData \<Rightarrow> bool" where
  "call_ok P c \<longleftrightarrow>
     (if cd_service c = OPEN_CHANNEL
      then OP_FINISH \<notin> P \<and> (m_receive_status c = READ \<longleftrightarrow> OP_REQUEST \<in> P) \<and> (OP_READ \<in> P \<longrightarrow> OP_REQUEST \<notin> P) \<and>
           (m_receive_status c = WAIT \<longrightarrow> \<not> (OP_READ \<in> P \<and> OP_DONE \<in> P)) \<and> (OP_WRITE \<in> P \<longrightarrow> m_receive_status c = WAIT) \<and>
           m_receive_status c \<in> {READ, PROCESS, WAIT}
      else OP_READ \<notin> P \<and> OP_WRITE \<notin> P \<and> OP_DONE \<notin> P \<and> (OP_REQUEST \<in> P \<longrightarrow> m_receive_status c = PROCESS) \<and>
           (OP_FINISH \<in> P \<longrightarrow> m_receive_status c = FINISH) \<and> m_receive_status c \<in> {PROCESS, FINISH})"

text \<open>The calls of a service that wait for a request.\<close>

definition listeners :: "MergerServer \<Rightarrow> service \<Rightarrow> nat set" where
  "listeners sv k = {i. (i, OP_REQUEST) \<in> sv_pending sv \<and> map_option cd_service (sv_calls sv i) = Some k}"

text \<open>A stream and its tag are the same channel. While it is live, it waits and belongs to its signer; deleted channels
  are still listed only after an error.\<close>

definition stream_ok :: "nat \<Rightarrow> (nat \<rightharpoonup> CallData) \<Rightarrow> SignerRpcInfo \<Rightarrow> bool" where
  "stream_ok n calls info \<longleftrightarrow> (\<forall>i. send_msg info = Some i \<longrightarrow> tag_identity info = Some i \<and> i < n \<and>
     (\<forall>c. calls i = Some c \<longrightarrow> cd_service c = OPEN_CHANNEL \<and> m_receive_status c = WAIT))"

definition streams_live :: "bool \<Rightarrow> (nat \<rightharpoonup> CallData) \<Rightarrow> RpcReceiverList \<Rightarrow> bool" where
  "streams_live lv calls rpc \<longleftrightarrow> (\<forall>k info i. rpc k = Some info \<longrightarrow> send_msg info = Some i \<longrightarrow>
     (lv \<longrightarrow> calls i \<noteq> None) \<and> (\<forall>c. calls i = Some c \<longrightarrow> m_signer_id_b64 c = k))"

definition streams_ok :: "MergerServer \<Rightarrow> bool" where
  "streams_ok sv \<longleftrightarrow> (\<forall>info \<in> ran (sv_rpc sv) \<union> set_option (sv_sending sv). stream_ok (sv_next sv) (sv_calls sv) info) \<and>
     streams_live (sv_errors sv = 0) (sv_calls sv) (sv_rpc sv)"

text \<open>What holds in every state, and what holds in addition outside the branch that handles an error.\<close>

definition base_inv :: "MergerServer \<Rightarrow> bool" where
  "base_inv sv \<longleftrightarrow> (\<forall>i. sv_next sv \<le> i \<longrightarrow> sv_calls sv i = None \<and> ops_of sv i = {}) \<and>
     (\<forall>i c. sv_calls sv i = Some c \<longrightarrow> call_ok (ops_of sv i) c) \<and> streams_ok sv \<and> (sv_caught sv \<longrightarrow> sv_errors sv \<noteq> 0)"

definition live_inv :: "MergerServer \<Rightarrow> bool" where
  "live_inv sv \<longleftrightarrow> (\<forall>i. sv_calls sv i = None \<longrightarrow> ops_of sv i \<subseteq> {OP_WRITE}) \<and> (\<forall>k. \<exists>i. listeners sv k = {i})"

definition server_inv :: "MergerServer \<Rightarrow> bool" where
  "server_inv sv \<longleftrightarrow> base_inv sv \<and> (\<not> sv_caught sv \<longrightarrow> live_inv sv)"

lemma listeners_ops: "i \<in> listeners sv k \<longleftrightarrow> OP_REQUEST \<in> ops_of sv i \<and> map_option cd_service (sv_calls sv i) = Some k"
  by (simp add: listeners_def ops_of_def)

lemma base_invD:
  assumes "base_inv sv"
  shows "sv_next sv \<le> i \<Longrightarrow> sv_calls sv i = None" and "sv_next sv \<le> i \<Longrightarrow> ops_of sv i = {}"
    and "sv_calls sv i = Some c \<Longrightarrow> call_ok (ops_of sv i) c" and "streams_ok sv"
    and "sv_calls sv i = Some c \<Longrightarrow> i < sv_next sv" and "sv_caught sv \<Longrightarrow> sv_errors sv \<noteq> 0"
proof -
  note I = assms [unfolded base_inv_def]
  show n: "sv_next sv \<le> i \<Longrightarrow> sv_calls sv i = None" using I by (elim conjE allE [of _ i]) simp
  show "sv_next sv \<le> i \<Longrightarrow> ops_of sv i = {}" using I by (elim conjE allE [of _ i]) simp
  show "sv_calls sv i = Some c \<Longrightarrow> call_ok (ops_of sv i) c" using I by (elim conjE) simp
  show "streams_ok sv" using I by (elim conjE)
  show "sv_calls sv i = Some c \<Longrightarrow> i < sv_next sv" using n by (cases "sv_next sv \<le> i") auto
  show "sv_caught sv \<Longrightarrow> sv_errors sv \<noteq> 0" using I by (elim conjE) simp
qed

text \<open>Streams depend on the waiting channels only: these stay, and deleted objects stay deleted.\<close>

lemma streams_ok_mono:
  assumes "streams_ok sv" "sv_rpc sv' = sv_rpc sv" "sv_sending sv' = sv_sending sv \<or> sv_sending sv' = None" "sv_next sv \<le> sv_next sv'"
    "sv_errors sv' = 0 \<Longrightarrow> sv_errors sv = 0"
    "\<And>j c. sv_calls sv j = Some c \<Longrightarrow> m_receive_status c = WAIT \<Longrightarrow> sv_errors sv' = 0 \<Longrightarrow> sv_calls sv' j = Some c"
    "\<And>j c c'. j < sv_next sv \<Longrightarrow> sv_calls sv' j = Some c' \<Longrightarrow> \<exists>c. sv_calls sv j = Some c \<and> (m_receive_status c = WAIT \<longrightarrow> c' = c)"
  shows "streams_ok sv'"
proof -
  have ok: "stream_ok (sv_next sv) (sv_calls sv) info" if "info \<in> ran (sv_rpc sv') \<union> set_option (sv_sending sv')" for info
    using that assms(1-3) by (auto simp: streams_ok_def)
  then have "stream_ok (sv_next sv') (sv_calls sv') info" if "info \<in> ran (sv_rpc sv') \<union> set_option (sv_sending sv')" for info
    using ok [OF that] assms(4,7) unfolding stream_ok_def by (metis less_le_trans)
  moreover have "streams_live (sv_errors sv' = 0) (sv_calls sv') (sv_rpc sv')"
    unfolding streams_live_def
  proof (intro allI impI)
    fix k info i assume A: "sv_rpc sv' k = Some info" "send_msg info = Some i"
    then have "stream_ok (sv_next sv) (sv_calls sv) info" using ok by (auto simp: ran_def)
    moreover have "(sv_errors sv = 0 \<longrightarrow> sv_calls sv i \<noteq> None) \<and> (\<forall>c. sv_calls sv i = Some c \<longrightarrow> m_signer_id_b64 c = k)"
      using assms(1,2) A by (auto simp: streams_ok_def streams_live_def)
    ultimately show "(sv_errors sv' = 0 \<longrightarrow> sv_calls sv' i \<noteq> None) \<and> (\<forall>c. sv_calls sv' i = Some c \<longrightarrow> m_signer_id_b64 c = k)"
      using assms(5-7) A(2) unfolding stream_ok_def by (metis not_None_eq)
  qed
  ultimately show ?thesis unfolding streams_ok_def by blast
qed

text \<open>A step of one call that has its request already.\<close>

lemma local_inv:
  assumes inv: "base_inv sv" "live_inv sv" and c0: "sv_calls sv i = Some c0" and no: "OP_REQUEST \<notin> ops_of sv i"
    and new: "sv_next sv' = sv_next sv" "sv_calls sv' = (sv_calls sv)(i := oc)" "\<And>j. j \<noteq> i \<Longrightarrow> ops_of sv' j = ops_of sv j"
      "sv_caught sv' = sv_caught sv" "sv_errors sv' = sv_errors sv"
    and ops: "ops_of sv' i \<subseteq> ops_of sv i"
    and ok: "case oc of None \<Rightarrow> ops_of sv' i \<subseteq> {OP_WRITE} | Some c \<Rightarrow> call_ok (ops_of sv' i) c" and live: "streams_ok sv'"
  shows "base_inv sv' \<and> live_inv sv'"
proof -
  have "listeners sv' k = listeners sv k" for k
  proof (rule set_eqI)
    fix j show "j \<in> listeners sv' k \<longleftrightarrow> j \<in> listeners sv k"
      using no ops new by (cases "j = i") (auto simp: listeners_ops)
  qed
  moreover have "i < sv_next sv" using base_invD(5) [OF inv(1) c0] .
  ultimately show ?thesis
    unfolding base_inv_def live_inv_def using base_invD [OF inv(1)] inv(2) [unfolded live_inv_def] ok live new
    by (auto split: option.splits if_splits)
qed

text \<open>A call that got its request makes way for a new listener and goes to another state.\<close>

lemma request_inv:
  assumes inv: "base_inv sv" "live_inv sv" and c0: "sv_calls sv i = Some c0" "OP_REQUEST \<in> ops_of sv i"
    and new: "sv_next sv' = sv_next sv + 1" "sv_rpc sv' = sv_rpc sv" "cd_service c = cd_service c0"
      "sv_sending sv' = sv_sending sv" "sv_errors sv \<le> sv_errors sv'" "sv_caught sv' \<Longrightarrow> sv_errors sv' \<noteq> 0"
      "sv_calls sv' = (sv_calls sv)(sv_next sv \<mapsto> \<lparr>cd_service = cd_service c0, m_receive_status = listening (cd_service c0), m_signer_id_b64 = []\<rparr>, i \<mapsto> c)"
    and ops: "ops_of sv' (sv_next sv) = {OP_REQUEST} \<union> (if cd_service c0 = OPEN_CHANNEL then {OP_DONE} else {})"
      "\<And>j. j \<noteq> i \<Longrightarrow> j \<noteq> sv_next sv \<Longrightarrow> ops_of sv' j = ops_of sv j" "OP_REQUEST \<notin> ops_of sv' i"
    and ok: "call_ok (ops_of sv' i) c"
  shows "base_inv sv' \<and> live_inv sv'"
proof -
  note I = base_invD [OF inv(1)] and L = inv(2) [unfolded live_inv_def]
  let ?n = "sv_next sv"
  have i: "i < ?n" using I(5) c0(1) .
  have fresh: "sv_calls sv ?n = None" "ops_of sv ?n = {}" using I(1,2) by auto
  obtain j where "listeners sv (cd_service c0) = {j}" using L by blast
  moreover have "i \<in> listeners sv (cd_service c0)" using c0 by (simp add: listeners_ops)
  ultimately have own: "listeners sv (cd_service c0) = {i}" by auto
  have lis: "listeners sv' k = (if k = cd_service c0 then {?n} else listeners sv k)" for k
  proof (rule set_eqI)
    fix j
    have "j \<in> listeners sv (cd_service c0) \<longleftrightarrow> j = i" using own by simp
    then show "j \<in> listeners sv' k \<longleftrightarrow> j \<in> (if k = cd_service c0 then {?n} else listeners sv k)"
      using i c0 fresh ops new by (cases "j = i"; cases "j = ?n") (auto simp: listeners_ops)
  qed
  have "m_receive_status c0 \<noteq> WAIT" using I(3) [OF c0(1)] c0(2) by (auto simp: call_ok_def split: if_splits)
  then have live: "streams_ok sv'"
    using c0(1) fresh by (intro streams_ok_mono [OF I(4)]) (use new in \<open>auto split: if_splits\<close>)
  have new_ok: "call_ok (ops_of sv' ?n) \<lparr>cd_service = cd_service c0, m_receive_status = listening (cd_service c0), m_signer_id_b64 = []\<rparr>"
    unfolding ops by (auto simp: call_ok_def listening_def)
  have "base_inv sv'"
    unfolding base_inv_def
  proof (intro conjI allI impI)
    fix j c' assume "sv_calls sv' j = Some c'"
    then show "call_ok (ops_of sv' j) c'" using new_ok ok I(3) ops(2) new(7) by (auto split: if_splits)
  qed (use live new I(1,2) i ops(2) in auto)
  moreover have "live_inv sv'"
    unfolding live_inv_def using lis L ops(2) new(7) by (auto split: if_splits)
  ultimately show ?thesis by blast
qed

lemma ops_of_taken [simp]: "ops_of (taken i op sv) j = (if j = i then ops_of sv i - {op} else ops_of sv j)"
  by (auto simp: ops_of_def taken_def)

lemma taken_simps [simp]:
  "sv_calls (taken i op sv) = sv_calls sv" "sv_next (taken i op sv) = sv_next sv" "sv_input (taken i op sv) = sv_input sv"
  "sv_rpc (taken i op sv) = sv_rpc sv" "sv_sending (taken i op sv) = sv_sending sv" "sv_caught (taken i op sv) = sv_caught sv"
  "sv_errors (taken i op sv) = sv_errors sv"
  by (simp_all add: taken_def)

lemma delete_call_simps [simp]:
  "sv_calls (delete_call i sv) = (sv_calls sv)(i := None)" "sv_next (delete_call i sv) = sv_next sv" "ops_of (delete_call i sv) = ops_of sv"
  "sv_rpc (delete_call i sv) = sv_rpc sv" "sv_sending (delete_call i sv) = sv_sending sv" "sv_caught (delete_call i sv) = sv_caught sv"
  "sv_errors (delete_call i sv) = sv_errors sv"
  by (simp_all add: delete_call_def ops_of_def fun_eq_iff)

lemma ops_of_simps [simp]:
  "ops_of (sv\<lparr>sv_calls := x\<rparr>) = ops_of sv" "ops_of (sv\<lparr>sv_next := n\<rparr>) = ops_of sv" "ops_of (sv\<lparr>sv_input := q\<rparr>) = ops_of sv"
  "ops_of (sv\<lparr>sv_rpc := r\<rparr>) = ops_of sv" "ops_of (sv\<lparr>sv_replies := y\<rparr>) = ops_of sv" "ops_of (sv\<lparr>sv_sending := z\<rparr>) = ops_of sv"
  "ops_of (sv\<lparr>sv_caught := b\<rparr>) = ops_of sv" "ops_of (sv\<lparr>sv_errors := e\<rparr>) = ops_of sv"
  "ops_of (sv\<lparr>sv_pending := insert (i, op) P\<rparr>) j = (if j = i then insert op (ops_of (sv\<lparr>sv_pending := P\<rparr>) i) else ops_of (sv\<lparr>sv_pending := P\<rparr>) j)"
  "ops_of (sv\<lparr>sv_pending := sv_pending sv\<rparr>) = ops_of sv"
  by (auto simp: ops_of_def fun_eq_iff)

text \<open>A request is answered, left without an answer when an exception is lost, or given up without a thread.\<close>

lemma answered_inv:
  assumes "base_inv sv" "live_inv sv" "sv_calls sv i = Some c" "(i, OP_REQUEST) \<in> sv_pending sv" "cd_service c \<noteq> OPEN_CHANNEL"
  defines "sv1 \<equiv> new_call (cd_service c) (taken i OP_REQUEST sv)"
  shows "base_inv (finish_call i r (sv1\<lparr>sv_input := q\<rparr>)) \<and> live_inv (finish_call i r (sv1\<lparr>sv_input := q\<rparr>))" "base_inv sv1 \<and> live_inv sv1"
    "base_inv (thread_failed (cd_service c) (taken i OP_REQUEST sv))"
proof -
  have i: "i < sv_next sv" using base_invD(5) assms(1,3) .
  have fresh: "ops_of sv (sv_next sv) = {}" using base_invD(2) [OF assms(1)] by simp
  have req: "OP_REQUEST \<in> ops_of sv i" using assms(4) by (simp add: ops_of_def)
  have ok: "call_ok (ops_of sv i) c" using base_invD(3) assms(1,3) .
  have ops1: "ops_of sv1 j = (if j = i then ops_of sv i - {OP_REQUEST} else if j = sv_next sv then {OP_REQUEST} else ops_of sv j)" for j
    using i fresh assms(5) by (auto simp: sv1_def new_call_def Let_def ops_of_def taken_def)
  have calls1: "sv_calls sv1 = (sv_calls sv)(sv_next sv \<mapsto> \<lparr>cd_service = cd_service c, m_receive_status = listening (cd_service c), m_signer_id_b64 = []\<rparr>, i \<mapsto> c)"
    "sv_next sv1 = sv_next sv + 1" "sv_rpc sv1 = sv_rpc sv" "sv_sending sv1 = sv_sending sv" "sv_errors sv1 = sv_errors sv" "sv_caught sv1 = sv_caught sv"
    using i assms(3) by (auto simp: sv1_def new_call_def Let_def fun_eq_iff)
  have e: "sv_caught sv \<Longrightarrow> sv_errors sv \<noteq> 0" using base_invD(6) [OF assms(1)] by blast
  note R = request_inv [OF assms(1-3) req]
  show "base_inv sv1 \<and> live_inv sv1"
    by (rule R [where c = c]) (use i ok req assms(5) e in \<open>auto simp: ops1 calls1 call_ok_def\<close>)
  show "base_inv (finish_call i r (sv1\<lparr>sv_input := q\<rparr>)) \<and> live_inv (finish_call i r (sv1\<lparr>sv_input := q\<rparr>))"
    by (rule R [where c = "c\<lparr>m_receive_status := FINISH\<rparr>"])
      (use i ok req assms(5) e in \<open>auto simp: ops1 calls1 call_ok_def finish_call_def set_call_status_def\<close>)
  have "base_inv (sv1\<lparr>sv_caught := True, sv_errors := sv_errors sv + 1\<rparr>) \<and> live_inv (sv1\<lparr>sv_caught := True, sv_errors := sv_errors sv + 1\<rparr>)"
    by (rule R [where c = c]) (use i ok req assms(5) in \<open>auto simp: ops1 calls1 call_ok_def\<close>)
  then show "base_inv (thread_failed (cd_service c) (taken i OP_REQUEST sv))" by (simp add: thread_failed_def sv1_def)
qed

lemmas unary_defs = check_conn_proceed_def recv_from_merger_proceed_def recv_from_se_proceed_def signer_service_proceed_def recv_caught_proceed_def

lemma unary_step_inv:
  assumes "base_inv sv" "live_inv sv" "sv_calls sv i = Some c" "(i, op) \<in> sv_pending sv" "cd_service c \<noteq> OPEN_CHANNEL"
  shows "base_inv (proceed E pool True ev i (taken i op sv)) \<and> live_inv (proceed E pool True ev i (taken i op sv))"
proof -
  let ?sv = "taken i op sv"
  have op: "op \<in> ops_of sv i" using assms(4) by (simp add: ops_of_def)
  have ok: "call_ok (ops_of sv i) c" using base_invD(3) assms(1,3) .
  consider (request) "op = OP_REQUEST" "m_receive_status c = PROCESS" | (finish) "op = OP_FINISH" "m_receive_status c = FINISH"
    using ok op assms(5) by (cases op) (auto simp: call_ok_def)
  then show ?thesis
  proof cases
    case request
    note A = answered_inv [OF assms(1-3) assms(4) [unfolded request(1)] assms(5)]
    have same: "sv1\<lparr>sv_input := sv_input sv1\<rparr> = sv1" for sv1 :: MergerServer by simp
    show ?thesis
      using assms(3,5) request A A(1) [where q = "sv_input (new_call (cd_service c) ?sv)"]
      by (auto simp: proceed_def unary_defs Let_def same split: service.splits option.splits)
  next
    case finish
    then have "ops_of sv i - {OP_FINISH} = {}" "OP_REQUEST \<notin> ops_of sv i"
      using ok op assms(5) by (auto simp: call_ok_def) (metis rpc_op.exhaust)
    moreover have "proceed E pool True ev i ?sv = delete_call i ?sv"
      using assms(3,5) finish by (auto simp: proceed_def unary_defs split: service.splits)
    moreover have "streams_ok (delete_call i ?sv)"
      by (rule streams_ok_mono [OF base_invD(4) [OF assms(1)]]) (use finish assms(3) in \<open>auto split: if_splits\<close>)
    ultimately show ?thesis
      by (simp only:) (rule local_inv [OF assms(1-3), where oc = None]; use finish in auto)
  qed
qed

text \<open>A channel that got its identity is the receiver of its signer; a cancelled one disappears with its entry.\<close>

lemma stream_ok_update:
  assumes "stream_ok n m info" "m i = Some c0" "m_receive_status c0 \<noteq> WAIT \<or> oc = None"
  shows "stream_ok n (m(i := oc)) info"
  using assms unfolding stream_ok_def by (auto split: if_splits)

lemma published_streams:
  assumes "streams_ok sv" "sv_calls sv i = Some c" "m_receive_status c \<noteq> WAIT" "cd_service c = OPEN_CHANNEL" "i < sv_next sv"
    "sv_calls sv' = (sv_calls sv)(i \<mapsto> c\<lparr>m_signer_id_b64 := k, m_receive_status := WAIT\<rparr>)" "sv_rpc sv' = setReplyMsg k i i (sv_rpc sv)"
    "sv_next sv' = sv_next sv" "sv_sending sv' = sv_sending sv" "sv_errors sv' = sv_errors sv"
  shows "streams_ok sv'"
proof -
  have other: "send_msg info \<noteq> Some i" if "info \<in> ran (sv_rpc sv) \<union> set_option (sv_sending sv)" for info
    using that assms(1-3) by (auto simp: streams_ok_def stream_ok_def)
  have "stream_ok (sv_next sv') (sv_calls sv') info" if "info \<in> ran (sv_rpc sv') \<union> set_option (sv_sending sv')" for info
  proof (cases "info = \<lparr>tag_identity = Some i, send_msg = Some i\<rparr>")
    case True
    then show ?thesis using assms by (simp add: stream_ok_def)
  next
    case False
    then have "info \<in> ran (sv_rpc sv) \<union> set_option (sv_sending sv)"
      using that assms(7,9) by (auto simp: setReplyMsg_def ran_def split: if_splits)
    then have "stream_ok (sv_next sv) (sv_calls sv) info" using assms(1) unfolding streams_ok_def by blast
    then show ?thesis using stream_ok_update [of "sv_next sv" "sv_calls sv" info i c] assms(2,3,6,8) by simp
  qed
  moreover have "streams_live (sv_errors sv' = 0) (sv_calls sv') (sv_rpc sv')"
    using assms(1) other unfolding streams_live_def streams_ok_def assms(6,7,10)
    by (auto simp: setReplyMsg_def ran_def split: if_splits)
  ultimately show ?thesis unfolding streams_ok_def by blast
qed

lemma erased_streams:
  assumes "streams_ok sv" "sv_calls sv i = Some c"
    "sv_calls sv' = (sv_calls sv)(i := None)" "sv_rpc sv' = eraseRpcInfo (m_signer_id_b64 c) (sv_rpc sv)"
    "sv_next sv' = sv_next sv" "sv_sending sv' = sv_sending sv" "sv_errors sv' = sv_errors sv"
  shows "streams_ok sv'"
proof -
  have "stream_ok (sv_next sv') (sv_calls sv') info" if "info \<in> ran (sv_rpc sv') \<union> set_option (sv_sending sv')" for info
  proof -
    have "info \<in> ran (sv_rpc sv) \<union> set_option (sv_sending sv)"
      using that assms(4,6) by (auto simp: eraseRpcInfo_def ran_def split: if_splits)
    then have "stream_ok (sv_next sv) (sv_calls sv) info" using assms(1) unfolding streams_ok_def by blast
    then show ?thesis using stream_ok_update [of "sv_next sv" "sv_calls sv" info i c] assms(2,3,5) by simp
  qed
  moreover have "streams_live (sv_errors sv' = 0) (sv_calls sv') (sv_rpc sv')"
    using assms(1,2) unfolding streams_live_def streams_ok_def assms(3,4,7)
    by (auto simp: eraseRpcInfo_def split: if_splits)
  ultimately show ?thesis unfolding streams_ok_def by blast
qed

lemma channel_step_inv:
  assumes "base_inv sv" "live_inv sv" "sv_calls sv i = Some c" "(i, op) \<in> sv_pending sv" "cd_service c = OPEN_CHANNEL"
    "op = OP_DONE \<longrightarrow> (i, OP_REQUEST) \<notin> sv_pending sv" "ev_cancelled ev \<longrightarrow> op = OP_DONE \<or> (i, OP_DONE) \<notin> sv_pending sv"
    "op = OP_WRITE \<longrightarrow> (i, OP_DONE) \<in> sv_pending sv"
  shows "base_inv (proceed E pool True ev i (taken i op sv)) \<and> live_inv (proceed E pool True ev i (taken i op sv))"
proof -
  let ?sv = "taken i op sv"
  have op: "op \<in> ops_of sv i" using assms(4) by (simp add: ops_of_def)
  have ok: "call_ok (ops_of sv i) c" using base_invD(3) assms(1,3) .
  have i: "i < sv_next sv" using base_invD(5) assms(1,3) .
  have e: "sv_caught sv \<Longrightarrow> sv_errors sv \<noteq> 0" using base_invD(6) [OF assms(1)] by blast
  have step: "proceed E pool True ev i ?sv = open_channel_proceed ev i c ?sv" using assms(3,5) by (simp add: proceed_def)
  have st: "m_receive_status c = READ \<longleftrightarrow> op = OP_REQUEST" "m_receive_status c \<in> {READ, PROCESS, WAIT}"
    using ok op assms(5,6) by (cases op; auto simp: call_ok_def ops_of_def)+
  consider "m_receive_status c = READ" | "m_receive_status c = PROCESS" | "m_receive_status c = WAIT" using st by auto
  then show ?thesis
  proof cases
    case 1
    have fresh: "ops_of sv (sv_next sv) = {}" using base_invD(2) [OF assms(1)] by simp
    have req: "OP_REQUEST \<in> ops_of sv i" using op st 1 by simp
    show ?thesis
      unfolding step
      by (rule request_inv [OF assms(1-3) req, where c = "c\<lparr>m_receive_status := PROCESS\<rparr>"])
        (use i ok req fresh assms(3,5) 1 st e in
          \<open>auto simp: call_ok_def open_channel_proceed_def set_call_status_def new_call_def Let_def ops_of_def taken_def\<close>)
  next
    case 2
    let ?c = "c\<lparr>m_signer_id_b64 := ev_sender ev, m_receive_status := WAIT\<rparr>"
    have "streams_ok (open_channel_proceed ev i c ?sv)"
      by (rule published_streams [OF base_invD(4) [OF assms(1)] assms(3) _ assms(5) i, of _ "ev_sender ev"]) (simp_all add: open_channel_proceed_def 2)
    moreover have "OP_REQUEST \<notin> ops_of sv i" "call_ok (ops_of sv i - {op}) ?c"
      using ok op assms(5) 2 by (cases op; auto simp: call_ok_def)+
    ultimately show ?thesis
      unfolding step by (intro local_inv [OF assms(1-3), where oc = "Some ?c"]) (auto simp: open_channel_proceed_def 2)
  next
    case 3
    have no: "OP_REQUEST \<notin> ops_of sv i" using ok assms(5) 3 by (auto simp: call_ok_def)
    show ?thesis
    proof (cases "ev_cancelled ev")
      case True
      have "ops_of sv i - {op} \<subseteq> {OP_WRITE}"
      proof -
        have "x \<in> {OP_READ, OP_DONE, OP_WRITE}" if "x \<in> ops_of sv i" for x using that ok assms(5) 3 by (cases x) (auto simp: call_ok_def)
        then show ?thesis using ok op assms(5,7,8) 3 True by (auto simp: call_ok_def ops_of_def)
      qed
      moreover have "streams_ok (open_channel_proceed ev i c ?sv)"
        by (rule erased_streams [OF base_invD(4) [OF assms(1)] assms(3)]) (simp_all add: open_channel_proceed_def delete_call_def 3 True)
      ultimately show ?thesis
        unfolding step using no
        by (intro local_inv [OF assms(1-3), where oc = None]) (auto simp: open_channel_proceed_def delete_call_def 3 True)
    next
      case False
      have "(sv_calls sv)(i \<mapsto> c) = sv_calls sv" using assms(3) by auto
      moreover have "streams_ok ?sv" using base_invD(4) [OF assms(1)] by (simp add: streams_ok_def)
      ultimately show ?thesis
        unfolding step using no ok assms(3,5) 3 False
        by (intro local_inv [OF assms(1-3), where oc = "Some c"]) (auto simp: open_channel_proceed_def call_ok_def)
    qed
  qed
qed

text \<open>The server starts, or starts again after an error: no operation is pending.\<close>

lemma start_inv:
  assumes "\<forall>i \<ge> sv_next sv. sv_calls sv i = None" "\<forall>i c. sv_calls sv i = Some c \<longrightarrow> call_ok {} c" "streams_ok sv" "sv_pending sv = {}" "\<not> sv_caught sv"
  shows "base_inv (runServer sv) \<and> live_inv (runServer sv)"
proof -
  let ?sv = "runServer sv" and ?n = "sv_next sv"
  let ?new = "\<lambda>k. \<lparr>cd_service = k, m_receive_status = listening k, m_signer_id_b64 = []\<rparr>"
  have calls: "sv_calls ?sv = (sv_calls sv)(?n \<mapsto> ?new CHECK_CONN, ?n + 1 \<mapsto> ?new RECV_FROM_MERGER, ?n + 2 \<mapsto> ?new RECV_FROM_SE,
      ?n + 3 \<mapsto> ?new OPEN_CHANNEL, ?n + 4 \<mapsto> ?new SIGNER_SERVICE)"
    "sv_next ?sv = ?n + 5" "sv_rpc ?sv = sv_rpc sv" "sv_sending ?sv = sv_sending sv" "sv_errors ?sv = sv_errors sv" "sv_caught ?sv = sv_caught sv"
    by (simp_all add: runServer_def new_call_def Let_def numeral_eq_Suc)
  have pending: "sv_pending ?sv = {(?n, OP_REQUEST), (?n + 1, OP_REQUEST), (?n + 2, OP_REQUEST), (?n + 3, OP_REQUEST), (?n + 3, OP_DONE), (?n + 4, OP_REQUEST)}"
    using assms(4) by (auto simp: runServer_def new_call_def Let_def numeral_eq_Suc)
  have "listeners ?sv k = {?n + (case k of CHECK_CONN \<Rightarrow> 0 | RECV_FROM_MERGER \<Rightarrow> 1 | RECV_FROM_SE \<Rightarrow> 2 | OPEN_CHANNEL \<Rightarrow> 3 | SIGNER_SERVICE \<Rightarrow> 4)}" for k
    by (cases k) (auto simp: listeners_def calls pending)
  moreover have "streams_ok ?sv"
    by (rule streams_ok_mono [OF assms(3)]) (use assms(1) in \<open>auto simp: calls split: if_splits\<close>)
  moreover have "call_ok (ops_of ?sv i) c" if "sv_calls ?sv i = Some c" for i c
  proof (cases "i < ?n")
    case True
    then have "ops_of ?sv i = {}" by (auto simp: ops_of_def pending)
    then show ?thesis using that True assms(2) by (simp add: calls)
  next
    case False
    then show ?thesis using that assms(1) by (auto simp: calls pending ops_of_def call_ok_def listening_def split: if_splits)
  qed
  ultimately show ?thesis
    unfolding base_inv_def live_inv_def using assms(1,5) by (auto simp: calls pending ops_of_def split: if_splits)
qed

lemma failed_inv:
  assumes "base_inv sv" "live_inv sv" "op = OP_READ \<or> op = OP_WRITE \<or> op = OP_FINISH"
  shows "base_inv (taken i op sv) \<and> live_inv (taken i op sv)"
proof -
  have "listeners (taken i op sv) k = listeners sv k" for k
    using assms(3) by (auto simp: listeners_def taken_def)
  moreover have "call_ok (ops_of sv i - {op}) c" if "sv_calls sv i = Some c" for c
    using base_invD(3) [OF assms(1) that] assms(3) by (auto simp: call_ok_def)
  moreover have "streams_ok (taken i op sv)" using base_invD(4) [OF assms(1)] by (simp add: streams_ok_def)
  moreover have "ops_of (taken i op sv) j \<subseteq> ops_of sv j" for j by auto
  ultimately show ?thesis
    using base_invD [OF assms(1)] assms(2) unfolding base_inv_def live_inv_def by (auto; blast)
qed

text \<open>While an error is handled, objects are only deleted.\<close>

lemma drained_inv:
  assumes "base_inv sv" "sv_caught sv" "sv_calls sv i \<noteq> None"
  shows "base_inv (proceed E pool False ev i (taken i op sv))"
proof -
  have step: "proceed E pool False ev i (taken i op sv) = delete_call i (taken i op sv)" using assms(3) by (auto simp: proceed_def)
  have "streams_ok (delete_call i (taken i op sv))"
    by (rule streams_ok_mono [OF base_invD(4) [OF assms(1)]])
      (use base_invD(6) [OF assms(1,2)] in \<open>auto split: if_splits\<close>)
  then show ?thesis
    unfolding step using base_invD [OF assms(1)] by (auto simp: base_inv_def split: if_splits)
qed

text \<open>The sending thread changes the receiver list, its own variable and the pending writes only.\<close>

lemma looked_up_inv:
  assumes "server_inv sv"
  shows "server_inv (look_up_stream E r sv)"
proof -
  obtain info l where g: "getSignerRpcInfo E r (sv_rpc sv) = (info, l)" by fastforce
  have info: "l = (sv_rpc sv)(encodeBase64 E r \<mapsto> info)" "sv_rpc sv (encodeBase64 E r) = Some info \<or> send_msg info = None"
    using g by (auto simp: getSignerRpcInfo_def Let_def split: option.splits)
  have S: "streams_ok sv" using assms by (simp add: server_inv_def base_inv_def)
  have old: "stream_ok (sv_next sv) (sv_calls sv) info'" if "info' \<in> ran (sv_rpc sv)" for info'
    using S that by (simp add: streams_ok_def)
  have "stream_ok (sv_next sv) (sv_calls sv) info" using info(2) old [of info] by (auto simp: ran_def stream_ok_def)
  then have "stream_ok (sv_next sv) (sv_calls sv) info'" if "info' \<in> ran l \<union> {info}" for info'
    using that old [of info'] unfolding info(1) by (auto simp: ran_def split: if_splits)
  moreover have "streams_live (sv_errors sv = 0) (sv_calls sv) l"
    using S info(2) unfolding info(1) streams_ok_def streams_live_def by (auto split: if_splits)
  ultimately have "streams_ok (look_up_stream E r sv)" by (simp add: look_up_stream_def g streams_ok_def)
  moreover have "listeners (sv\<lparr>sv_rpc := a, sv_sending := b\<rparr>) k = listeners sv k" for k a b by (simp add: listeners_def)
  ultimately show ?thesis using assms by (simp add: server_inv_def base_inv_def live_inv_def look_up_stream_def g)
qed

lemma sent_inv:
  assumes "server_inv sv" "sv_sending sv = Some info" "send_msg info = Some stream" "tag_identity info = Some i" "sv_calls sv stream \<noteq> None"
  shows "server_inv (write_stream i sv)"
proof -
  have base: "base_inv sv" using assms(1) by (simp add: server_inv_def)
  obtain c where c: "stream = i" "sv_calls sv i = Some c" "cd_service c = OPEN_CHANNEL" "m_receive_status c = WAIT"
    using base_invD(4) [OF base] assms(2-5) by (auto simp: streams_ok_def stream_ok_def)
  have ops: "ops_of (write_stream i sv) j = (if j = i then insert OP_WRITE (ops_of sv i) else ops_of sv j)" for j
    by (simp add: write_stream_def)
  have "listeners (write_stream i sv) k = listeners sv k" for k by (auto simp: listeners_def write_stream_def)
  moreover have "streams_ok (write_stream i sv)"
    using base_invD(4) [OF base] by (simp add: write_stream_def streams_ok_def)
  moreover have "call_ok (insert OP_WRITE (ops_of sv i)) c" using base_invD(3) [OF base c(2)] c(3,4) by (auto simp: call_ok_def)
  moreover have frame: "sv_calls (write_stream i sv) = sv_calls sv" "sv_next (write_stream i sv) = sv_next sv"
    "sv_caught (write_stream i sv) = sv_caught sv" "sv_errors (write_stream i sv) = sv_errors sv"
    by (simp_all add: write_stream_def)
  moreover have "i < sv_next sv" using base_invD(5) [OF base c(2)] .
  ultimately show ?thesis
    using assms(1) c(2) base_invD [OF base] unfolding server_inv_def base_inv_def live_inv_def by (auto simp: ops)
qed

lemma serving_inv: "serving E sv \<Longrightarrow> server_inv sv"
proof (induction rule: serving.induct)
  case (start sv)
  have "\<not> sv_caught (runServer sv)" using start by (simp add: runServer_def new_call_def Let_def)
  moreover have "sv_sending sv = None \<Longrightarrow> streams_ok sv" using start by (simp add: streams_ok_def streams_live_def)
  ultimately show ?case using start_inv [of sv] start by (auto simp: server_inv_def)
next
  case (complete sv i op ev pool)
  then obtain c where c: "sv_calls sv i = Some c" by blast
  have inv: "base_inv sv" "live_inv sv" using complete.IH complete(2) by (auto simp: server_inv_def)
  show ?case
    using channel_step_inv [OF inv c] unary_step_inv [OF inv c] complete unfolding server_inv_def by blast
next
  case (failed sv i op)
  then show ?case using failed_inv [of sv op i] by (auto simp: server_inv_def)
next
  case (caught sv i c)
  then have "base_inv (thread_failed (cd_service c) (taken i OP_REQUEST sv))"
    by (intro answered_inv(3)) (auto simp: server_inv_def)
  then show ?case by (simp add: server_inv_def thread_failed_def)
next
  case (drained sv i op pool ev)
  have "sv_caught (proceed E pool False ev i (taken i op sv))" using drained by (auto simp: proceed_def delete_call_def)
  then show ?case using drained drained_inv [of sv i E pool ev op] by (simp add: server_inv_def)
next
  case (restart sv)
  have base: "base_inv sv" using restart.IH by (simp add: server_inv_def)
  have "ops_of sv i = {}" for i using restart by (simp add: ops_of_def)
  then have "base_inv (restarted sv) \<and> live_inv (restarted sv)"
    unfolding restarted_def using restart base_invD [OF base] by (intro start_inv) (auto simp: streams_ok_def)
  then show ?case by (simp add: server_inv_def)
next
  case (looked_up sv r)
  then show ?case by (intro looked_up_inv)
next
  case (sent sv info stream i)
  then show ?case by (intro sent_inv)
next
  case (consumed sv q)
  have "listeners (sv\<lparr>sv_input := q\<rparr>) k = listeners sv k" for k by (simp add: listeners_def)
  then show ?case using consumed.IH by (simp add: server_inv_def base_inv_def live_inv_def streams_ok_def)
qed

section \<open>Properties\<close>

text \<open>C12. In every run of the server, whatever the order of the events, failed operations, writes of the sending thread and
  errors of the loop. Outside the branch that handles an error, each of the five services has exactly one call that waits
  for a request, and every operation the queue has still to report, except a write, belongs to an object that has not been
  deleted (for writes this fails, as the next theorem shows). Always, a stream of the receiver list is its own tag, and if its object is live, it is
  a channel that waits and belongs to the signer it is listed for; as long as no error was caught, it is live.
\<close>

theorem one_listener_no_dangling:
  assumes "serving E sv"
  shows "(\<not> sv_caught sv \<longrightarrow> (\<exists>!i. i \<in> listeners sv k) \<and> ((i, op) \<in> sv_pending sv \<and> op \<noteq> OP_WRITE \<longrightarrow> sv_calls sv i \<noteq> None)) \<and>
    (sv_rpc sv signer = Some info \<and> send_msg info = Some stream \<longrightarrow>
       tag_identity info = Some stream \<and> (sv_errors sv = 0 \<longrightarrow> sv_calls sv stream \<noteq> None) \<and>
       (\<forall>c. sv_calls sv stream = Some c \<longrightarrow> cd_service c = OPEN_CHANNEL \<and> m_receive_status c = WAIT \<and> m_signer_id_b64 c = signer))"
proof -
  have inv: "base_inv sv" "\<not> sv_caught sv \<longrightarrow> live_inv sv" using serving_inv [OF assms] by (simp_all add: server_inv_def)
  have S: "stream_ok (sv_next sv) (sv_calls sv) info" if "sv_rpc sv signer = Some info"
    using base_invD(4) [OF inv(1)] that by (auto simp: streams_ok_def ran_def)
  have "(\<exists>!i. i \<in> listeners sv k) \<and> ((i, op) \<in> sv_pending sv \<and> op \<noteq> OP_WRITE \<longrightarrow> sv_calls sv i \<noteq> None)" if live: "live_inv sv"
  proof
    obtain j where "listeners sv k = {j}" using live unfolding live_inv_def by blast
    then show "\<exists>!i. i \<in> listeners sv k" by simp
    show "(i, op) \<in> sv_pending sv \<and> op \<noteq> OP_WRITE \<longrightarrow> sv_calls sv i \<noteq> None" using that by (auto simp: live_inv_def ops_of_def)
  qed
  then show ?thesis
    using inv(2) S base_invD(4) [OF inv(1)] by (auto simp: streams_ok_def streams_live_def stream_ok_def)
qed

text \<open>C26. A channel is deleted under its own write. In every run, when the queue reports the end of a signer's call while a
  write of \<open>sendToSigner\<close> on its stream is outstanding: the channel queues \<open>MSG_LEAVE\<close>, erases its entry and deletes itself, and
  the queue still holds the write, whose tag is the deleted object. The sending thread keeps what it has looked up, too, so
  a write that it starts next uses the deleted stream.\<close>

theorem channel_deleted_under_write:
  assumes "serving E sv" "\<not> sv_caught sv" "sv_calls sv i = Some c" "(i, OP_WRITE) \<in> sv_pending sv" "(i, OP_DONE) \<in> sv_pending sv"
    "length (sv_input sv) < AVAILABLE_INPUT_SIZE" "ev_cancelled ev" "sv' = proceed E pool True ev i (taken i OP_DONE sv)"
  shows "serving E sv' \<and> sv_calls sv' i = None \<and> (i, OP_WRITE) \<in> sv_pending sv' \<and>
    sv_rpc sv' = eraseRpcInfo (m_signer_id_b64 c) (sv_rpc sv) \<and> sv_sending sv' = sv_sending sv \<and>
    sv_input sv' = genInternalMsg (ev_now ev) MSG_LEAVE (m_signer_id_b64 c) (sv_input sv)"
proof -
  have "call_ok (ops_of sv i) c" using serving_inv [OF assms(1)] assms(3) by (auto simp: server_inv_def intro: base_invD(3))
  then have c: "cd_service c = OPEN_CHANNEL" "m_receive_status c = WAIT" "(i, OP_REQUEST) \<notin> sv_pending sv"
    using assms(4) by (auto simp: call_ok_def ops_of_def split: if_splits)
  have "serving E sv'"
    unfolding assms(8) using assms(3,7) c(3) by (intro serving.complete [OF assms(1,2,5) _ assms(6)]) auto
  moreover have "sv' = delete_call i ((taken i OP_DONE sv)\<lparr>sv_input := genInternalMsg (ev_now ev) MSG_LEAVE (m_signer_id_b64 c) (sv_input sv),
      sv_rpc := eraseRpcInfo (m_signer_id_b64 c) (sv_rpc sv)\<rparr>)"
    using assms(3,7,8) c by (simp add: proceed_def open_channel_proceed_def)
  ultimately show ?thesis using assms(4) by (simp add: delete_call_def taken_def)
qed

text \<open>While an error of the loop is handled, objects are deleted and their streams stay in the receiver list, also after the
  restart.\<close>

lemma restart_leaves_stream:
  assumes "serving E sv" "sv_caught sv" "sv_rpc sv signer = Some info" "send_msg info = Some i" "sv_calls sv i \<noteq> None" "(i, op) \<in> sv_pending sv"
    "sv' = proceed E pool False ev i (taken i op sv)"
  shows "serving E sv' \<and> sv_calls sv' i = None \<and> sv_rpc sv' signer = Some info" "sv_rpc (restarted sv') signer = Some info"
proof -
  have "sv' = delete_call i (taken i op sv)" using assms(5,7) by (auto simp: proceed_def)
  then show "serving E sv' \<and> sv_calls sv' i = None \<and> sv_rpc sv' signer = Some info" "sv_rpc (restarted sv') signer = Some info"
    using serving.drained [OF assms(1,2,6,5), of pool ev] assms(3,7) by (simp_all add: restarted_def runServer_def new_call_def Let_def)
qed

section \<open>Witnesses\<close>

definition server_w :: MergerServer where
  "server_w = runServer \<lparr>sv_calls = Map.empty, sv_next = 0, sv_pending = {}, sv_input = [], sv_rpc = Map.empty, sv_replies = [],
     sv_sending = None, sv_caught = False, sv_errors = 0\<rparr>"

definition event_w :: "bool \<Rightarrow> rpc_event" where
  "event_w b = \<lparr>ev_data = [], ev_sender = encodeBase64 ext0 [9], ev_cancelled = b, ev_now = 0\<rparr>"

definition complete_w :: "nat \<Rightarrow> rpc_op \<Rightarrow> MergerServer \<Rightarrow> MergerServer" where
  "complete_w i op sv = proceed ext0 [] True (event_w False) i (taken i op sv)"

text \<open>A signer opens its channel, and a message is being written to it.\<close>

definition opened_w :: MergerServer where
  "opened_w = complete_w 3 OP_READ (complete_w 3 OP_REQUEST server_w)"

definition writing_w :: MergerServer where
  "writing_w = write_stream 3 (look_up_stream ext0 [9] opened_w)"

lemmas server_w_defs = opened_w_def server_w_def complete_w_def event_w_def runServer_def new_call_def listening_def proceed_def
  open_channel_proceed_def set_call_status_def setReplyMsg_def taken_def Let_def

lemma opened_w_serving: "serving ext0 opened_w"
  unfolding complete_w_def opened_w_def
proof (rule serving.complete, rule serving.complete)
  show "serving ext0 server_w" unfolding server_w_def by (rule serving.start) simp_all
qed (simp_all add: server_w_defs AVAILABLE_INPUT_SIZE_def)

lemma opened_w_state: "sv_rpc opened_w (encodeBase64 ext0 [9]) = Some \<lparr>tag_identity = Some 3, send_msg = Some 3\<rparr>"
  "sv_calls opened_w 3 = Some \<lparr>cd_service = OPEN_CHANNEL, m_receive_status = WAIT, m_signer_id_b64 = encodeBase64 ext0 [9]\<rparr>"
  "(3, OP_DONE) \<in> sv_pending opened_w" "(3, OP_WRITE) \<notin> sv_pending opened_w" "sv_input opened_w = []" "\<not> sv_caught opened_w" "sv_errors opened_w = 0"
  by (simp_all add: server_w_defs)

lemma writing_w_serving: "serving ext0 writing_w"
  unfolding writing_w_def
  by (rule serving.sent [OF serving.looked_up [OF opened_w_serving], where info = "\<lparr>tag_identity = Some 3, send_msg = Some 3\<rparr>" and stream = 3])
    (simp_all add: look_up_stream_def getSignerRpcInfo_def Let_def opened_w_state)

theorem one_listener_no_dangling_witness:
  "(\<exists>!i. i \<in> listeners writing_w OPEN_CHANNEL) \<and> (\<exists>c. sv_calls writing_w 3 = Some c \<and> m_signer_id_b64 c = encodeBase64 ext0 [9])"
proof -
  have "sv_rpc writing_w (encodeBase64 ext0 [9]) = Some \<lparr>tag_identity = Some 3, send_msg = Some 3\<rparr>" "\<not> sv_caught writing_w" "sv_errors writing_w = 0"
    by (simp_all add: writing_w_def write_stream_def look_up_stream_def getSignerRpcInfo_def Let_def opened_w_state)
  with one_listener_no_dangling [OF writing_w_serving, of OPEN_CHANNEL 3 OP_DONE "encodeBase64 ext0 [9]" "\<lparr>tag_identity = Some 3, send_msg = Some 3\<rparr>" 3]
  show ?thesis by auto
qed

theorem channel_deleted_under_write_witness:
  "\<exists>sv. serving ext0 sv \<and> sv_errors sv = 0 \<and> sv_calls sv 3 = None \<and> (3, OP_WRITE) \<in> sv_pending sv"
proof -
  have w: "sv_calls writing_w 3 = Some \<lparr>cd_service = OPEN_CHANNEL, m_receive_status = WAIT, m_signer_id_b64 = encodeBase64 ext0 [9]\<rparr>"
    "\<not> sv_caught writing_w" "(3, OP_WRITE) \<in> sv_pending writing_w" "(3, OP_DONE) \<in> sv_pending writing_w" "sv_errors writing_w = 0" "sv_input writing_w = []"
    by (simp_all add: writing_w_def write_stream_def look_up_stream_def getSignerRpcInfo_def Let_def opened_w_state)
  have "sv_errors (proceed ext0 [] True (event_w True) 3 (taken 3 OP_DONE writing_w)) = 0"
    using w by (simp add: proceed_def open_channel_proceed_def event_w_def)
  with channel_deleted_under_write [OF writing_w_serving w(2,1,3,4) _ _ refl, of "event_w True" "[]"] w(6)
  show ?thesis by (auto simp: AVAILABLE_INPUT_SIZE_def event_w_def)
qed

end
