(* ===== verification/Signer_Join.thy ===== *)
theory Signer_Join
  imports Message_Validator
begin

text \<open>
  The join protocol of signers (\<open>src/services/signer_pool_manager.cpp\<close>, \<open>src/utils/hmac_key_maker.hpp\<close>):
  \<open>MSG_JOIN\<close> is answered by a challenge with a nonce, \<open>MSG_RESPONSE_1\<close> carries the signature of the signer over
  the nonces and its ECDH point and is answered by the point of the merger, and \<open>MSG_SUCCESS\<close> makes
  the signer a good one.

  ECDH is the parameter \<open>dh_ext\<close>. The random numbers and the clock reading of a message are its event.
  The readings of one handler are taken as one. A null pointer or an exception is \<^const>\<open>None\<close>.
\<close>

section \<open>Key agreement\<close>

text \<open>The hexadecimal form of the public point of a secret (uncompressed, with its tag), the decoder, and the
  key derivation, which throws when the point is not on the curve.\<close>

record dh_ext =
  dh_point_hex :: "bytes \<Rightarrow> string"
  hex_decode :: "string \<Rightarrow> bytes option"
  dh_derive :: "bytes \<Rightarrow> bytes \<Rightarrow> bytes \<Rightarrow> bytes option"

definition getPublicKey :: "dh_ext \<Rightarrow> bytes \<Rightarrow> string \<times> string" where
  "getPublicKey D secret_key =
     (let uncomp_point = dh_point_hex D secret_key;
          point_len = (length uncomp_point - 2) div 2
      in (take point_len (drop 2 uncomp_point), drop (point_len + 2) uncomp_point))"

text \<open>The coordinates are decoded outside the \<open>try\<close> block.\<close>

definition getSharedSecretKey :: "dh_ext \<Rightarrow> bytes \<Rightarrow> string \<Rightarrow> string \<Rightarrow> bytes option" where
  "getSharedSecretKey D secret_key x y = do {
     px \<leftarrow> hex_decode D x;
     py \<leftarrow> hex_decode D y;
     Some (case dh_derive D secret_key px py of Some ssk \<Rightarrow> ssk | None \<Rightarrow> []) }"

section \<open>State\<close>

record JoinTemporaryData =
  merger_nonce :: string
  signer_cert :: string
  shared_secret_key :: bytes
  start_time :: timestamp_t
  join_lock :: bool

record SignerPoolManager =
  m_join_temp_table :: "string \<rightharpoonup> JoinTemporaryData"
  m_signer_pool :: SignerPool
  m_output_queue :: "OutputMsgEntry list"

record join_event =
  ev_now :: u64
  ev_nonce :: bytes
  ev_secret :: bytes
  ev_msg :: InputMsgEntry

section \<open>Helpers of the handler\<close>

definition isJoinable :: "SignerPoolManager \<Rightarrow> bool" where
  "isJoinable s \<longleftrightarrow> MAX_SIGNER_NUM > length (m_signer_pool s)"

definition isTimeout :: "u64 \<Rightarrow> string \<Rightarrow> SignerPoolManager \<Rightarrow> bool option" where
  "isTimeout now signer_id_b64 s =
     map_option (\<lambda>d. now - start_time d > JOIN_TIMEOUT_SEC) (m_join_temp_table s signer_id_b64)"

definition send_out :: "OutputMsgEntry \<Rightarrow> SignerPoolManager \<Rightarrow> SignerPoolManager" where
  "send_out m s = s\<lparr>m_output_queue := deliverOutputMessage m (m_output_queue s)\<rparr>"

definition sendErrorMessage :: "ext \<Rightarrow> Setting \<Rightarrow> u64 \<Rightarrow> signer_id_type \<Rightarrow> ErrorMsgType \<Rightarrow> string \<Rightarrow> SignerPoolManager \<Rightarrow> SignerPoolManager" where
  "sendErrorMessage E st now recv_id error_type info s =
     send_out \<lparr>out_type = MSG_ERROR, out_body = json_obj
       [(''sender'', JStr (encodeBase64 E (m_id st))), (''time'', JStr (to_string (unat now))),
        (''type'', JStr (to_string (error_code error_type))), (''info'', JStr info)], receivers = [recv_id]\<rparr> s"

definition join_message :: "ext \<Rightarrow> string \<Rightarrow> json \<Rightarrow> bytes option" where
  "join_message E nonce body = do {
     b1 \<leftarrow> appendHex (getStringK body ''dhx'') (appendB64 E (getStringK body ''sN'') (appendB64 E nonce bb_new));
     b2 \<leftarrow> appendHex (getStringK body ''dhy'') b1;
     b3 \<leftarrow> appendDec (getStringK body ''time'') b2;
     Some (getBytes b3) }"

text \<open>The entry is looked up under the id encoded again.\<close>

definition verifySignature :: "ext \<Rightarrow> signer_id_type \<Rightarrow> json \<Rightarrow> SignerPoolManager \<Rightarrow> bool option" where
  "verifySignature E signer_id body s = do {
     d \<leftarrow> m_join_temp_table s (encodeBase64 E signer_id);
     msg \<leftarrow> join_message E (merger_nonce d) body;
     Some (doVerify E (getStringK body ''cert'') msg (getBytesFromB64 E body ''sig'')) }"

definition signMessage :: "ext \<Rightarrow> Setting \<Rightarrow> string \<Rightarrow> string \<Rightarrow> string \<Rightarrow> string \<Rightarrow> timestamp_t \<Rightarrow> string option" where
  "signMessage E st nonce signer_nonce dhx dhy timestamp = do {
     b1 \<leftarrow> appendHex dhx (appendB64 E signer_nonce (appendB64 E nonce bb_new));
     b2 \<leftarrow> appendHex dhy b1;
     Some (encodeBase64 E (doSign E (m_sk st) (getBytes (append_u64 timestamp b2)) (m_sk_pass st))) }"

section \<open>The handler\<close>

definition handle_join :: "ext \<Rightarrow> Setting \<Rightarrow> u64 \<Rightarrow> bytes \<Rightarrow> string \<Rightarrow> signer_id_type \<Rightarrow> SignerPoolManager \<Rightarrow> SignerPoolManager" where
  "handle_join E st now nonce recv_id_b64 recv_id s =
     (if \<not> isJoinable s then sendErrorMessage E st now recv_id ECDH_MAX_SIGNER_POOL [] s
      else send_out \<lparr>out_type = MSG_CHALLENGE, out_body = json_obj
             [(''mID'', JStr (encodeBase64 E (m_id st))), (''time'', JStr (to_string (unat now))),
              (''mN'', JStr (encodeBase64 E nonce))], receivers = [recv_id]\<rparr>
           (s\<lparr>m_join_temp_table := (m_join_temp_table s)(recv_id_b64 \<mapsto>
              \<lparr>merger_nonce = encodeBase64 E nonce, signer_cert = [], shared_secret_key = [], start_time = now,
               join_lock = True\<rparr>)\<rparr>))"

definition set_join :: "string \<Rightarrow> (JoinTemporaryData \<Rightarrow> JoinTemporaryData) \<Rightarrow> SignerPoolManager \<Rightarrow> SignerPoolManager" where
  "set_join k f s = s\<lparr>m_join_temp_table := (m_join_temp_table s)(k := map_option f (m_join_temp_table s k))\<rparr>"

definition handle_response :: "ext \<Rightarrow> dh_ext \<Rightarrow> Setting \<Rightarrow> u64 \<Rightarrow> bytes \<Rightarrow> string \<Rightarrow> signer_id_type \<Rightarrow> json \<Rightarrow> SignerPoolManager \<Rightarrow> SignerPoolManager option" where
  "handle_response E D st now secret recv_id_b64 recv_id body s =
     (case m_join_temp_table s recv_id_b64 of
        None \<Rightarrow> Some (sendErrorMessage E st now recv_id ECDH_ILLEGAL_ACCESS [] s)
      | Some d \<Rightarrow> do {
          late \<leftarrow> isTimeout now recv_id_b64 s;
          if late then Some (sendErrorMessage E st now recv_id ECDH_TIMEOUT ''too late MSG_RESPONSE_1'' s)
          else do {
            ok \<leftarrow> verifySignature E recv_id body s;
            if \<not> ok then Some (sendErrorMessage E st now recv_id ECDH_INVALID_SIG [] s)
            else do {
              let cert = getStringK body ''cert'';
              let s1 = set_join recv_id_b64 (\<lambda>d. d\<lparr>signer_cert := cert\<rparr>) s;
              let (dhx, dhy) = getPublicKey D secret;
              ssk \<leftarrow> getSharedSecretKey D secret (getStringK body ''dhx'') (getStringK body ''dhy'');
              if ssk = [] then Some (sendErrorMessage E st now recv_id ECDH_INVALID_PK [] s1)
              else do {
                let s2 = set_join recv_id_b64 (\<lambda>d. d\<lparr>shared_secret_key := ssk\<rparr>) s1;
                sig \<leftarrow> signMessage E st (merger_nonce d) (getStringK body ''sN'') dhx dhy now;
                let s3 = send_out \<lparr>out_type = MSG_RESPONSE_2, out_body = json_obj
                  [(''mID'', JStr (encodeBase64 E (m_id st))), (''time'', JStr (to_string (unat now))),
                   (''cert'', JStr (m_cert st)), (''dhx'', JStr dhx), (''dhy'', JStr dhy), (''sig'', JStr sig)],
                  receivers = [recv_id]\<rparr> s2;
                Some (set_join recv_id_b64 (\<lambda>d. d\<lparr>join_lock := False\<rparr>)
                  (s3\<lparr>m_signer_pool := pushSigner now recv_id cert ssk TEMPORARY (m_signer_pool s3)\<rparr>)) } } } })"

definition handle_success :: "ext \<Rightarrow> Setting \<Rightarrow> u64 \<Rightarrow> string \<Rightarrow> signer_id_type \<Rightarrow> SignerPoolManager \<Rightarrow> SignerPoolManager option" where
  "handle_success E st now recv_id_b64 recv_id s = do {
     late \<leftarrow> isTimeout now recv_id_b64 s;
     if late then Some (sendErrorMessage E st now recv_id ECDH_TIMEOUT ''too late MSG_SUCCESS'' s)
     else Some (send_out \<lparr>out_type = MSG_ACCEPT, out_body = json_obj
            [(''mID'', JStr (encodeBase64 E (m_id st))), (''time'', JStr (to_string (unat now))), (''val'', JBool True)],
            receivers = [recv_id]\<rparr>
          (s\<lparr>m_signer_pool := snd (updateStatus now recv_id GOOD (m_signer_pool s)),
             m_join_temp_table := (m_join_temp_table s)(recv_id_b64 := None)\<rparr>)) }"

definition handle_leave :: "string \<Rightarrow> signer_id_type \<Rightarrow> SignerPoolManager \<Rightarrow> SignerPoolManager" where
  "handle_leave recv_id_b64 recv_id s =
     s\<lparr>m_join_temp_table := (case m_join_temp_table s recv_id_b64 of
          Some d \<Rightarrow> if join_lock d then m_join_temp_table s else (m_join_temp_table s)(recv_id_b64 := None)
        | None \<Rightarrow> m_join_temp_table s),
       m_signer_pool := snd (removeSigner recv_id (m_signer_pool s))\<rparr>"

definition sm_handleMessage :: "ext \<Rightarrow> dh_ext \<Rightarrow> Setting \<Rightarrow> join_event \<Rightarrow> SignerPoolManager \<Rightarrow> SignerPoolManager option" where
  "sm_handleMessage E D st ev s =
     (let body = in_body (ev_msg ev); recv_id_b64 = getStringK body ''sID''; recv_id = getBytesFromB64 E body ''sID''
      in case in_type (ev_msg ev) of
           MSG_JOIN \<Rightarrow> Some (handle_join E st (ev_now ev) (ev_nonce ev) recv_id_b64 recv_id s)
         | MSG_RESPONSE_1 \<Rightarrow> handle_response E D st (ev_now ev) (ev_secret ev) recv_id_b64 recv_id body s
         | MSG_SUCCESS \<Rightarrow> handle_success E st (ev_now ev) recv_id_b64 recv_id s
         | MSG_LEAVE \<Rightarrow> Some (handle_leave recv_id_b64 recv_id s)
         | _ \<Rightarrow> Some s)"

section \<open>Where a signer comes from\<close>

text \<open>The merger issued a nonce to an id: some \<open>MSG_JOIN\<close> of the history was answered with it.\<close>

definition issued :: "ext \<Rightarrow> join_event list \<Rightarrow> string \<Rightarrow> string \<Rightarrow> u64 \<Rightarrow> bool" where
  "issued E es id_b64 nonce t \<longleftrightarrow> (\<exists>ev \<in> set es. in_type (ev_msg ev) = MSG_JOIN \<and>
     getStringK (in_body (ev_msg ev)) ''sID'' = id_b64 \<and> nonce = encodeBase64 E (ev_nonce ev) \<and> t = ev_now ev)"

text \<open>A response proves a certificate and a key: its signature over an issued nonce verifies under the
  certificate, and the key was agreed with its point.\<close>

definition proves :: "ext \<Rightarrow> dh_ext \<Rightarrow> join_event list \<Rightarrow> join_event \<Rightarrow> Signer \<Rightarrow> bool" where
  "proves E D es ev sg \<longleftrightarrow>
     (let body = in_body (ev_msg ev)
      in in_type (ev_msg ev) = MSG_RESPONSE_1 \<and> getBytesFromB64 E body ''sID'' = user_id sg \<and>
         getStringK body ''cert'' = pk_cert sg \<and>
         getSharedSecretKey D (ev_secret ev) (getStringK body ''dhx'') (getStringK body ''dhy'') = Some (hmac_key sg) \<and>
         (\<exists>nonce t msg. issued E es (encodeBase64 E (user_id sg)) nonce t \<and> join_message E nonce body = Some msg \<and>
            doVerify E (pk_cert sg) msg (getBytesFromB64 E body ''sig'')))"

definition same_keys :: "Signer \<Rightarrow> Signer \<Rightarrow> bool" where
  "same_keys a b \<longleftrightarrow> user_id a = user_id b \<and> pk_cert a = pk_cert b \<and> hmac_key a = hmac_key b"

lemma same_keys_refl [simp]: "same_keys a a"
  by (simp add: same_keys_def)

lemma proves_same_keys: "same_keys a b \<Longrightarrow> proves E D es ev a = proves E D es ev b"
  by (simp add: same_keys_def proves_def)

definition table_issued :: "ext \<Rightarrow> join_event list \<Rightarrow> SignerPoolManager \<Rightarrow> bool" where
  "table_issued E es s \<longleftrightarrow> (\<forall>k d. m_join_temp_table s k = Some d \<longrightarrow> issued E es k (merger_nonce d) (start_time d))"

lemma issued_mono: "issued E es k n t \<Longrightarrow> issued E (es @ es') k n t"
  by (auto simp: issued_def)

lemma frame_simps [simp]:
  "m_join_temp_table (send_out m s) = m_join_temp_table s" "m_signer_pool (send_out m s) = m_signer_pool s"
  "m_join_temp_table (sendErrorMessage E st now uid e i s) = m_join_temp_table s"
  "m_signer_pool (sendErrorMessage E st now uid e i s) = m_signer_pool s"
  "m_signer_pool (set_join k f s) = m_signer_pool s"
  "m_join_temp_table (set_join k f s) = (m_join_temp_table s)(k := map_option f (m_join_temp_table s k))"
  by (simp_all add: send_out_def sendErrorMessage_def set_join_def)

lemma set_update_first: "x \<in> set (update_first P f xs) \<Longrightarrow> x \<in> set xs \<or> (\<exists>y \<in> set xs. x = f y)"
  by (induction xs) (auto split: if_splits)

lemma updateStatus_same_keys: "sg \<in> set (snd (updateStatus now uid st pool)) \<Longrightarrow> \<exists>sg0 \<in> set pool. same_keys sg0 sg"
  by (auto simp: updateStatus_def on_signer_def same_keys_def split: if_splits dest!: set_update_first)

lemma removeSigner_same_keys: "sg \<in> set (snd (removeSigner uid pool)) \<Longrightarrow> \<exists>sg0 \<in> set pool. same_keys sg0 sg"
  using set_remove_first_subset same_keys_refl by (fastforce simp: removeSigner_def split: if_splits)

lemma pushSigner_set:
  "sg \<in> set (pushSigner now uid cert key st pool) \<Longrightarrow>
     sg \<in> set pool \<or> sg = \<lparr>user_id = uid, pk_cert = cert, hmac_key = key, last_update = now, signer_status = st\<rparr>"
  by (auto simp: pushSigner_def Let_def split: if_splits dest!: set_update_first)

text \<open>What one message does to the table and to the pool.\<close>

lemma table_step:
  assumes "sm_handleMessage E D st ev s = Some s'" "m_join_temp_table s' k = Some d'"
  shows "(\<exists>d. m_join_temp_table s k = Some d \<and> merger_nonce d = merger_nonce d' \<and> start_time d = start_time d') \<or>
    issued E [ev] k (merger_nonce d') (start_time d')"
  using assms
  by (auto simp: sm_handleMessage_def handle_join_def handle_response_def handle_success_def handle_leave_def issued_def
      Let_def bind_eq_Some_conv split: MessageType.splits if_splits option.splits prod.splits)

lemma handle_response_pool:
  assumes "handle_response E D st now secret k uid body s = Some s'"
  shows "m_signer_pool s' = m_signer_pool s \<or>
    verifySignature E uid body s = Some True \<and>
    (\<exists>ssk. getSharedSecretKey D secret (getStringK body ''dhx'') (getStringK body ''dhy'') = Some ssk \<and>
       m_signer_pool s' = pushSigner now uid (getStringK body ''cert'') ssk TEMPORARY (m_signer_pool s))"
  using assms unfolding handle_response_def Let_def
  by (auto split: option.splits Option.bind_splits if_splits prod.splits)

lemma pool_step_origin:
  assumes "sm_handleMessage E D st ev s = Some s'" "sg \<in> set (m_signer_pool s')" "table_issued E es s"
  shows "(\<exists>sg0 \<in> set (m_signer_pool s). same_keys sg0 sg) \<or> proves E D es ev sg"
proof -
  let ?body = "in_body (ev_msg ev)"
  let ?uid = "getBytesFromB64 E ?body ''sID''"
  have pf: "proves E D es ev sg"
    if "in_type (ev_msg ev) = MSG_RESPONSE_1" "verifySignature E ?uid ?body s = Some True"
      "getSharedSecretKey D (ev_secret ev) (getStringK ?body ''dhx'') (getStringK ?body ''dhy'') = Some ssk"
      "sg = \<lparr>user_id = ?uid, pk_cert = getStringK ?body ''cert'', hmac_key = ssk, last_update = n, signer_status = z\<rparr>" for ssk n z
    using that assms(3) by (auto simp: proves_def verifySignature_def table_issued_def bind_eq_Some_conv Let_def)
  show ?thesis
  proof (cases "in_type (ev_msg ev) = MSG_RESPONSE_1")
    case True
    with assms(1) have "handle_response E D st (ev_now ev) (ev_secret ev) (getStringK ?body ''sID'') ?uid ?body s = Some s'"
      by (simp add: sm_handleMessage_def Let_def)
    from handle_response_pool [OF this] assms(2) pf [OF True] show ?thesis
      by (metis pushSigner_set same_keys_refl)
  next
    case False
    with assms(1,2) show ?thesis
      by (auto simp: sm_handleMessage_def handle_join_def handle_success_def handle_leave_def Let_def bind_eq_Some_conv
          split: MessageType.splits if_splits option.splits dest: updateStatus_same_keys removeSigner_same_keys intro: bexI [of _ sg])
  qed
qed

lemma run_origin:
  assumes "fold_opt (sm_handleMessage E D st) es s0 = Some s" "m_signer_pool s0 = []" "m_join_temp_table s0 = Map.empty"
  shows "table_issued E es s \<and>
    (\<forall>sg \<in> set (m_signer_pool s). \<exists>es1 ev es2. es = es1 @ ev # es2 \<and> proves E D es1 ev sg)"
  using assms(1)
proof (induction es arbitrary: s rule: rev_induct)
  case Nil
  then show ?case using assms(2,3) by (simp add: table_issued_def)
next
  case (snoc ev es)
  then obtain s1 where s1: "fold_opt (sm_handleMessage E D st) es s0 = Some s1" "sm_handleMessage E D st ev s1 = Some s"
    by (auto simp: fold_opt_append bind_eq_Some_conv)
  note IH = snoc.IH [OF s1(1)]
  have "table_issued E (es @ [ev]) s"
    unfolding table_issued_def
  proof (intro allI impI)
    fix k d assume "m_join_temp_table s k = Some d"
    from table_step [OF s1(2) this] show "issued E (es @ [ev]) k (merger_nonce d) (start_time d)"
      using IH by (auto simp: table_issued_def issued_def) metis+
  qed
  moreover have "\<exists>es1 ev' es2. es @ [ev] = es1 @ ev' # es2 \<and> proves E D es1 ev' sg" if sg: "sg \<in> set (m_signer_pool s)" for sg
    using pool_step_origin [OF s1(2) sg conjunct1 [OF IH]]
  proof
    assume "\<exists>sg0 \<in> set (m_signer_pool s1). same_keys sg0 sg"
    then obtain es1 ev' es2 where "es = es1 @ ev' # es2" "proves E D es1 ev' sg"
      using IH proves_same_keys by blast
    then have "es @ [ev] = es1 @ ev' # (es2 @ [ev]) \<and> proves E D es1 ev' sg" by simp
    then show ?thesis by blast
  qed blast
  ultimately show ?case by blast
qed

section \<open>Signing succeeds\<close>

lemma appendHex_total: "\<exists>bb'. appendHex s bb = Some bb'"
  by (auto simp: appendHex_n_def hex_bytes_def Let_def)

lemma signMessage_total: "\<exists>sig. signMessage E st n sn dhx dhy t = Some sig"
proof -
  obtain b1 where b1: "appendHex dhx (appendB64 E sn (appendB64 E n bb_new)) = Some b1" using appendHex_total by blast
  obtain b2 where "appendHex dhy b1 = Some b2" using appendHex_total by blast
  with b1 show ?thesis by (simp add: signMessage_def)
qed

section \<open>An honest run\<close>

lemma honest_run:
  assumes "base64_law E" "uid \<noteq> []" "isJoinable s"
    "\<forall>b \<in> {bj, br, bs}. getStringK b ''sID'' = encodeBase64 E uid"
    "join_message E (encodeBase64 E nonce) br = Some msg"
    "doVerify E (getStringK br ''cert'') msg (getBytesFromB64 E br ''sig'')"
    "getSharedSecretKey D secret (getStringK br ''dhx'') (getStringK br ''dhy'') = Some ssk" "ssk \<noteq> []"
    "t2 - t1 \<le> JOIN_TIMEOUT_SEC" "t3 - t1 \<le> JOIN_TIMEOUT_SEC"
  shows "\<exists>s'. fold_opt (sm_handleMessage E D st)
      [\<lparr>ev_now = t1, ev_nonce = nonce, ev_secret = r1, ev_msg = \<lparr>in_type = MSG_JOIN, in_body = bj\<rparr>\<rparr>,
       \<lparr>ev_now = t2, ev_nonce = r2, ev_secret = secret, ev_msg = \<lparr>in_type = MSG_RESPONSE_1, in_body = br\<rparr>\<rparr>,
       \<lparr>ev_now = t3, ev_nonce = r3, ev_secret = r4, ev_msg = \<lparr>in_type = MSG_SUCCESS, in_body = bs\<rparr>\<rparr>] s = Some s' \<and>
    find_signer uid (m_signer_pool s') = Some \<lparr>user_id = uid, pk_cert = getStringK br ''cert'', hmac_key = ssk,
      last_update = t3, signer_status = GOOD\<rparr> \<and>
    m_join_temp_table s' (encodeBase64 E uid) = None \<and>
    map out_type (drop (length (m_output_queue s)) (m_output_queue s')) = [MSG_CHALLENGE, MSG_RESPONSE_2, MSG_ACCEPT]"
proof -
  let ?k = "encodeBase64 E uid" and ?cert = "getStringK br ''cert''"
  have sid: "getStringK bj ''sID'' = ?k" "getStringK br ''sID'' = ?k" "getStringK bs ''sID'' = ?k" using assms(4) by auto
  have ne: "?k \<noteq> []" using assms(2) base64_empty_iff [OF assms(1)] by (simp add: encodeBase64_def)
  then have uid: "getBytesFromB64 E b ''sID'' = uid" if "getStringK b ''sID'' = ?k" for b
    using that assms(1) by (simp add: getBytesFromB64_def decodeBase64_def encodeBase64_def base64_law_def)
  obtain s1 where s1: "handle_join E st t1 nonce ?k uid s = s1"
    "m_join_temp_table s1 ?k = Some \<lparr>merger_nonce = encodeBase64 E nonce, signer_cert = [], shared_secret_key = [], start_time = t1, join_lock = True\<rparr>"
    "\<exists>o1. m_output_queue s1 = m_output_queue s @ [o1] \<and> out_type o1 = MSG_CHALLENGE"
    using assms(3) by (simp add: handle_join_def send_out_def deliverOutputMessage_def output_push_def)
  obtain dhx dhy where pk: "getPublicKey D secret = (dhx, dhy)" by (cases "getPublicKey D secret")
  obtain sig where sig: "signMessage E st (encodeBase64 E nonce) (getStringK br ''sN'') dhx dhy t2 = Some sig"
    using signMessage_total by blast
  have v: "verifySignature E uid br s1 = Some True" using s1(2) assms(5,6) by (simp add: verifySignature_def)
  have in_time: "\<not> JOIN_TIMEOUT_SEC < t2 - t1" "\<not> JOIN_TIMEOUT_SEC < t3 - t1" using assms(9,10) by (simp_all add: not_less)
  obtain s2 where s2: "handle_response E D st t2 secret ?k uid br s1 = Some s2"
    "m_signer_pool s2 = pushSigner t2 uid ?cert ssk TEMPORARY (m_signer_pool s1)"
    "map_option start_time (m_join_temp_table s2 ?k) = Some t1"
    "\<exists>o2. m_output_queue s2 = m_output_queue s1 @ [o2] \<and> out_type o2 = MSG_RESPONSE_2"
    using s1(2) v pk sig assms(7,8) in_time
    by (simp add: handle_response_def isTimeout_def Let_def set_join_def send_out_def deliverOutputMessage_def output_push_def)
  obtain s3 where s3: "handle_success E st t3 ?k uid s2 = Some s3"
    "m_signer_pool s3 = snd (updateStatus t3 uid GOOD (m_signer_pool s2))" "m_join_temp_table s3 ?k = None"
    "\<exists>o3. m_output_queue s3 = m_output_queue s2 @ [o3] \<and> out_type o3 = MSG_ACCEPT"
    using s2(3) in_time
    by (auto simp: handle_success_def isTimeout_def send_out_def deliverOutputMessage_def output_push_def)
  have "find_signer uid (m_signer_pool s2) = Some \<lparr>user_id = uid, pk_cert = ?cert, hmac_key = ssk, last_update = t2, signer_status = TEMPORARY\<rparr>"
    using s2(2) by (auto simp: pushSigner_def Let_def find_signer_append find_signer_update split: option.splits)
  then have "find_signer uid (m_signer_pool s3) = Some \<lparr>user_id = uid, pk_cert = ?cert, hmac_key = ssk, last_update = t3, signer_status = GOOD\<rparr>"
    using s3(2) by (simp add: updateStatus_def on_signer_def find_signer_update)
  with s1 s2 s3 sid uid show ?thesis by (auto simp: sm_handleMessage_def Let_def)
qed

section \<open>Properties\<close>

text \<open>C4. Every signer of the pool, in whatever order messages arrived, has shown that it holds the key of its
  certificate: some earlier \<open>MSG_RESPONSE_1\<close> of the same id carried that certificate and a signature, valid under
  it, over a nonce the merger had issued to that id before, and the key for its authentication codes was agreed
  in that exchange.\<close>

theorem signer_has_proved_key:
  assumes "fold_opt (sm_handleMessage E D st) es s0 = Some s" "m_signer_pool s0 = []" "m_join_temp_table s0 = Map.empty"
    "find_signer uid (m_signer_pool s) = Some sg"
  shows "\<exists>es1 ev es2. es = es1 @ ev # es2 \<and> user_id sg = uid \<and> proves E D es1 ev sg"
  using run_origin [OF assms(1-3)] find_signer_id [OF assms(4)] by blast

text \<open>C30. A signer that follows the protocol joins: when the pool has room and the three messages arrive in
  time, the second with a valid signature over the issued nonce and a usable point, the signer is in the pool in good
  state with the agreed key, its join entry is gone, and the merger has sent its three answers.\<close>

theorem honest_signer_joins:
  assumes "base64_law E" "uid \<noteq> []" "isJoinable s"
    "\<forall>b \<in> {bj, br, bs}. getStringK b ''sID'' = encodeBase64 E uid"
    "join_message E (encodeBase64 E nonce) br = Some msg"
    "doVerify E (getStringK br ''cert'') msg (getBytesFromB64 E br ''sig'')"
    "getSharedSecretKey D secret (getStringK br ''dhx'') (getStringK br ''dhy'') = Some ssk" "ssk \<noteq> []"
    "t2 - t1 \<le> JOIN_TIMEOUT_SEC" "t3 - t1 \<le> JOIN_TIMEOUT_SEC"
  shows "\<exists>s'. fold_opt (sm_handleMessage E D st)
      [\<lparr>ev_now = t1, ev_nonce = nonce, ev_secret = r1, ev_msg = \<lparr>in_type = MSG_JOIN, in_body = bj\<rparr>\<rparr>,
       \<lparr>ev_now = t2, ev_nonce = r2, ev_secret = secret, ev_msg = \<lparr>in_type = MSG_RESPONSE_1, in_body = br\<rparr>\<rparr>,
       \<lparr>ev_now = t3, ev_nonce = r3, ev_secret = r4, ev_msg = \<lparr>in_type = MSG_SUCCESS, in_body = bs\<rparr>\<rparr>] s = Some s' \<and>
    find_signer uid (m_signer_pool s') = Some \<lparr>user_id = uid, pk_cert = getStringK br ''cert'', hmac_key = ssk,
      last_update = t3, signer_status = GOOD\<rparr> \<and>
    m_join_temp_table s' (encodeBase64 E uid) = None \<and>
    map out_type (drop (length (m_output_queue s)) (m_output_queue s')) = [MSG_CHALLENGE, MSG_RESPONSE_2, MSG_ACCEPT]"
  using honest_run [OF assms] .

text \<open>C31. A signer in the middle of joining becomes a good one by a \<open>MSG_SUCCESS\<close> that carries no authentication
  code: whoever packed it and whatever key was agreed, the message unpacks, and its handler
  changes the status of the signer it names.\<close>

theorem success_needs_no_key:
  assumes "length (m_localchain_id st') = CHAIN_ID_TYPE_SIZE" "lz4_law E" "dump_law E" "base64_law E" "uid \<noteq> []"
    "length (stringToBytes (json_dump E body)) \<le> 3 * length (compressData E (stringToBytes (json_dump E body)))"
    "HEADER_LENGTH + length (compressData E (stringToBytes (json_dump E body))) < 2 ^ 31" "validateSchema body MSG_SUCCESS"
    "getStringK body ''sID'' = encodeBase64 E uid" "m_join_temp_table s (encodeBase64 E uid) = Some d"
    "now - start_time d \<le> JOIN_TIMEOUT_SEC" "find_signer uid (m_signer_pool s) = Some sg"
  shows "\<exists>m ev s'. packMsg E st' [] \<lparr>out_type = MSG_SUCCESS, out_body = body, receivers = []\<rparr> = [m] \<and>
    unpackMsg E (m_signer_pool s) m rid [] = Some (RPC_OK, sender_field st', [ev_msg ev]) \<and>
    sm_handleMessage E D st ev s = Some s' \<and>
    map_option signer_status (find_signer uid (m_signer_pool s')) = Some GOOD"
proof -
  let ?ev = "\<lparr>ev_now = now, ev_nonce = [], ev_secret = [], ev_msg = \<lparr>in_type = MSG_SUCCESS, in_body = body\<rparr>\<rparr>"
  obtain m where m: "packMsg E st' [] \<lparr>out_type = MSG_SUCCESS, out_body = body, receivers = []\<rparr> = [m]"
    "unpackMsg E (m_signer_pool s) m rid [] = Some (RPC_OK, sender_field st', input_push MSG_SUCCESS body [])"
    using unpack_packMsg [OF assms(1) _ _ _ assms(2,3,6-8)] by blast
  have "encodeBase64 E uid \<noteq> []" using assms(5) base64_empty_iff [OF assms(4)] by (simp add: encodeBase64_def)
  then have "getBytesFromB64 E body ''sID'' = uid"
    using assms(4,9) by (simp add: getBytesFromB64_def decodeBase64_def encodeBase64_def base64_law_def)
  moreover have "\<not> JOIN_TIMEOUT_SEC < now - start_time d" using assms(11) by (simp add: not_less)
  ultimately have "\<exists>s'. sm_handleMessage E D st ?ev s = Some s' \<and> map_option signer_status (find_signer uid (m_signer_pool s')) = Some GOOD"
    using assms(9,10,12) by (simp add: sm_handleMessage_def handle_success_def isTimeout_def Let_def
        updateStatus_def on_signer_def find_signer_update)
  with m show ?thesis by (intro exI [of _ m] exI [of _ ?ev]) (auto simp: input_push_def)
qed

section \<open>Witnesses\<close>

definition dh_w :: dh_ext where
  "dh_w = \<lparr>dh_point_hex = (\<lambda>_. ''04AABB''), hex_decode = (\<lambda>s. Some (stringToBytes s)), dh_derive = (\<lambda>a x y. Some [42])\<rparr>"

definition sm_w :: SignerPoolManager where
  "sm_w = \<lparr>m_join_temp_table = Map.empty, m_signer_pool = [], m_output_queue = []\<rparr>"

text \<open>The signature of the instance is the certificate text followed by the message.\<close>

definition join_w :: json where
  "join_w = json_obj [(''sID'', JStr (encodeBase64 ext0 [65])), (''time'', JStr ''7'')]"

definition response_w :: json where
  "response_w = json_obj [(''sID'', JStr (encodeBase64 ext0 [65])), (''time'', JStr ''7''), (''cert'', JStr ''c''),
     (''sN'', JStr []), (''dhx'', JStr []), (''dhy'', JStr []),
     (''sig'', JStr (encodeBase64 ext0 (stringToBytes ''c'' @ [9, 0, 0, 0, 0, 0, 0, 0, 7])))]"

lemma join_w_body:
  "\<forall>b \<in> {join_w, response_w, join_w}. getStringK b ''sID'' = encodeBase64 ext0 [65]"
  by (simp add: join_w_def response_w_def getStringK_def getString_def)

lemma ext0_b64: "decodeBase64 ext0 (encodeBase64 ext0 b) = b" "decodeBase64 ext0 [] = []" "b \<noteq> [] \<Longrightarrow> encodeBase64 ext0 b \<noteq> []"
  using ext0_laws(1) base64_empty_iff [OF ext0_laws(1)]
  by (auto simp: decodeBase64_def encodeBase64_def base64_law_def) (simp add: ext0_def b64_0_def)

lemma response_w_message: "join_message ext0 (encodeBase64 ext0 [9]) response_w = Some [9, 0, 0, 0, 0, 0, 0, 0, 7]"
proof -
  have "stoi ''7'' = Some 7" "be_bytes 8 7 = [0, 0, 0, 0, 0, 0, 0, 7]" by code_simp+
  moreover have "getStringK response_w ''sN'' = []" "getStringK response_w ''dhx'' = []" "getStringK response_w ''dhy'' = []"
    "getStringK response_w ''time'' = ''7''"
    by (simp_all add: response_w_def getStringK_def getString_def)
  ultimately show ?thesis
    by (simp add: join_message_def appendHex_n_def appendB64_def appendDec_def ext0_b64
        append_vec_n_def append_u64_n_def bb_new_def getBytes_def Let_def)
qed

lemma response_w_verified:
  "doVerify ext0 (getStringK response_w ''cert'') [9, 0, 0, 0, 0, 0, 0, 0, 7] (getBytesFromB64 ext0 response_w ''sig'')"
proof -
  have "ecdsa_verify ext0 pk m sig = Some (sig = stringToBytes pk @ m)" for pk m sig by (simp add: ext0_def)
  then show ?thesis
    by (simp add: doVerify_def response_w_def getBytesFromB64_def getStringK_def getString_def ext0_b64)
qed

lemma response_w_key:
  "getSharedSecretKey dh_w [1] (getStringK response_w ''dhx'') (getStringK response_w ''dhy'') = Some [42]"
  by (simp add: getSharedSecretKey_def dh_w_def)

lemma sm_w_joinable: "isJoinable sm_w"
  by (simp add: isJoinable_def sm_w_def MAX_SIGNER_NUM_def)

theorem honest_signer_joins_witness:
  "\<exists>s'. fold_opt (sm_handleMessage ext0 dh_w st_w)
      [\<lparr>ev_now = 5, ev_nonce = [9], ev_secret = [], ev_msg = \<lparr>in_type = MSG_JOIN, in_body = join_w\<rparr>\<rparr>,
       \<lparr>ev_now = 6, ev_nonce = [], ev_secret = [1], ev_msg = \<lparr>in_type = MSG_RESPONSE_1, in_body = response_w\<rparr>\<rparr>,
       \<lparr>ev_now = 7, ev_nonce = [], ev_secret = [], ev_msg = \<lparr>in_type = MSG_SUCCESS, in_body = join_w\<rparr>\<rparr>] sm_w = Some s' \<and>
    find_signer [65] (m_signer_pool s') = Some \<lparr>user_id = [65], pk_cert = getStringK response_w ''cert'', hmac_key = [42],
      last_update = 7, signer_status = GOOD\<rparr> \<and>
    m_join_temp_table s' (encodeBase64 ext0 [65]) = None \<and>
    map out_type (drop (length (m_output_queue sm_w)) (m_output_queue s')) = [MSG_CHALLENGE, MSG_RESPONSE_2, MSG_ACCEPT]"
  by (rule honest_signer_joins [OF ext0_laws(1) _ sm_w_joinable join_w_body response_w_message response_w_verified response_w_key])
    (simp_all add: JOIN_TIMEOUT_SEC_def)

theorem signer_has_proved_key_witness:
  "\<exists>s sg es. fold_opt (sm_handleMessage ext0 dh_w st_w) es sm_w = Some s \<and> find_signer [65] (m_signer_pool s) = Some sg \<and>
     (\<exists>es1 ev es2. es = es1 @ ev # es2 \<and> user_id sg = [65] \<and> proves ext0 dh_w es1 ev sg)"
proof -
  have side: "[65] \<noteq> ([] :: bytes)" "[42] \<noteq> ([] :: bytes)" "(6 :: u64) - 5 \<le> JOIN_TIMEOUT_SEC" "(7 :: u64) - 5 \<le> JOIN_TIMEOUT_SEC"
    by (simp_all add: JOIN_TIMEOUT_SEC_def)
  from honest_run [OF ext0_laws(1) side(1) sm_w_joinable join_w_body response_w_message response_w_verified response_w_key side(2-4)]
  obtain es s sg where run: "fold_opt (sm_handleMessage ext0 dh_w st_w) es sm_w = Some s" "find_signer [65] (m_signer_pool s) = Some sg"
    by blast
  have "m_signer_pool sm_w = []" "m_join_temp_table sm_w = Map.empty" by (simp_all add: sm_w_def)
  from signer_has_proved_key [OF run(1) this run(2)] run show ?thesis by blast
qed

definition success_body_w :: json where
  "success_body_w = json_obj [(''sID'', JStr (encodeBase64 ext0 [65])), (''time'', JStr ''7''), (''val'', JBool True)]"

definition joining_w :: SignerPoolManager where
  "joining_w = \<lparr>m_join_temp_table = [encodeBase64 ext0 [65] \<mapsto> \<lparr>merger_nonce = [], signer_cert = ''c'', shared_secret_key = [42],
       start_time = 5, join_lock = False\<rparr>],
     m_signer_pool = [\<lparr>user_id = [65], pk_cert = ''c'', hmac_key = [42], last_update = 5, signer_status = TEMPORARY\<rparr>],
     m_output_queue = []\<rparr>"

theorem success_needs_no_key_witness:
  "\<exists>m ev s'. packMsg (ext_for success_body_w) st_w [] \<lparr>out_type = MSG_SUCCESS, out_body = success_body_w, receivers = []\<rparr> = [m] \<and>
    unpackMsg (ext_for success_body_w) (m_signer_pool joining_w) m [] [] = Some (RPC_OK, sender_field st_w, [ev_msg ev]) \<and>
    sm_handleMessage (ext_for success_body_w) dh_w st_w ev joining_w = Some s' \<and>
    map_option signer_status (find_signer [65] (m_signer_pool s')) = Some GOOD"
proof (rule success_needs_no_key [OF st_w_chain ext_for_laws(5,3,1)])
  show "length (stringToBytes (json_dump (ext_for success_body_w) success_body_w)) \<le>
      3 * length (compressData (ext_for success_body_w) (stringToBytes (json_dump (ext_for success_body_w) success_body_w)))"
    "HEADER_LENGTH + length (compressData (ext_for success_body_w) (stringToBytes (json_dump (ext_for success_body_w) success_body_w))) < 2 ^ 31"
    by (simp_all add: compressData_def ext_for_def ext0_def stringToBytes_def HEADER_LENGTH_def)
  show "validateSchema success_body_w MSG_SUCCESS"
    by (simp add: success_body_w_def validateSchema_def getSchema_def MSG_SCHEMA_MAP_def SCHEMA_SUCCESS_def titled_def
        validate_type_def keyword_def has_member_def strs_def str_t_def bool_t_def json_obj_def)
  show "getStringK success_body_w ''sID'' = encodeBase64 (ext_for success_body_w) [65]"
    by (simp add: success_body_w_def getStringK_def getString_def ext_for_same)
  show "m_join_temp_table joining_w (encodeBase64 (ext_for success_body_w) [65]) =
      Some \<lparr>merger_nonce = [], signer_cert = ''c'', shared_secret_key = [42], start_time = 5, join_lock = False\<rparr>"
    by (simp add: joining_w_def ext_for_same)
  show "find_signer [65] (m_signer_pool joining_w) =
      Some \<lparr>user_id = [65], pk_cert = ''c'', hmac_key = [42], last_update = 5, signer_status = TEMPORARY\<rparr>"
    by (simp add: joining_w_def find_signer_def)
  show "(6 :: u64) - start_time \<lparr>merger_nonce = [], signer_cert = ''c'', shared_secret_key = [42], start_time = 5, join_lock = False\<rparr>
      \<le> JOIN_TIMEOUT_SEC" by (simp add: JOIN_TIMEOUT_SEC_def)
qed simp

end
