(* ===== verification/Merger_Node.thy ===== *)
theory Merger_Node
  imports Bp_Scheduler Signer_Join
begin

text \<open>
  The components of a running merger put together: the message fetcher (\<open>src/modules/message_fetcher/message_fetcher.cpp\<close>) takes
  messages from the input queue, the proxy (\<open>src/services/message_proxy.cpp\<close>) checks them and calls the handler of the component
  they are for, and the timers of the other components run in between.

  A component works on its part of the state of the node: the signer pool, the output queue and the certificate pool
  are singletons that several of them share. The clock and the random values a handler reads come with the message.
\<close>

section \<open>State\<close>

record MergerNode =
  nd_node :: Node
  nd_join_table :: "string \<rightharpoonup> JoinTemporaryData"
  nd_scheduler :: BpScheduler
  nd_conn :: ConnManager
  nd_certs :: CertificatePool
  nd_input :: "InputMsgEntry list"

abbreviation nd_merger :: "MergerNode \<Rightarrow> Merger" where
  "nd_merger n \<equiv> n_merger (nd_node n)"

definition set_merger :: "Merger \<Rightarrow> MergerNode \<Rightarrow> MergerNode" where
  "set_merger a n = n\<lparr>nd_node := (nd_node n)\<lparr>n_merger := a\<rparr>\<rparr>"

text \<open>The parts of the signer pool manager and of the scheduler.\<close>

definition join_part :: "MergerNode \<Rightarrow> SignerPoolManager" where
  "join_part n = \<lparr>m_join_temp_table = nd_join_table n, m_signer_pool = app_signer_pool (nd_merger n), m_output_queue = app_output_queue (nd_merger n)\<rparr>"

definition set_join_part :: "SignerPoolManager \<Rightarrow> MergerNode \<Rightarrow> MergerNode" where
  "set_join_part s n = (set_merger ((nd_merger n)\<lparr>app_signer_pool := m_signer_pool s, app_output_queue := m_output_queue s\<rparr>) n)
     \<lparr>nd_join_table := m_join_temp_table s\<rparr>"

definition bp_part :: "MergerNode \<Rightarrow> BpNode" where
  "bp_part n = \<lparr>bn_scheduler = nd_scheduler n, bn_conn = nd_conn n, bn_certs = nd_certs n, bn_output = app_output_queue (nd_merger n)\<rparr>"

definition set_bp_part :: "BpNode \<Rightarrow> MergerNode \<Rightarrow> MergerNode" where
  "set_bp_part b n = (set_merger ((nd_merger n)\<lparr>app_output_queue := bn_output b\<rparr>) n)
     \<lparr>nd_scheduler := bn_scheduler b, nd_conn := bn_conn b, nd_certs := bn_certs b\<rparr>"

section \<open>Messages\<close>

definition deliver :: "ext \<Rightarrow> dh_ext \<Rightarrow> bytes \<Rightarrow> Setting \<Rightarrow> (string \<Rightarrow> nat) \<Rightarrow> join_event \<Rightarrow> MergerNode \<Rightarrow> MergerNode option" where
  "deliver E D mem st h ev n = do {
     to \<leftarrow> deliverInputMessage (ev_now ev) (ev_msg ev);
     case to of
       None \<Rightarrow> Some n
     | Some SIGNER_POOL_MANAGER \<Rightarrow> map_option (\<lambda>s. set_join_part s n) (sm_handleMessage E D st ev (join_part n))
     | Some TRANSACTION_COLLECTOR \<Rightarrow> map_option (\<lambda>x. n\<lparr>nd_node := x\<rparr>) (tc_handleMessage E mem st (nd_certs n) h (ev_msg ev) (nd_node n))
     | Some SIGNATURE_POOL \<Rightarrow> map_option (\<lambda>sp. set_merger ((nd_merger n)\<lparr>app_signature_pool := sp\<rparr>) n)
         (sp_handleMessage E st (app_signer_pool (nd_merger n)) (merger_ledger (nd_merger n)) (in_body (ev_msg ev)) (app_signature_pool (nd_merger n)))
     | Some BP_SCHEDULER \<Rightarrow> map_option (\<lambda>b. set_bp_part b n) (bs_handleMessage E st (ev_now ev) (ev_msg ev) (bp_part n))
     | Some BLOCK_PROCESSOR \<Rightarrow> map_option (\<lambda>a. set_merger a n)
         (bp_handleMessage E mem st (nd_certs n) h (ev_now ev) (ev_msg ev) (nd_merger n)) }"

text \<open>The messages of a fetch, at most five, each with what its handler reads.\<close>

definition fetched :: "(nat \<Rightarrow> u64 \<times> bytes \<times> bytes) \<Rightarrow> MergerNode \<Rightarrow> join_event list" where
  "fetched env n = map (\<lambda>(i, m). case env i of (now, nonce, secret) \<Rightarrow> \<lparr>ev_now = now, ev_nonce = nonce, ev_secret = secret, ev_msg = m\<rparr>)
     (List.enumerate 0 (fst (input_fetchBulk 5 (nd_input n))))"

definition node_fetch :: "ext \<Rightarrow> dh_ext \<Rightarrow> bytes \<Rightarrow> Setting \<Rightarrow> (string \<Rightarrow> nat) \<Rightarrow> (nat \<Rightarrow> u64 \<times> bytes \<times> bytes) \<Rightarrow> MergerNode \<Rightarrow> MergerNode option" where
  "node_fetch E D mem st h env n =
     fold_opt (deliver E D mem st h) (fetched env n) (n\<lparr>nd_input := snd (input_fetchBulk 5 (nd_input n))\<rparr>)"

section \<open>Timers\<close>

definition node_ping :: "ext \<Rightarrow> Setting \<Rightarrow> u64 \<Rightarrow> MergerNode \<Rightarrow> MergerNode option" where
  "node_ping E st now n = map_option (\<lambda>b. set_bp_part b n) (sendPingMessage E st (app_signer_pool (nd_merger n)) now (bp_part n))"

definition node_lock :: "MergerNode \<Rightarrow> MergerNode option" where
  "node_lock n = do {
     (s, c) \<leftarrow> lockStatus (nd_scheduler n) (n_collector (nd_node n));
     Some (n\<lparr>nd_scheduler := s, nd_node := (nd_node n)\<lparr>n_collector := c\<rparr>\<rparr>) }"

definition node_job :: "ext \<Rightarrow> Setting \<Rightarrow> (string \<Rightarrow> nat) \<Rightarrow> (Signer list \<Rightarrow> Signer list) \<Rightarrow> round_times \<Rightarrow> MergerNode \<Rightarrow> MergerNode option" where
  "node_job E st h shuffle t n = map_option (\<lambda>x. n\<lparr>nd_node := x\<rparr>) (checkBpJob E st h shuffle t (nd_node n))"

section \<open>Runs\<close>

text \<open>
  The steps of a node, with the messages handed to components so far. Messages enter through the server, which unpacks
  them, and as notice of a signer that left; the output queue is emptied by its fetcher. As in \<open>Block_Production\<close>, a round
  begins only when the one before is over.
\<close>

inductive node_run ::
  "ext \<Rightarrow> dh_ext \<Rightarrow> bytes \<Rightarrow> Setting \<Rightarrow> (string \<Rightarrow> nat) \<Rightarrow> (Signer list \<Rightarrow> Signer list) \<Rightarrow> join_event list \<Rightarrow> MergerNode \<Rightarrow> bool"
  for E D mem st h shuffle where
  start: "nd_input n = [] \<Longrightarrow> nd_join_table n = Map.empty \<Longrightarrow> app_signer_pool (nd_merger n) = [] \<Longrightarrow> app_signature_pool (nd_merger n) = new_sig_pool \<Longrightarrow>
    \<not> m_is_collect_running (app_requester (nd_merger n)) \<Longrightarrow> m_block_gen_strand (app_requester (nd_merger n)) = 0 \<Longrightarrow>
    length (m_merkle_tree (app_requester (nd_merger n))) = 2 * MAX_MERKLE_LEAVES - 1 \<Longrightarrow> node_run E D mem st h shuffle [] n"
| arrive: "node_run E D mem st h shuffle es n \<Longrightarrow> unpackMsg E (app_signer_pool (nd_merger n)) packed [] (nd_input n) = Some (status, sid, q) \<Longrightarrow>
    node_run E D mem st h shuffle es (n\<lparr>nd_input := q\<rparr>)"
| disconnect: "node_run E D mem st h shuffle es n \<Longrightarrow> node_run E D mem st h shuffle es (n\<lparr>nd_input := genInternalMsg now MSG_LEAVE k (nd_input n)\<rparr>)"
| fetch: "node_run E D mem st h shuffle es n \<Longrightarrow> node_fetch E D mem st h env n = Some n' \<Longrightarrow>
    node_run E D mem st h shuffle (es @ fetched env n) n'"
| ping: "node_run E D mem st h shuffle es n \<Longrightarrow> node_ping E st now n = Some n' \<Longrightarrow> node_run E D mem st h shuffle es n'"
| lock: "node_run E D mem st h shuffle es n \<Longrightarrow> node_lock n = Some n' \<Longrightarrow> node_run E D mem st h shuffle es n'"
| job: "node_run E D mem st h shuffle es n \<Longrightarrow> \<not> m_is_collect_running (app_requester (nd_merger n)) \<Longrightarrow>
    m_block_gen_strand (app_requester (nd_merger n)) = 0 \<Longrightarrow> node_job E st h shuffle t n = Some n' \<Longrightarrow> node_run E D mem st h shuffle es n'"
| over: "node_run E D mem st h shuffle es n \<Longrightarrow> node_run E D mem st h shuffle es (set_merger (collect_over (nd_merger n)) n)"
| check: "node_run E D mem st h shuffle es n \<Longrightarrow> node_run E D mem st h shuffle es (set_merger (collect_check (nd_merger n)) n)"
| create: "node_run E D mem st h shuffle es n \<Longrightarrow> 0 < m_block_gen_strand (app_requester (nd_merger n)) \<Longrightarrow>
    create_block_job E mem st (nd_certs n) h now (nd_merger n) = Some a \<Longrightarrow> node_run E D mem st h shuffle es (set_merger a n)"
| sent: "node_run E D mem st h shuffle es n \<Longrightarrow>
    node_run E D mem st h shuffle es (set_merger ((nd_merger n)\<lparr>app_output_queue := q\<rparr>) n)"

section \<open>Composition\<close>

text \<open>What holds of a message when it is handed to a component: it has the members of its type, or is the notice of the node itself.\<close>

definition well_formed_msg :: "InputMsgEntry \<Rightarrow> bool" where
  "well_formed_msg m \<longleftrightarrow> in_type m = MSG_LEAVE \<or> validateSchema (in_body m) (in_type m)"

text \<open>The response that admitted a signer was well formed and passed the filter.\<close>

definition admitted :: "ext \<Rightarrow> dh_ext \<Rightarrow> join_event list \<Rightarrow> Signer \<Rightarrow> bool" where
  "admitted E D es sg \<longleftrightarrow> (\<exists>es1 ev es2. es = es1 @ ev # es2 \<and> proves E D es1 ev sg \<and>
     validateSchema (in_body (ev_msg ev)) MSG_RESPONSE_1 \<and> validate_msg (ev_now ev) (ev_msg ev) = Some True)"

definition node_inv ::
  "ext \<Rightarrow> dh_ext \<Rightarrow> bytes \<Rightarrow> Setting \<Rightarrow> (string \<Rightarrow> nat) \<Rightarrow> (Signer list \<Rightarrow> Signer list) \<Rightarrow> join_event list \<Rightarrow> MergerNode \<Rightarrow> bool" where
  "node_inv E D mem st h shuffle es n \<longleftrightarrow>
     table_issued E es (join_part n) \<and> (\<forall>sg \<in> set (app_signer_pool (nd_merger n)). admitted E D es sg) \<and>
     reachable E mem st h shuffle (nd_merger n) \<and> (\<forall>m \<in> set (nd_input n). well_formed_msg m)"

lemma set_merger_simps [simp]:
  "nd_merger (set_merger a n) = a" "nd_join_table (set_merger a n) = nd_join_table n" "nd_input (set_merger a n) = nd_input n"
  by (simp_all add: set_merger_def)

lemma join_part_simps [simp]:
  "m_join_temp_table (join_part n) = nd_join_table n" "m_signer_pool (join_part n) = app_signer_pool (nd_merger n)"
  by (simp_all add: join_part_def)

lemma table_issued_part: "table_issued E es (join_part n) \<longleftrightarrow> (\<forall>k d. nd_join_table n k = Some d \<longrightarrow> issued E es k (merger_nonce d) (start_time d))"
  by (simp add: table_issued_def)

lemma admitted_mono: "admitted E D es sg \<Longrightarrow> admitted E D (es @ es') sg"
  unfolding admitted_def by (metis append.assoc append_Cons)

text \<open>A step that leaves the table, the signers and the messages alone.\<close>

lemma node_inv_frame:
  assumes "node_inv E D mem st h shuffle es n" "nd_join_table n' = nd_join_table n" "app_signer_pool (nd_merger n') = app_signer_pool (nd_merger n)"
    "reachable E mem st h shuffle (nd_merger n) \<Longrightarrow> reachable E mem st h shuffle (nd_merger n')" "nd_input n' = nd_input n"
  shows "node_inv E D mem st h shuffle (es @ es') n'"
  using assms by (auto simp: node_inv_def table_issued_part intro: issued_mono admitted_mono)

lemmas node_inv_same = node_inv_frame [where es' = "[]", simplified]

lemma admitted_same_keys: "same_keys a b \<Longrightarrow> admitted E D es a = admitted E D es b"
  unfolding admitted_def using proves_same_keys by metis

lemma tc_frame:
  assumes "tc_handleMessage E mem st certs h m x = Some x'"
  shows "Application.more (n_merger x') = Application.more (n_merger x) \<and>
    (reachable E mem st h shuffle (n_merger x) \<longrightarrow> reachable E mem st h shuffle (n_merger x'))"
  using assms
  by (auto simp: tc_handleMessage_def forwardMessage_def app_send_def Let_def intro!: reachable.outgoing reachable.transactions
      split: if_splits list.splits Option.bind_splits)

lemma bp_frame:
  assumes "bp_handleMessage E mem st certs h now m a = Some a'"
  shows "app_signer_pool a' = app_signer_pool a"
  using merger_fields(3) [OF bp_handleMessage_more [OF assms]] .

text \<open>A message of a signer: its join entry was issued before, and a new signer was proved by this message.\<close>

lemma join_inv:
  assumes "node_inv E D mem st h shuffle es n" "sm_handleMessage E D st ev (join_part n) = Some s" "well_formed_msg (ev_msg ev)"
    "validate_msg (ev_now ev) (ev_msg ev) = Some True"
  shows "node_inv E D mem st h shuffle (es @ [ev]) (set_join_part s n)"
proof -
  have I: "table_issued E es (join_part n)" "\<forall>sg \<in> set (app_signer_pool (nd_merger n)). admitted E D es sg"
    "reachable E mem st h shuffle (nd_merger n)" "\<forall>m \<in> set (nd_input n). well_formed_msg m"
    using assms(1) by (auto simp: node_inv_def)
  have "issued E (es @ [ev]) k (merger_nonce d) (start_time d)" if "m_join_temp_table s k = Some d" for k d
    using table_step [OF assms(2) that] I(1) by (auto simp: table_issued_def issued_def) metis+
  moreover have "admitted E D (es @ [ev]) sg" if "sg \<in> set (m_signer_pool s)" for sg
    using pool_step_origin [OF assms(2) that I(1)]
  proof
    assume "\<exists>sg0 \<in> set (m_signer_pool (join_part n)). same_keys sg0 sg"
    then show ?thesis using I(2) admitted_same_keys admitted_mono by fastforce
  next
    assume P: "proves E D es ev sg"
    then have "in_type (ev_msg ev) = MSG_RESPONSE_1" by (simp add: proves_def Let_def)
    then have "validateSchema (in_body (ev_msg ev)) MSG_RESPONSE_1" using assms(3) by (simp add: well_formed_msg_def)
    then show ?thesis unfolding admitted_def using P assms(4) by blast
  qed
  moreover have "reachable E mem st h shuffle ((nd_merger n)\<lparr>app_signer_pool := m_signer_pool s, app_output_queue := m_output_queue s\<rparr>)"
    by (intro reachable.outgoing reachable.signers I(3))
  ultimately show ?thesis using I(4) by (simp add: node_inv_def table_issued_def set_join_part_def)
qed

lemma deliver_inv:
  assumes "node_inv E D mem st h shuffle es n" "deliver E D mem st h ev n = Some n'" "well_formed_msg (ev_msg ev)"
  shows "node_inv E D mem st h shuffle (es @ [ev]) n'"
proof -
  obtain dest where d: "deliverInputMessage (ev_now ev) (ev_msg ev) = Some dest" using assms(2) by (auto simp: deliver_def split: Option.bind_splits)
  note step = assms(2) [unfolded deliver_def d, simplified]
  show ?thesis
  proof (cases dest)
    case None
    then show ?thesis using step node_inv_frame [OF assms(1)] by auto
  next
    case (Some c)
    have v: "validate_msg (ev_now ev) (ev_msg ev) = Some True"
      using d Some by (auto simp: deliverInputMessage_def split: Option.bind_splits if_splits)
    show ?thesis
    proof (cases c)
      case SIGNER_POOL_MANAGER
      then show ?thesis using step Some join_inv [OF assms(1) _ assms(3) v] by auto
    next
      case TRANSACTION_COLLECTOR
      then obtain x where x: "tc_handleMessage E mem st (nd_certs n) h (ev_msg ev) (nd_node n) = Some x" "n' = n\<lparr>nd_node := x\<rparr>" using step Some by auto
      then show ?thesis using tc_frame [OF x(1), of shuffle] merger_fields(3) [of "n_merger x" "nd_merger n"] by (intro node_inv_frame [OF assms(1)]) auto
    next
      case SIGNATURE_POOL
      then show ?thesis using step Some by (auto intro!: node_inv_frame [OF assms(1)] intro: reachable.signature)
    next
      case BP_SCHEDULER
      then show ?thesis using step Some by (auto intro!: node_inv_frame [OF assms(1)] reachable.outgoing simp: set_bp_part_def)
    next
      case BLOCK_PROCESSOR
      then show ?thesis using step Some by (auto intro!: node_inv_frame [OF assms(1)] intro: reachable.message dest: bp_frame)
    qed
  qed
qed

lemma delivers_inv:
  assumes "fold_opt (deliver E D mem st h) evs n = Some n'" "node_inv E D mem st h shuffle es n" "\<forall>ev \<in> set evs. well_formed_msg (ev_msg ev)"
  shows "node_inv E D mem st h shuffle (es @ evs) n'"
  using assms
proof (induction evs arbitrary: n es)
  case (Cons ev evs)
  then obtain n1 where n1: "deliver E D mem st h ev n = Some n1" "fold_opt (deliver E D mem st h) evs n1 = Some n'"
    by (auto split: Option.bind_splits)
  have "node_inv E D mem st h shuffle (es @ [ev]) n1" using deliver_inv [OF Cons.prems(2) n1(1)] Cons.prems(3) by simp
  from Cons.IH [OF n1(2) this] Cons.prems(3) show ?case by simp
qed simp

lemma fetch_inv:
  assumes "node_fetch E D mem st h env n = Some n'" "node_inv E D mem st h shuffle es n"
  shows "node_inv E D mem st h shuffle (es @ fetched env n) n'"
proof (rule delivers_inv [OF assms(1) [unfolded node_fetch_def]])
  show "node_inv E D mem st h shuffle es (n\<lparr>nd_input := snd (input_fetchBulk 5 (nd_input n))\<rparr>)"
    using assms(2) by (auto simp: node_inv_def table_issued_part input_fetchBulk_def dest: in_set_dropD)
  have "m \<in> set (nd_input n)" if "(i, m) \<in> set (List.enumerate 0 (fst (input_fetchBulk 5 (nd_input n))))" for i m
    using that nth_mem [of i "take 5 (nd_input n)"] by (auto simp: in_set_enumerate_eq input_fetchBulk_def dest: in_set_takeD)
  then show "\<forall>ev \<in> set (fetched env n). well_formed_msg (ev_msg ev)"
    using assms(2) by (auto simp: fetched_def node_inv_def split: prod.splits)
qed

lemma unpack_well_formed:
  assumes "unpackMsg E pool packed rid q = Some (status, sid, q')" "\<forall>m \<in> set q. well_formed_msg m"
  shows "\<forall>m \<in> set q'. well_formed_msg m"
  using assms by (auto simp: unpackMsg_def Let_def input_push_def well_formed_msg_def bind_eq_Some_conv split: option.splits if_splits)

lemma input_inv:
  "node_inv E D mem st h shuffle es n \<Longrightarrow> \<forall>m \<in> set q. well_formed_msg m \<Longrightarrow> node_inv E D mem st h shuffle es (n\<lparr>nd_input := q\<rparr>)"
  by (simp add: node_inv_def table_issued_part)

lemma request_signers: "requestSignatures E st h shuffle t a = Some a' \<Longrightarrow> app_signer_pool a' = app_signer_pool a"
  by (auto simp: requestSignatures_def Let_def sendRequestMessage_def app_send_def merger_fields(3) [OF link_more]
      split: if_splits Option.bind_splits)

lemma create_signers: "create_block_job E mem st certs h now a = Some a' \<Longrightarrow> app_signer_pool a' = app_signer_pool a"
  by (auto simp: create_block_job_def Let_def merger_fields(3) [OF generate_more] split: if_splits)

lemma job_frame:
  assumes "checkBpJob E st h shuffle t x = Some x'" "\<not> m_is_collect_running (app_requester (n_merger x))"
    "m_block_gen_strand (app_requester (n_merger x)) = 0"
  shows "app_signer_pool (n_merger x') = app_signer_pool (n_merger x) \<and>
    (reachable E mem st h shuffle (n_merger x) \<longrightarrow> reachable E mem st h shuffle (n_merger x'))"
proof (cases "n_merger x' = n_merger x")
  case False
  then have "requestSignatures E st h shuffle t (n_merger x) = Some (n_merger x')"
    using assms(1) by (auto simp: checkBpJob_def split: if_splits Option.bind_splits)
  then show ?thesis using reachable.round [OF _ assms(2,3)] request_signers by blast
qed simp

lemma collect_signers [simp]:
  "app_signer_pool (collect_over a) = app_signer_pool a" "app_signer_pool (collect_check a) = app_signer_pool a"
  by (simp_all add: collect_over_def collect_check_def doCreateBlock_def)

lemma node_run_inv: "node_run E D mem st h shuffle es n \<Longrightarrow> node_inv E D mem st h shuffle es n"
proof (induction rule: node_run.induct)
  case (start n)
  then show ?case by (auto simp: node_inv_def table_issued_part new_sig_pool_def intro!: reachable.start)
next
  case (arrive es n packed status sid q)
  then show ?case by (intro input_inv unpack_well_formed [OF arrive(2)]) (auto simp: node_inv_def)
next
  case (disconnect es n now k)
  then show ?case by (intro input_inv) (auto simp: node_inv_def genInternalMsg_def input_push_def well_formed_msg_def)
next
  case (fetch es n env n')
  then show ?case by (intro fetch_inv)
next
  case (ping es n now n')
  then show ?case by (auto simp: node_ping_def set_bp_part_def intro!: node_inv_same [OF ping.IH] reachable.outgoing)
next
  case (lock es n n')
  then show ?case by (auto simp: node_lock_def intro!: node_inv_same [OF lock.IH] split: Option.bind_splits)
next
  case (job es n t n')
  then show ?case using job_frame [OF _ job(2,3)] by (auto simp: node_job_def intro!: node_inv_same [OF job.IH])
next
  case (over es n)
  then show ?case by (intro node_inv_same [OF over.IH]) (auto intro: reachable.over)
next
  case (check es n)
  then show ?case by (intro node_inv_same [OF check.IH]) (auto intro: reachable.check)
next
  case (create es n now a)
  then show ?case by (intro node_inv_same [OF create.IH]) (auto intro: reachable.job simp: create_signers)
next
  case (sent es n q)
  then show ?case by (intro node_inv_same [OF sent.IH]) (auto intro: reachable.outgoing)
qed

section \<open>Properties\<close>

text \<open>C2. In every run of the whole node, with all components on the shared state and messages from anywhere: each signer of
  the pool was admitted by a response that had passed the schema of its type and the filter of the proxy, and that proved,
  over a nonce issued to the same id before, the key of the certificate; and each signature that waits in the
  signature pool verifies for the block that is being made.\<close>

theorem node_signers_and_signatures:
  assumes "node_run E D mem st h shuffle es n"
  shows "(\<forall>sg \<in> set (app_signer_pool (nd_merger n)). \<exists>es1 ev es2. es = es1 @ ev # es2 \<and> proves E D es1 ev sg \<and>
      validateSchema (in_body (ev_msg ev)) MSG_RESPONSE_1 \<and> validate_msg (ev_now ev) (ev_msg ev) = Some True) \<and>
    (\<forall>s \<in> set (m_signature_pool (app_signature_pool (nd_merger n))). accepted E st (app_signature_pool (nd_merger n)) s)"
proof -
  have I: "node_inv E D mem st h shuffle es n" using assms by (rule node_run_inv)
  then have "round_inv E st (nd_merger n)" by (auto simp: node_inv_def intro: reachable_round_inv)
  with I show ?thesis by (auto simp: node_inv_def admitted_def round_inv_def Let_def)
qed

section \<open>Witness\<close>

definition join_body_w :: json where
  "join_body_w = json_obj [(''sID'', JStr ''AAAAAAAAAAAA''), (''time'', JStr ''7''), (''ver'', JStr ''1''), (''cID'', JStr ''AAAAAAAAAAAA'')]"

definition response_body_w :: json where
  "response_body_w = json_obj [(''sID'', JStr ''AAAAAAAAAAAA''), (''time'', JStr ''7''), (''cert'', JStr ''c''),
     (''sN'', JStr (replicate 44 CHR ''A'')), (''dhx'', JStr (replicate 64 CHR ''A'')), (''dhy'', JStr (replicate 64 CHR ''A'')),
     (''sig'', JStr ''c'')]"

text \<open>Base64 and signatures as plain text, and texts for the two bodies.\<close>

definition ext_node :: ext where
  "ext_node = ext0\<lparr>base64_encode := bytesToString, base64_decode := (\<lambda>s. Some (stringToBytes s)), ecdsa_verify := (\<lambda>_ _ sig. Some (sig = [99])),
     json_parse := (\<lambda>s. if s = ''j'' then Some join_body_w else if s = ''r'' then Some response_body_w else None)\<rparr>"

definition packed_w :: "MessageType \<Rightarrow> char \<Rightarrow> bytes" where
  "packed_w t c = [G_IDENT, HEADER_VERSION, msg_to_byte t, mac_to_byte MAC_NONE, comp_to_byte COMP_NONE, NOT_USED, 0, 0, 0, 33] @
     replicate 22 0 @ [of_char c]"

definition fresh_w :: MergerNode where
  "fresh_w = \<lparr>nd_node = \<lparr>n_merger = merger_w\<lparr>app_signer_pool := []\<rparr>, n_collector = new_collector\<rparr>, nd_join_table = Map.empty,
     nd_scheduler = new_scheduler, nd_conn = new_conn_manager [], nd_certs = Map.empty, nd_input = []\<rparr>"

lemma bodies_w:
  "validateSchema join_body_w MSG_JOIN" "validateSchema response_body_w MSG_RESPONSE_1"
  "validate_msg 7 \<lparr>in_type = MSG_JOIN, in_body = join_body_w\<rparr> = Some True"
  "validate_msg 7 \<lparr>in_type = MSG_RESPONSE_1, in_body = response_body_w\<rparr> = Some True"
  by code_simp+

lemma packed_w_header:
  "map_option (\<lambda>hd. (hdr_identifier hd, message_type hd, mac_algo_type hd, compression_algo_type hd, getMsgBodySize hd))
     (parseHeader (packed_w MSG_JOIN CHR ''j'')) = Some (G_IDENT, MSG_JOIN, MAC_NONE, COMP_NONE, 1)"
  "map_option (\<lambda>hd. (hdr_identifier hd, message_type hd, mac_algo_type hd, compression_algo_type hd, getMsgBodySize hd))
     (parseHeader (packed_w MSG_RESPONSE_1 CHR ''r'')) = Some (G_IDENT, MSG_RESPONSE_1, MAC_NONE, COMP_NONE, 1)"
  "getMsgBody (packed_w MSG_JOIN CHR ''j'') 1 = stringToBytes ''j''" "getMsgBody (packed_w MSG_RESPONSE_1 CHR ''r'') 1 = stringToBytes ''r''"
  by code_simp+

lemma unpack_w:
  "\<exists>sid. unpackMsg ext_node pool (packed_w MSG_JOIN CHR ''j'') [] q = Some (RPC_OK, sid, q @ [\<lparr>in_type = MSG_JOIN, in_body = join_body_w\<rparr>])"
  "\<exists>sid. unpackMsg ext_node pool (packed_w MSG_RESPONSE_1 CHR ''r'') [] q =
     Some (RPC_OK, sid, q @ [\<lparr>in_type = MSG_RESPONSE_1, in_body = response_body_w\<rparr>])"
  using packed_w_header bodies_w(1,2)
  by (auto simp: unpackMsg_def validateMsgFormat_def input_push_def getJson_def parseJson_def ext_node_def stringToBytes_def bytesToString_def Let_def split: option.splits)

lemma response_fields_w:
  "getStringK join_body_w ''sID'' = ''AAAAAAAAAAAA''" "getStringK response_body_w ''sID'' = ''AAAAAAAAAAAA''"
  "getStringK response_body_w ''cert'' = ''c''" "getBytesFromB64 ext_node response_body_w ''sig'' = [99]"
  "getStringK response_body_w ''time'' = ''7''"
proof -
  have "char_to_byte CHR ''c'' = 99" by code_simp
  then show "getBytesFromB64 ext_node response_body_w ''sig'' = [99]"
    by (simp add: response_body_w_def getStringK_def getString_def getBytesFromB64_def decodeBase64_def ext_node_def stringToBytes_def)
qed (simp_all add: join_body_w_def response_body_w_def getStringK_def getString_def)

lemma id_w: "encodeBase64 ext_node (getBytesFromB64 ext_node response_body_w ''sID'') = ''AAAAAAAAAAAA''"
  by (simp add: response_body_w_def getStringK_def getString_def getBytesFromB64_def decodeBase64_def encodeBase64_def ext_node_def stringToBytes_def bytesToString_def)

lemma join_message_w: "\<exists>msg. join_message ext_node nonce response_body_w = Some msg"
proof -
  obtain b1 where b1: "appendHex (getStringK response_body_w ''dhx'') (appendB64 ext_node (getStringK response_body_w ''sN'') (appendB64 ext_node nonce bb_new)) = Some b1"
    using appendHex_total by blast
  obtain b2 where "appendHex (getStringK response_body_w ''dhy'') b1 = Some b2" using appendHex_total by blast
  moreover have "stoi ''7'' = Some 7" by code_simp
  ultimately show ?thesis using b1 response_fields_w(5) by (simp add: join_message_def appendDec_def)
qed

text \<open>A response right after its join is accepted.\<close>

lemma response_w_accepted:
  assumes "m_join_temp_table s ''AAAAAAAAAAAA'' = Some d" "start_time d = now"
  shows "\<exists>s'. sm_handleMessage ext_node dh_w st_w \<lparr>ev_now = now, ev_nonce = r, ev_secret = [1], ev_msg = \<lparr>in_type = MSG_RESPONSE_1, in_body = response_body_w\<rparr>\<rparr> s = Some s' \<and>
    m_signer_pool s' = pushSigner now (getBytesFromB64 ext_node response_body_w ''sID'') ''c'' [42] TEMPORARY (m_signer_pool s)"
proof -
  obtain msg where "join_message ext_node (merger_nonce d) response_body_w = Some msg" using join_message_w by blast
  moreover have "doVerify ext_node ''c'' msg [99]" by (simp add: doVerify_def ext_node_def)
  ultimately have v: "verifySignature ext_node (getBytesFromB64 ext_node response_body_w ''sID'') response_body_w s = Some True"
    using assms(1) by (simp add: verifySignature_def id_w response_fields_w)
  obtain dhx dhy where pk: "getPublicKey dh_w [1] = (dhx, dhy)" by (cases "getPublicKey dh_w [1]")
  obtain sig where sig: "signMessage ext_node st_w (merger_nonce d) (getStringK response_body_w ''sN'') dhx dhy now = Some sig"
    using signMessage_total by blast
  have key: "getSharedSecretKey dh_w [1] x y = Some [42]" for x y by (simp add: getSharedSecretKey_def dh_w_def)
  show ?thesis
    using assms v pk sig key by (simp add: sm_handleMessage_def handle_response_def isTimeout_def Let_def response_fields_w set_join_def send_out_def)
qed

theorem node_signers_and_signatures_witness:
  "\<exists>n es sg. node_run ext_node dh_w [] st_w (\<lambda>_. 0) (\<lambda>x. x) es n \<and> sg \<in> set (app_signer_pool (nd_merger n)) \<and> pk_cert sg = ''c'' \<and>
     (\<exists>es1 ev es2. es = es1 @ ev # es2 \<and> proves ext_node dh_w es1 ev sg \<and> validate_msg (ev_now ev) (ev_msg ev) = Some True)"
proof -
  let ?R = "node_run ext_node dh_w [] st_w (\<lambda>_. 0) (\<lambda>x. x)"
  let ?mj = "\<lparr>in_type = MSG_JOIN, in_body = join_body_w\<rparr>" and ?mr = "\<lparr>in_type = MSG_RESPONSE_1, in_body = response_body_w\<rparr>"
  let ?ev = "\<lambda>m. \<lparr>ev_now = 7, ev_nonce = [9], ev_secret = [1], ev_msg = m\<rparr>"
  let ?n = "fresh_w\<lparr>nd_input := [?mj, ?mr]\<rparr>" and ?env = "\<lambda>_. (7, [9], [1])"
  have "?R [] fresh_w" by (rule node_run.start) (simp_all add: fresh_w_def merger_w_def Application.defs length_new_tree)
  then have "?R [] (fresh_w\<lparr>nd_input := [?mj]\<rparr>)"
    using node_run.arrive unpack_w(1) [of "app_signer_pool (nd_merger fresh_w)" "[]"] by (fastforce simp: fresh_w_def)
  then have R: "?R [] ?n"
    using node_run.arrive [of _ _ _ _ _ _ "[]" "fresh_w\<lparr>nd_input := [?mj]\<rparr>"] unpack_w(2) [of "app_signer_pool (nd_merger fresh_w)" "[?mj]"] by fastforce
  have f: "fetched ?env ?n = [?ev ?mj, ?ev ?mr]" by (simp add: fetched_def input_fetchBulk_def)
  have to: "deliverInputMessage 7 ?mj = Some (Some SIGNER_POOL_MANAGER)" "deliverInputMessage 7 ?mr = Some (Some SIGNER_POOL_MANAGER)"
    by (simp_all add: deliverInputMessage_def bodies_w handler_of_def)
  let ?s1 = "handle_join ext_node st_w 7 [9] ''AAAAAAAAAAAA'' (getBytesFromB64 ext_node join_body_w ''sID'') (join_part (fresh_w\<lparr>nd_input := []\<rparr>))"
  let ?n1 = "set_join_part ?s1 (fresh_w\<lparr>nd_input := []\<rparr>)"
  have d1: "deliver ext_node dh_w [] st_w (\<lambda>_. 0) (?ev ?mj) (fresh_w\<lparr>nd_input := []\<rparr>) = Some ?n1"
    by (simp add: deliver_def to sm_handleMessage_def response_fields_w Let_def)
  have "\<exists>d. m_join_temp_table (join_part ?n1) ''AAAAAAAAAAAA'' = Some d \<and> start_time d = 7"
    by (simp add: set_join_part_def handle_join_def isJoinable_def MAX_SIGNER_NUM_def send_out_def join_part_def fresh_w_def)
  then obtain s2 where s2: "sm_handleMessage ext_node dh_w st_w (?ev ?mr) (join_part ?n1) = Some s2"
    "m_signer_pool s2 = pushSigner 7 (getBytesFromB64 ext_node response_body_w ''sID'') ''c'' [42] TEMPORARY (m_signer_pool (join_part ?n1))"
    using response_w_accepted by blast
  let ?n2 = "set_join_part s2 ?n1"
  have "node_fetch ext_node dh_w [] st_w (\<lambda>_. 0) ?env ?n = Some ?n2"
    unfolding node_fetch_def f using d1 s2(1) to(2) by (simp add: input_fetchBulk_def deliver_def)
  then have run: "?R [?ev ?mj, ?ev ?mr] ?n2" using node_run.fetch [OF R] f by fastforce
  have "m_signer_pool (join_part ?n1) = []"
    by (simp add: set_join_part_def handle_join_def isJoinable_def MAX_SIGNER_NUM_def send_out_def join_part_def fresh_w_def)
  then obtain sg where "sg \<in> set (app_signer_pool (nd_merger ?n2))" "pk_cert sg = ''c''"
    using s2(2) by (simp add: set_join_part_def pushSigner_def find_signer_def)
  with run node_signers_and_signatures [OF run] show ?thesis by blast
qed

end
