(* ===== verification/Periodic_Task.thy ===== *)
theory Periodic_Task
  imports Task_On_Time
begin

text \<open>
  The timers of the node (\<open>class PeriodicTask\<close> and \<open>class DelayedTask\<close> in \<open>src/utils/periodic_task.hpp\<close>).

  A timer of the I/O service is the time, in milliseconds, at which it expires, while a handler waits for it. Setting a new
  time aborts the handler that waits, which then does nothing. The tasks handed to the I/O service are the times of
  their posts. A \<open>tick\<close> is one millisecond, in which the handlers of the timers that have expired run.
\<close>

section \<open>Periodic tasks\<close>

record PeriodicTask =
  pt_interval :: u64
  pt_has_task :: bool
  pt_start_timer :: "nat option"
  pt_event_timer :: "nat option"
  pt_posted :: "nat list"

definition new_periodic :: PeriodicTask where
  "new_periodic = \<lparr>pt_interval = 1000, pt_has_task = False, pt_start_timer = None, pt_event_timer = None, pt_posted = []\<rparr>"

definition setInterval :: "u64 \<Rightarrow> PeriodicTask \<Rightarrow> PeriodicTask" where
  "setInterval intval p = p\<lparr>pt_interval := intval\<rparr>"

definition setTaskFunction :: "PeriodicTask \<Rightarrow> PeriodicTask" where
  "setTaskFunction p = p\<lparr>pt_has_task := True\<rparr>"

definition eventLoop :: "nat \<Rightarrow> PeriodicTask \<Rightarrow> PeriodicTask" where
  "eventLoop now p = p\<lparr>pt_posted := (if pt_has_task p then pt_posted p @ [now] else pt_posted p),
     pt_event_timer := Some (now + unat (pt_interval p))\<rparr>"

definition runTaskAfter :: "int \<Rightarrow> nat \<Rightarrow> PeriodicTask \<Rightarrow> PeriodicTask" where
  "runTaskAfter after now p =
     (if \<not> pt_has_task p then p
      else if 0 < after then p\<lparr>pt_start_timer := Some (now + nat after)\<rparr>
      else eventLoop now p)"

definition stopTask :: "PeriodicTask \<Rightarrow> PeriodicTask" where
  "stopTask p = p\<lparr>pt_event_timer := None\<rparr>"

definition pt_tick :: "nat \<Rightarrow> PeriodicTask \<Rightarrow> PeriodicTask" where
  "pt_tick now p =
     (let p1 = (case pt_start_timer p of
                  Some t \<Rightarrow> if t \<le> now then eventLoop now (p\<lparr>pt_start_timer := None\<rparr>) else p
                | None \<Rightarrow> p)
      in case pt_event_timer p1 of
           Some t \<Rightarrow> if t \<le> now then eventLoop now p1 else p1
         | None \<Rightarrow> p1)"

section \<open>Delayed tasks\<close>

record DelayedTask =
  dt_has_task :: bool
  dt_event_timer :: "nat option"
  dt_ran :: "nat list"

definition dt_call :: "nat \<Rightarrow> DelayedTask \<Rightarrow> DelayedTask" where
  "dt_call now d = (if dt_has_task d then d\<lparr>dt_ran := dt_ran d @ [now]\<rparr> else d)"

definition dt_runTask :: "u64 \<Rightarrow> nat \<Rightarrow> DelayedTask \<Rightarrow> DelayedTask" where
  "dt_runTask timeout now d = (if 0 < timeout then d\<lparr>dt_event_timer := Some (now + unat timeout)\<rparr> else dt_call now d)"

definition dt_tick :: "nat \<Rightarrow> DelayedTask \<Rightarrow> DelayedTask" where
  "dt_tick now d =
     (case dt_event_timer d of
        Some t \<Rightarrow> if t \<le> now then dt_call now (d\<lparr>dt_event_timer := None\<rparr>) else d
      | None \<Rightarrow> d)"

section \<open>Runs\<close>

text \<open>The times of a periodic task: the first one, then one every interval.\<close>

definition due :: "nat \<Rightarrow> nat \<Rightarrow> nat \<Rightarrow> nat list" where
  "due first interval now = filter (\<lambda>t. first \<le> t \<and> interval dvd t - first) [0..<Suc now]"

lemma due_Suc: "due f i (Suc n) = due f i n @ (if f \<le> Suc n \<and> i dvd Suc n - f then [Suc n] else [])"
  by (simp add: due_def)

lemma due_first: "n < f \<Longrightarrow> due f i n = []" "0 < i \<Longrightarrow> due f i f = [f]"
proof -
  show e: "due f i n = []" if "n < f" for n using that by (auto simp: due_def filter_empty_conv)
  then show "0 < i \<Longrightarrow> due f i f = [f]" by (cases f) (auto simp: due_def filter_empty_conv)
qed

text \<open>Between two ticks either the start is still to come, or the next time is the only timer.\<close>

definition on_schedule :: "nat \<Rightarrow> u64 \<Rightarrow> nat \<Rightarrow> PeriodicTask \<Rightarrow> bool" where
  "on_schedule first intval now p \<longleftrightarrow> pt_interval p = intval \<and> pt_has_task p \<and> pt_posted p = due first (unat intval) now \<and>
     (if now < first then pt_start_timer p = Some first \<and> pt_event_timer p = None
      else pt_start_timer p = None \<and> (\<exists>k. pt_event_timer p = Some (first + k * unat intval) \<and> now < first + k * unat intval \<and>
        first + k * unat intval \<le> now + unat intval))"

lemma next_due:
  assumes "0 < (i :: nat)" "n < f + k * i" "f + k * i \<le> n + i" "f \<le> n"
  shows "i dvd Suc n - f \<longleftrightarrow> Suc n = f + k * i"
proof
  assume "i dvd Suc n - f"
  then obtain m where m: "Suc n - f = i * m" by auto
  then have "i * m \<le> k * i" "k * i < i * m + i" using assms by linarith+
  then have "m * i \<le> k * i" "k * i < Suc m * i" by (simp_all add: mult.commute add.commute)
  then have "m = k" using assms(1) by (simp only: mult_le_cancel2 mult_less_cancel2) simp
  then show "Suc n = f + k * i" using m assms by (simp add: mult.commute)
qed (use assms in auto)

lemma tick_on_schedule:
  assumes "on_schedule first intval now p" "0 < intval"
  shows "on_schedule first intval (Suc now) (pt_tick (Suc now) p)"
proof -
  have i: "0 < unat intval" using assms(2) by (simp add: unat_gt_0 word_gt_0)
  show ?thesis
  proof (cases "now < first")
    case True
    show ?thesis
    proof (cases "Suc now = first")
      case True
      then have "due first (unat intval) (Suc now) = due first (unat intval) now @ [Suc now]"
        using due_first(1) [of now first] due_first(2) [OF i, of first] by auto
      then show ?thesis
        using assms(1) True i by (auto simp: on_schedule_def pt_tick_def eventLoop_def intro!: exI [of _ 1])
    next
      case False
      then show ?thesis
        using assms(1) True by (auto simp: on_schedule_def pt_tick_def eventLoop_def due_first)
    qed
  next
    case False
    then obtain k where k: "pt_event_timer p = Some (first + k * unat intval)" "now < first + k * unat intval"
      "first + k * unat intval \<le> now + unat intval" "pt_start_timer p = None" using assms(1) by (auto simp: on_schedule_def)
    have d: "due first (unat intval) (Suc now) = due first (unat intval) now @ (if Suc now = first + k * unat intval then [Suc now] else [])"
      using next_due [OF i k(2,3)] False by (simp add: due_Suc)
    show ?thesis
    proof (cases "Suc now = first + k * unat intval")
      case True
      have "pt_tick (Suc now) p = eventLoop (Suc now) p" using k True by (simp add: pt_tick_def)
      moreover have "Suc now + unat intval = first + Suc k * unat intval" using True by simp
      ultimately show ?thesis
        using assms(1) False k(4) d True i by (auto simp: on_schedule_def eventLoop_def simp del: mult_Suc intro!: exI [of _ "Suc k"])
    next
      case (False)
      have "pt_tick (Suc now) p = p" using k False by (simp add: pt_tick_def)
      then show ?thesis
        using assms(1) \<open>\<not> now < first\<close> k d False by (auto simp: on_schedule_def intro!: exI [of _ k])
    qed
  qed
qed

text \<open>A task that was started runs at its first time and then every interval, and at no other time.\<close>

theorem periodic_runs_when_due:
  assumes "pt_has_task p" "pt_posted p = []" "pt_start_timer p = None" "pt_event_timer p = None" "0 < pt_interval p"
  shows "pt_posted (fold pt_tick [Suc now..<Suc (now + k)] (runTaskAfter after now p)) =
    due (now + nat after) (unat (pt_interval p)) (now + k)"
proof -
  have "on_schedule (now + nat after) (pt_interval p) (now + k) (fold pt_tick [Suc now..<Suc (now + k)] (runTaskAfter after now p))"
  proof (induction k)
    case 0
    have "0 < unat (pt_interval p)" using assms(5) by (simp add: unat_gt_0 word_gt_0)
    then show ?case
      using assms by (auto simp: on_schedule_def runTaskAfter_def eventLoop_def due_first intro: exI [of _ 1])
  next
    case (Suc k)
    then show ?case using tick_on_schedule [OF Suc assms(5)] by simp
  qed
  then show ?thesis by (simp add: on_schedule_def)
qed

theorem periodic_runs_when_due_witness:
  "pt_posted (fold pt_tick [Suc 0..<Suc (0 + 25)] (runTaskAfter 5 0 (setTaskFunction (setInterval 10 new_periodic)))) = [5, 15, 25]"
proof -
  have "due 5 10 25 = [5, 15, 25]" by code_simp
  then show ?thesis
    using periodic_runs_when_due [of "setTaskFunction (setInterval 10 new_periodic)" 0 25 5]
    by (simp add: setTaskFunction_def setInterval_def new_periodic_def)
qed

text \<open>Stopping does not stop a start that is still to come: only the second timer is cancelled.\<close>

lemma stop_keeps_start:
  assumes "pt_start_timer p = Some t" "pt_has_task p" "0 < pt_interval p"
  shows "pt_posted (pt_tick t (stopTask p)) = pt_posted p @ [t]"
  using assms by (simp add: stopTask_def pt_tick_def eventLoop_def Let_def unat_gt_0 word_gt_0 unat_eq_zero)

text \<open>A delayed task runs once.\<close>

lemma delayed_runs_once:
  assumes "dt_has_task d" "dt_ran d = []" "dt_event_timer d = None"
  shows "dt_ran (fold dt_tick [Suc now..<Suc (now + k)] (dt_runTask timeout now d)) = (if unat timeout \<le> k then [now + unat timeout] else [])"
proof -
  have "dt_has_task (fold dt_tick [Suc now..<Suc (now + k)] (dt_runTask timeout now d)) \<and>
      dt_event_timer (fold dt_tick [Suc now..<Suc (now + k)] (dt_runTask timeout now d)) = (if unat timeout \<le> k then None else Some (now + unat timeout)) \<and>
      dt_ran (fold dt_tick [Suc now..<Suc (now + k)] (dt_runTask timeout now d)) = (if unat timeout \<le> k then [now + unat timeout] else [])"
  proof (induction k)
    case 0
    then show ?case using assms by (auto simp: dt_runTask_def dt_call_def unat_eq_zero word_gt_0)
  next
    case (Suc k)
    then show ?case by (auto simp: dt_tick_def dt_call_def)
  qed
  then show ?thesis by blast
qed

end
