(* ===== verification/Argv_Parser.thy ===== *)
theory Argv_Parser
  imports Setting
begin

text \<open>
  The command line (\<open>src/services/argv_parser.hpp\<close>) and the checks of the signing key (\<open>src/utils/crypto.hpp\<close>).

  The options as \<open>cxxopts\<close> reads them, with their default values, are a record, \<^const>\<open>None\<close> when it throws. The contents of
  the settings file and the lines typed at the prompt are arguments; \<open>load_key\<close> says whether Botan loads a key with a
  password. Leaving the program and an exception that is not caught are outcomes of their own.
\<close>

section \<open>Options\<close>

record cmd_options =
  opt_help :: bool
  opt_in :: string
  opt_pass :: string
  opt_port :: string
  opt_dbpath :: string
  opt_dbclear :: bool
  opt_dbcheck :: bool
  opt_disableTK :: bool
  opt_txforward :: bool

datatype parse_outcome =
    EXIT_PROGRAM
  | UNCAUGHT
  | PROMPT_WAITS
  | PARSED bool Setting CertificatePool bool

section \<open>Signing keys\<close>

definition BEGIN_ENC :: string where "BEGIN_ENC = ''BEGIN ENCRYPTED PRIVATE KEY''"
definition END_ENC :: string where "END_ENC = ''END ENCRYPTED PRIVATE KEY''"

definition undash :: "string \<Rightarrow> string" where
  "undash s = dropWhile (\<lambda>c. c = CHR ''-'') s"

text \<open>The regular expression, read from both ends: dashes, the first line, dashes, anything, dashes, the last line,
  dashes. A dot of the POSIX grammar is any character but 0.\<close>

definition isEncPem :: "string \<Rightarrow> bool" where
  "isEncPem pem \<longleftrightarrow>
     (let a = undash pem; b = rev (drop (length BEGIN_ENC) a); z = undash b; m = drop (length END_ENC) z
      in a \<noteq> pem \<and> take (length BEGIN_ENC) a = BEGIN_ENC \<and> z \<noteq> b \<and> take (length END_ENC) z = rev END_ENC \<and>
         2 \<le> length m \<and> hd m = CHR ''-'' \<and> last m = CHR ''-'' \<and> CHR 0x00 \<notin> set m)"

definition isValidPass :: "(string \<Rightarrow> string \<Rightarrow> bool) \<Rightarrow> string \<Rightarrow> string \<Rightarrow> bool" where
  "isValidPass load_key pem pass = load_key pem pass"

text \<open>The loop of the prompt, over the lines that are typed.\<close>

fun ask_pass :: "(string \<Rightarrow> bool) \<Rightarrow> string list \<Rightarrow> string option" where
  "ask_pass valid [] = None"
| "ask_pass valid (user_pass # typed) = (if valid user_pass then Some user_pass else ask_pass valid typed)"

section \<open>Settings from the command line\<close>

text \<open>\<open>j[key] = v\<close>: null becomes an object, other values throw.\<close>

fun json_set :: "string \<Rightarrow> json \<Rightarrow> json \<Rightarrow> json option" where
  "json_set k v JNull = Some (JObj [(k, v)])"
| "json_set k v (JObj kvs) = Some (JObj (ins_member k v kvs))"
| "json_set k v _ = None"

definition override :: "cmd_options \<Rightarrow> json \<Rightarrow> json option" where
  "override opts j0 = do {
     j1 \<leftarrow> json_set ''pass'' (JStr (opt_pass opts)) j0;
     j2 \<leftarrow> (if opt_port opts = [] then Some j1
           else do {
             self \<leftarrow> json_at j1 ''Self'';
             self' \<leftarrow> json_set ''port'' (JStr (opt_port opts)) self;
             json_set ''Self'' self' j1 });
     if opt_dbpath opts = [] then Some j2 else json_set ''dbpath'' (JStr (opt_dbpath opts)) j2 }"

definition set_flags :: "cmd_options \<Rightarrow> Setting \<Rightarrow> Setting" where
  "set_flags opts st = st\<lparr>m_db_check := m_db_check st \<or> opt_dbcheck opts, m_disable_tracker := m_disable_tracker st \<or> opt_disableTK opts,
     m_tx_forward := m_tx_forward st \<or> opt_txforward opts\<rparr>"

definition parse_args ::
  "ext \<Rightarrow> (string \<Rightarrow> string \<Rightarrow> bool) \<Rightarrow> bytes \<Rightarrow> nat \<Rightarrow> cmd_options option \<Rightarrow> (string \<Rightarrow> string) \<Rightarrow> string list \<Rightarrow> Setting \<Rightarrow> CertificatePool \<Rightarrow> parse_outcome" where
  "parse_args E load_key mem argc result file2str typed st pool =
     (if argc = 1 then EXIT_PROGRAM
      else case result of
        None \<Rightarrow> PARSED False st pool False
      | Some opts \<Rightarrow>
          if opt_help opts then EXIT_PROGRAM
          else if file2str (opt_in opts) = [] then PARSED False st pool False
          else case json_parse E (file2str (opt_in opts)) of
            None \<Rightarrow> PARSED False st pool False
          | Some j0 \<Rightarrow> (case override opts j0 of
              None \<Rightarrow> UNCAUGHT
            | Some j \<Rightarrow> (case setting_setJson E mem j st pool of (ok, st1, pool1) \<Rightarrow>
                if \<not> ok then PARSED False st1 pool1 False
                else if isEncPem (m_sk st1)
                then if m_sk_pass st1 \<noteq> [] \<and> \<not> isValidPass load_key (m_sk st1) (m_sk_pass st1) then PARSED False st1 pool1 False
                     else (case ask_pass (isValidPass load_key (m_sk st1)) typed of
                             None \<Rightarrow> PROMPT_WAITS
                           | Some user_pass \<Rightarrow> PARSED True (set_flags opts (st1\<lparr>m_sk_pass := user_pass\<rparr>)) pool1 (opt_dbclear opts))
                else PARSED True (set_flags opts st1) pool1 (opt_dbclear opts))))"

section \<open>Encrypted keys\<close>

definition dashes :: "nat \<Rightarrow> string" where "dashes n = replicate (Suc n) CHR ''-''"

lemma undash_dashes: "undash (dashes n @ c # s) = (if c = CHR ''-'' then undash s else c # s)"
  by (induction n) (simp_all add: undash_def dashes_def)

lemma undash_split: "undash s \<noteq> s \<Longrightarrow> \<exists>n. s = dashes n @ undash s"
proof -
  assume ne: "undash s \<noteq> s"
  have "s = takeWhile (\<lambda>c. c = CHR ''-'') s @ undash s" by (simp add: undash_def)
  moreover have "takeWhile (\<lambda>c. c = CHR ''-'') s = replicate (length (takeWhile (\<lambda>c. c = CHR ''-'') s)) CHR ''-''"
    by (induction s) auto
  moreover have "takeWhile (\<lambda>c. c = CHR ''-'') s \<noteq> []" using ne by (cases s) (auto simp: undash_def split: if_splits)
  ultimately show ?thesis unfolding dashes_def by (metis Suc_pred length_greater_0_conv)
qed

lemma dashes_not_Nil [simp]: "dashes n \<noteq> []" "rev (dashes n) = dashes n" "hd (dashes n) = CHR ''-''" "last (dashes n) = CHR ''-''"
  "CHR 0x00 \<notin> set (dashes n)" "length (dashes n) = Suc n"
  by (auto simp: dashes_def replicate_append_same)

text \<open>The two ends of the text decide it.\<close>

lemma isEncPem_regex:
  "isEncPem pem \<longleftrightarrow> (\<exists>i j k l m. CHR 0x00 \<notin> set m \<and>
     pem = dashes i @ BEGIN_ENC @ dashes j @ m @ dashes k @ END_ENC @ dashes l)"
proof
  assume P: "isEncPem pem"
  define a where "a = undash pem"
  define b where "b = rev (drop (length BEGIN_ENC) a)"
  define z where "z = undash b"
  define m where "m = drop (length END_ENC) z"
  have c: "a \<noteq> pem" "take (length BEGIN_ENC) a = BEGIN_ENC" "z \<noteq> b" "take (length END_ENC) z = rev END_ENC"
    "2 \<le> length m" "hd m = CHR ''-''" "last m = CHR ''-''" "CHR 0x00 \<notin> set m"
    using P by (simp_all add: isEncPem_def a_def b_def z_def m_def Let_def)
  obtain i where i: "pem = dashes i @ a" using undash_split c(1) unfolding a_def by blast
  have a: "a = BEGIN_ENC @ rev b" using append_take_drop_id [of "length BEGIN_ENC" a] c(2) by (simp add: b_def)
  obtain l where l: "b = dashes l @ z" using undash_split c(3) unfolding z_def by blast
  have z: "z = rev END_ENC @ m" using append_take_drop_id [of "length END_ENC" z] c(4) by (simp add: m_def)
  obtain m' where m: "m = CHR ''-'' # m' @ [CHR ''-'']"
    using c(5-7) by (cases m; cases "tl m" rule: rev_cases) auto
  have one: "dashes 0 = [CHR ''-'']" by (simp add: dashes_def)
  have "pem = dashes i @ BEGIN_ENC @ dashes 0 @ rev m' @ dashes 0 @ END_ENC @ dashes l" using i a l z m by (simp add: one)
  moreover have "CHR 0x00 \<notin> set (rev m')" using c(8) m by simp
  ultimately show "\<exists>i j k l m. CHR 0x00 \<notin> set m \<and> pem = dashes i @ BEGIN_ENC @ dashes j @ m @ dashes k @ END_ENC @ dashes l" by metis
next
  assume "\<exists>i j k l m. CHR 0x00 \<notin> set m \<and> pem = dashes i @ BEGIN_ENC @ dashes j @ m @ dashes k @ END_ENC @ dashes l"
  then obtain i j k l m where m: "CHR 0x00 \<notin> set m" "pem = dashes i @ BEGIN_ENC @ dashes j @ m @ dashes k @ END_ENC @ dashes l" by blast
  have a: "undash (dashes i @ BEGIN_ENC @ r) = BEGIN_ENC @ r" for i r by (simp add: BEGIN_ENC_def undash_dashes)
  have z: "undash (dashes i @ rev END_ENC @ r) = rev END_ENC @ r" for i r by (simp add: END_ENC_def undash_dashes)
  show "isEncPem pem" using m by (simp add: isEncPem_def a z)
qed

section \<open>Properties\<close>

lemma ask_pass_valid: "ask_pass valid typed = Some p \<Longrightarrow> valid p"
  by (induction typed) (auto split: if_splits)

lemma ask_pass_total: "p \<in> set typed \<Longrightarrow> valid p \<Longrightarrow> \<exists>p'. ask_pass valid typed = Some p'"
  by (induction typed) auto

lemma json_set_find: "json_set k v j = Some j' \<Longrightarrow> json_find j' k' = (if k' = k then Some v else json_find j k')"
  by (cases j) auto

text \<open>When the command line is accepted, the password that is kept opens an encrypted signing key, and the files are at the path of
  the option, whatever the settings file says, since the option has a default value.\<close>

lemma accepted_command_line:
  assumes "parse_args E load_key mem argc (Some opts) file2str typed st pool = PARSED True st' pool' clear"
  shows "(isEncPem (m_sk st') \<longrightarrow> load_key (m_sk st') (m_sk_pass st')) \<and> (opt_dbpath opts \<noteq> [] \<longrightarrow> m_db_path st' = opt_dbpath opts) \<and>
    (m_db_check st' \<longleftrightarrow> m_db_check st \<or> opt_dbcheck opts)"
proof -
  obtain j0 j st1 where j: "override opts j0 = Some j" "setting_setJson E mem j st pool = (True, st1, pool')"
    and st': "(isEncPem (m_sk st1) \<and> (\<exists>p. ask_pass (isValidPass load_key (m_sk st1)) typed = Some p \<and> st' = set_flags opts (st1\<lparr>m_sk_pass := p\<rparr>)))
      \<or> (\<not> isEncPem (m_sk st1) \<and> st' = set_flags opts st1)"
    using assms by (auto simp: parse_args_def split: if_splits option.splits prod.splits)
  have "getStringK j ''dbpath'' = opt_dbpath opts" if ne: "opt_dbpath opts \<noteq> []"
  proof -
    obtain j2 where "json_set ''dbpath'' (JStr (opt_dbpath opts)) j2 = Some j" using j(1) ne by (simp add: override_def bind_eq_Some_conv) blast
    then have "json_find j ''dbpath'' = Some (JStr (opt_dbpath opts))" by (simp add: json_set_find)
    then show ?thesis by (simp add: getStringK_def getString_def)
  qed
  moreover have "m_db_path st1 = getStringK j ''dbpath''" "m_db_check st1 = m_db_check st"
    using j(2) by (auto simp: setting_setJson_def Let_def split: if_splits)
  moreover have "load_key (m_sk st1) p" if "ask_pass (isValidPass load_key (m_sk st1)) typed = Some p" for p
    using ask_pass_valid [OF that] by (simp add: isValidPass_def)
  ultimately show ?thesis using st' by (auto simp: set_flags_def)
qed

text \<open>The prompt ends when a valid password is typed.\<close>

lemma prompt_ends:
  assumes "\<And>pem. \<exists>p \<in> set typed. load_key pem p"
  shows "parse_args E load_key mem argc result file2str typed st pool \<noteq> PROMPT_WAITS"
proof -
  have "\<exists>p'. ask_pass (isValidPass load_key pem) typed = Some p'" for pem
    using assms [of pem] ask_pass_total [of _ typed "isValidPass load_key pem"] by (auto simp: isValidPass_def)
  then show ?thesis by (auto simp: parse_args_def split: option.splits prod.splits if_splits) (metis option.distinct(1))+
qed

end
