(* ===== verification/Chain_Example.thy ===== *)
theory Chain_Example
  imports Processor_Safety
begin

text \<open>
  A run of the block processor that stores a block: two blocks arrive, the first with three signatures of a
  signer whose certificate is in the ledger, and the second resolves the first. The routines are those of
  \<^const>\<open>ext0\<close> with an encoding of bytes as pairs of letters, which has no underscore, and with short texts for the
  two headers.
\<close>

section \<open>Routines\<close>

definition hex_encode :: "bytes \<Rightarrow> string" where
  "hex_encode b = concat (map (\<lambda>x. [char_of (65 + unat x div 16), char_of (65 + unat x mod 16)]) b)"

fun hex_decode :: "string \<Rightarrow> bytes" where
  "hex_decode (c # d # s) = word_of_nat (16 * (of_char c - 65) + (of_char d - 65)) # hex_decode s"
| "hex_decode _ = []"

lemma hex_decode_encode: "hex_decode (hex_encode b) = b"
proof -
  have "unat x < 256" for x :: byte using unsigned_less [of x] by simp
  then have "unat x div 16 < 16" "unat x mod 16 < 16" for x :: byte by (simp_all add: div_less_iff_less_mult)
  then have "(of_char (char_of (65 + unat x div 16) :: char) :: nat) = 65 + unat x div 16"
    "(of_char (char_of (65 + unat x mod 16) :: char) :: nat) = 65 + unat x mod 16" for x :: byte
    by (simp_all add: order.strict_trans2 [of _ 16])
  then show ?thesis by (induction b) (simp_all add: hex_encode_def)
qed

text \<open>The letters are below the underscore.\<close>

lemma letter_not_underscore: "n < 95 \<Longrightarrow> CHR ''_'' \<noteq> char_of (n :: nat)"
proof
  assume n: "n < 95" and eq: "CHR ''_'' = char_of n"
  from eq have "(of_char CHR ''_'' :: nat) = n mod 256" by simp
  with n show False by simp
qed

lemma hex_no_underscore: "CHR ''_'' \<notin> set (hex_encode b)"
proof -
  have "unat x < 256" for x :: byte using unsigned_less [of x] by simp
  then have "unat x < 480" for x :: byte by (rule order.strict_trans) simp
  then have "65 + unat x div 16 < 95" "65 + unat x mod 16 < 95" for x :: byte by (simp_all add: div_less_iff_less_mult)
  then show ?thesis using letter_not_underscore by (auto simp: hex_encode_def)
qed

definition ext_hex :: ext where
  "ext_hex = ext0\<lparr>base64_encode := hex_encode, base64_decode := \<lambda>s. Some (hex_decode s)\<rparr>"

text \<open>The second block links to the digest of the first, which is the one digest of \<^const>\<open>ext0\<close>.\<close>

definition msg_of :: "Block \<Rightarrow> bytes" where
  "msg_of b = getBytes (append_vec (getSupportSigMessageCommon b) (append_vec [6] bb_new))"

definition unsigned_a :: Block where
  "unsigned_a = \<lparr>m_version = 1, m_time = 0, m_block_id = [1], m_merger_id = [2], m_chain_id = replicate 8 3, m_height = 1,
     m_tx_root = last (calcMerkleTreeNode ext_hex [tx_a]), m_prev_block_hash = [], m_block_hash = [], m_prev_block_id = [],
     m_signature = [], m_transactions = [tx_a], m_merkle_tree_node = calcMerkleTreeNode ext_hex [tx_a],
     m_ssigs = [], m_user_certs = Map.empty, m_block_raw = []\<rparr>"

definition sig_a :: Signature where
  "sig_a = \<lparr>sig_signer_id = [6], sig_signer_signature = stringToBytes ''key'' @ msg_of unsigned_a, sig_height = 0\<rparr>"

definition pre_a :: Block where
  "pre_a = unsigned_a\<lparr>m_ssigs := [sig_a, sig_a, sig_a]\<rparr>"

definition pre_b :: Block where
  "pre_b = pre_a\<lparr>m_height := 2, m_block_id := [9], m_prev_block_id := [1], m_prev_block_hash := dummy_leaf, m_ssigs := [sig_a]\<rparr>"

definition ext_w :: ext where
  "ext_w = ext_hex\<lparr>
     json_dump := (\<lambda>j. if j = getBlockHeaderJson ext_hex pre_a then ''0'' else if j = getBlockHeaderJson ext_hex pre_b then ''1''
       else CHR ''x'' # replicate (to_nat j) CHR ''x''),
     json_parse := (\<lambda>s. if s = [] then None else if s = ''0'' then Some (getBlockHeaderJson ext_hex pre_a)
       else if s = ''1'' then Some (getBlockHeaderJson ext_hex pre_b) else Some (from_nat (length s - 1)))\<rparr>"

lemma ext_w_same:
  "encodeBase64 ext_w = encodeBase64 ext_hex" "decodeBase64 ext_w = decodeBase64 ext_hex"
  "sha256 ext_w = sha256 ext0" "ecdsa_verify ext_w = ecdsa_verify ext0" "ecdsa_sign ext_w = ecdsa_sign ext0"
  "getDigest ext_w = getDigest ext_hex" "sha256 ext_hex = sha256 ext0"
  by (simp_all add: ext_w_def ext_hex_def fun_eq_iff encodeBase64_def decodeBase64_def getDigest_def)

lemma ext_w_laws: "base64_law ext_w" "cbor_law ext_w" "dump_law ext_w" "lz4_law ext_w" "pk \<noteq> [] \<Longrightarrow> key_pair ext_w pk pass pk"
  "b64_alphabet ext_w"
proof -
  show "base64_law ext_w" by (simp add: base64_law_def ext_w_def ext_hex_def hex_decode_encode) (simp add: hex_encode_def)
  show "cbor_law ext_w" using ext0_laws(2) by (simp add: cbor_law_def ext_w_def ext_hex_def)
  show "dump_law ext_w" by (simp add: dump_law_def ext_w_def)
  show "lz4_law ext_w" using ext0_laws(5) by (simp add: lz4_law_def ext_w_def ext_hex_def)
  show "pk \<noteq> [] \<Longrightarrow> key_pair ext_w pk pass pk" using ext0_key_pair [of pk pass] unfolding key_pair_def ext_w_same .
  show "b64_alphabet ext_w" using hex_no_underscore by (simp add: b64_alphabet_def ext_w_def ext_hex_def)
qed

lemma ext_w_trees: "calcMerkleTreeNode ext_w txs = calcMerkleTreeNode ext_hex txs" "getBlockHeaderJson ext_w b = getBlockHeaderJson ext_hex b"
proof -
  have "makeParent ext_w = makeParent ext_hex"
    by (simp add: fun_eq_iff makeParent_def HASH_LOOKUP_def ext_w_same split: option.split)
  then show "calcMerkleTreeNode ext_w txs = calcMerkleTreeNode ext_hex txs"
    by (simp add: calcMerkleTreeNode_def ext_w_same generate_def generate_n_def set_parents_def)
  show "getBlockHeaderJson ext_w b = getBlockHeaderJson ext_hex b" unfolding getBlockHeaderJson_def ext_w_same ..
qed

section \<open>Blocks\<close>

lemmas pre_defs = pre_a_def pre_b_def unsigned_a_def sig_a_def

lemma pre_fits: "header_fits ext_w pre_a" "header_fits ext_w pre_b"
proof -
  have "length (header_comp ext_w pre_a) = 1" "length (json_dump ext_w (getBlockHeaderJson ext_hex pre_a)) = 1"
    "length (header_comp ext_w pre_b) = 1" "length (json_dump ext_w (getBlockHeaderJson ext_hex pre_b)) = 1"
    by (simp_all add: header_comp_def compressData_def ext_w_trees stringToBytes_def)
      (simp_all add: ext_w_def ext_hex_def ext0_def)
  then show "header_fits ext_w pre_a" "header_fits ext_w pre_b" by (simp_all add: header_fits_def ext_w_trees)
qed

lemma pre_ok: "block_ok ext_w pre_a" "block_ok ext_w pre_b"
  using tx_a_ok pre_fits
  by (simp_all add: block_ok_def ext_w_trees) (simp_all add: pre_defs CHAIN_ID_TYPE_SIZE_def getCertsIf_def)

definition blk_a :: Block where "blk_a = finalize ext_w ''key'' [] pre_a"
definition blk_b :: Block where "blk_b = finalize ext_w ''key'' [] pre_b"

definition certs_w :: CertificatePool where "certs_w = (\<lambda>_. Some ''key'')"

lemma pre_valid: "tx_isValid ext_w ''key'' tx_a" "calcMerkleTreeNode ext_hex [tx_a] \<noteq> []"
proof -
  have "tx_isValid ext0 ''key'' tx_a"
    unfolding tx_a_def by (rule fresh_transaction_valid [OF ext0_key_pair]) (simp_all add: genNewTxId_def)
  then show "tx_isValid ext_w ''key'' tx_a"
    by (simp add: tx_isValid_def buildTxId_def doVerify_def ext_w_same split: if_splits)
  show "calcMerkleTreeNode ext_hex [tx_a] \<noteq> []"
    using length_calcMerkleTreeNode [of ext_hex "[tx_a]"] by (auto simp: MAX_MERKLE_LEAVES_def simp del: length_calcMerkleTreeNode)
qed

lemma blk_early: "isValidEarly ext_w (\<lambda>uid. getCert ext_w uid certs_w) blk_a = Some True"
  "isValidEarly ext_w (\<lambda>uid. getCert ext_w uid certs_w) blk_b = Some True"
proof -
  have tree: "m_merkle_tree_node pre_a \<noteq> []" "m_merkle_tree_node pre_b \<noteq> []" "m_tx_root pre_a = last (m_merkle_tree_node pre_a)"
    "m_tx_root pre_b = last (m_merkle_tree_node pre_b)" "m_transactions pre_a = [tx_a]" "m_transactions pre_b = [tx_a]"
    using pre_valid(2) by (simp_all add: pre_defs)
  have key: "getCert ext_w uid certs_w = ''key''" for uid by (simp add: getCert_def certs_w_def)
  show "isValidEarly ext_w (\<lambda>uid. getCert ext_w uid certs_w) blk_a = Some True"
    unfolding blk_a_def by (rule finalized_block_valid) (simp_all add: pre_fits tree pre_valid key ext_w_laws)
  show "isValidEarly ext_w (\<lambda>uid. getCert ext_w uid certs_w) blk_b = Some True"
    unfolding blk_b_def by (rule finalized_block_valid) (simp_all add: pre_fits tree pre_valid key ext_w_laws)
qed

definition body_w :: "Block \<Rightarrow> json" where
  "body_w b = json_obj [(''blockraw'', JStr (encodeBase64 ext_w (m_block_raw b))), (''tx'', getBlockTXsAsJson ext_w b)]"

lemma blk_parsed: "initialize_msg ext_w [] (body_w blk_a) new_block = Some (True, blk_a)"
  "initialize_msg ext_w [] (body_w blk_b) new_block = Some (True, blk_b)"
  using initialize_finalize [OF pre_ok(1) ext_w_laws(1,4,3) ext_w_laws(5), of "''key''" "[]" "[]" new_block]
    initialize_finalize [OF pre_ok(2) ext_w_laws(1,4,3) ext_w_laws(5), of "''key''" "[]" "[]" new_block]
    getBytesFromB64_written [OF ext_w_laws(1), of "body_w blk_a" "''blockraw''" "m_block_raw blk_a"]
    getBytesFromB64_written [OF ext_w_laws(1), of "body_w blk_b" "''blockraw''" "m_block_raw blk_b"]
  by (simp_all add: initialize_msg_def body_w_def blk_a_def blk_b_def getBlockTXsAsJson_def)

lemma blk_fields:
  "m_height blk_a = 1" "m_block_id blk_a = [1]" "m_prev_block_id blk_a = []" "m_prev_block_hash blk_a = []" "m_block_hash blk_a = dummy_leaf"
  "m_height blk_b = 2" "m_block_id blk_b = [9]" "m_prev_block_id blk_b = [1]" "m_prev_block_hash blk_b = dummy_leaf" "m_block_hash blk_b = dummy_leaf"
  "m_ssigs blk_a = [sig_a, sig_a, sig_a]" "m_ssigs blk_b = [sig_a]" "m_transactions blk_a = [tx_a]" "m_transactions blk_b = [tx_a]"
  "m_time blk_a = 0" "m_user_certs blk_a = Map.empty"
  by (simp_all add: blk_a_def blk_b_def pre_defs) (simp_all add: finalize_def Let_def ext_w_same ext0_def)

section \<open>The certificate in the ledger\<close>

definition cert_key :: string where "cert_key = getPrefix LEDGER @ ''C'' @ encodeBase64 ext_w [6]"

definition cert_storage :: Storage where
  "cert_storage = new_storage\<lparr>m_db := (m_db new_storage)(LEDGER :=
     [cert_key \<mapsto> to_string 1, cert_key @ ''_'' @ to_string 0 \<mapsto> json_dump ext_w (JArr [JStr ''1'', JStr ''2'', JStr ''key''])])\<rparr>"

definition has_cert :: "LayeredStorage \<Rightarrow> bool" where
  "has_cert ls \<longleftrightarrow> m_mem_ledger ls = [] \<and> m_db (m_storage ls) LEDGER = m_db cert_storage LEDGER"

lemma cert_found: "has_cert ls \<Longrightarrow> getCertificate ext_w (encodeBase64 ext_w [6]) 0 ls = Some ''key''"
proof -
  assume c: "has_cert ls"
  have none: "read_layers k layer [] = []" for k layer by (induction layer) (simp_all add: getVal_def)
  have read: "ledger_read ''C'' k ls = (case m_db cert_storage LEDGER (getPrefix LEDGER @ ''C'' @ k) of Some v \<Rightarrow> v | None \<Rightarrow> [])" for k
    using c by (simp add: has_cert_def ledger_read_def ls_readLedgerByKey_def none st_readLedgerByKey_def getValueByKey_def)
  have "ledger_read ''C'' (encodeBase64 ext_w [6]) ls = to_string 1"
    "ledger_read ''C'' (encodeBase64 ext_w [6] @ ''_'' @ to_string 0) ls = json_dump ext_w (JArr [JStr ''1'', JStr ''2'', JStr ''key''])"
    by (simp_all add: read cert_storage_def cert_key_def)
  moreover have "stoi (to_string 1) = Some 1" using stoi_to_string [of 1] by simp
  moreover have "parseJsonAsArray ext_w (json_dump ext_w (JArr js)) = JArr js" for js
    using ext_w_laws(3) by (simp add: dump_law_def parseJsonAsArray_def parseJson_def)
  ultimately show ?thesis by (simp add: getCertificate_def int_to_string_def getString_def)
qed

lemma blk_late: "has_cert ls \<Longrightarrow> isValidLate ext_w (\<lambda>id_b64 t. getCertificate ext_w id_b64 t ls) blk_a = Some True"
proof -
  assume c: "has_cert ls"
  have "getSupportSigMessageCommon blk_a = getSupportSigMessageCommon unsigned_a"
    by (simp add: getSupportSigMessageCommon_def blk_a_def pre_a_def) (simp add: finalize_def Let_def)
  then have "getBytes (append_vec (getSupportSigMessageCommon blk_a) (append_vec [6] bb_new)) = msg_of unsigned_a" by (simp add: msg_of_def)
  moreover have "doVerify ext_w ''key'' m (stringToBytes ''key'' @ m)" for m by (simp add: doVerify_def ext_w_same ext0_def)
  ultimately show ?thesis
    by (simp add: isValidLate_def blk_fields sig_a_def cert_found [OF c])
qed

section \<open>The first block is resolved and saved\<close>

lemma finalize_keeps [simp]:
  "m_chain_id (finalize E sk pass b) = m_chain_id b" "m_user_certs (finalize E sk pass b) = m_user_certs b"
  by (simp_all add: finalize_def Let_def)

lemma blk_ok: "block_ok ext_w blk_a" "block_ok ext_w blk_b"
  using pre_ok by (simp_all add: block_ok_def blk_a_def blk_b_def header_fits_def header_comp_def)

lemma blk_saveable: "saveable ext_w blk_a" "saveable ext_w blk_b"
  using blk_ok by (simp_all add: saveable_def blk_fields getTxIds_def MAX_MERKLE_LEAVES_def)

definition chain_pool :: "LayeredStorage \<Rightarrow> UnresolvedBlockPool" where
  "chain_pool ls = (new_pool ls)\<lparr>m_block_pool := [[entry_w 0 blk_a], [entry_w 0 blk_b]]\<rparr>"

lemma chain_pool_inv: "pool_inv (chain_pool ls)"
  by (simp add: pool_inv_def skel_inv_def chain_pool_def new_pool_def entry_w_def entry_ok_def parent_at_def links_to_def
      less_Suc_eq blk_fields)

lemma chain_resolve:
  "\<exists>u q. resolveBlocksStepByStep ext_w (chain_pool ls) = (q, Some (u, [])) \<and> ub_block u = blk_a \<and>
     length (m_block_pool q) = 1 \<and> m_layered_storage q = ls"
  by (simp add: resolveBlocksStepByStep_def updateConfirmLevel_def add_levels_def pick_resolved_def BLOCK_CONFIRM_LEVEL_def resolve_at_def
      relink_def dropped_ids_def chain_pool_def new_pool_def entry_w_def blk_fields Let_def)

definition cert_ls :: LayeredStorage where
  "cert_ls = \<lparr>m_storage = cert_storage, m_mem_ledger = [], m_block_layer = []\<rparr>"

lemma cert_storage_reads: "w \<noteq> LEDGER \<Longrightarrow> getValueByKey w k cert_storage = []" "batches_empty cert_storage"
  "stored_up_to ext_w 0 cert_storage" "has_cert cert_ls"
proof -
  show *: "getValueByKey w k cert_storage = []" if "w \<noteq> LEDGER" for w k
    using that by (simp add: cert_storage_def getValueByKey_def new_storage_def)
  show "batches_empty cert_storage" by (simp add: batches_empty_def cert_storage_def new_storage_def)
  then show "stored_up_to ext_w 0 cert_storage" by (simp add: stored_up_to_def getNthBlockLinkInfo_def *)
  show "has_cert cert_ls" by (simp add: has_cert_def cert_ls_def)
qed

theorem storage_follows_pool_witness:
  "\<exists>p'. procResolvedBlocksIf ext_w (chain_pool cert_ls) = Some p' \<and> m_last_height p' = 1 \<and>
    stored_up_to ext_w 1 (pool_storage p') \<and> getNthBlockIdB64 1 (pool_storage p') = getBlockIdB64 ext_w blk_a"
proof -
  let ?p = "chain_pool cert_ls"
  obtain u q where u: "resolveBlocksStepByStep ext_w ?p = (q, Some (u, []))" "ub_block u = blk_a" "length (m_block_pool q) = 1"
    "m_layered_storage q = cert_ls" using chain_resolve by blast
  let ?p1 = "updateConfirmLevel q"
  have "resolve_loop ext_w ?p [] [] = (?p1, [u], [])" by (subst resolve_loop.simps) (simp add: u resolve_short)
  moreover have ls: "m_layered_storage ?p1 = cert_ls" by (simp add: u updateConfirmLevel_def)
  ultimately have g: "getResolvedBlocks ext_w ?p = (([u], []), ?p1)"
    by (simp add: getResolvedBlocks_def readBackupIds_def readBackup_def pool_storage_def cert_ls_def cert_storage_reads)
  have late: "isValidLate ext_w (\<lambda>id_b64 t. getCertificate ext_w id_b64 t cert_ls) (ub_block u) = Some True"
    using blk_late cert_storage_reads(4) by (simp add: u)
  obtain l where l: "getNthBlockLinkInfo ext_w 0 cert_storage = Some l" "link_height l = 0"
    using cert_storage_reads(3) by (auto simp: stored_up_to_def)
  obtain body st' where "getBlockBodyJson ext_w blk_a = Some body"
    "saveBlock ext_w (m_block_raw blk_a) (getBlockHeaderJson ext_w blk_a) body cert_storage = Some (True, st')"
    using saveable_saved [OF blk_saveable(1) ext_w_laws(1) cert_storage_reads(2) l(1)] l(2) by (auto simp: blk_fields)
  then obtain ls' where saved: "save_resolved ext_w u cert_ls = Some ls'"
    using late by (simp add: save_resolved_def u cert_ls_def)
  then have p': "procResolvedBlocksIf ext_w ?p = Some (?p1\<lparr>m_layered_storage := ls'\<rparr>)"
    by (simp add: procResolvedBlocksIf_def g ls)
  have blocks: "\<forall>b \<in> pool_blocks ?p. saveable ext_w b" using blk_saveable by (simp add: pool_blocks_def chain_pool_def entry_w_def)
  have start: "stored_up_to ext_w (m_last_height ?p) (pool_storage ?p)"
    using cert_storage_reads(3) by (simp add: chain_pool_def new_pool_def pool_storage_def cert_ls_def)
  from storage_follows_pool [OF p' g chain_pool_inv blocks ext_w_laws(1) start] show ?thesis
    using p' late saved by (simp add: ls height_of_def u blk_fields)
qed

section \<open>Two messages\<close>

definition quiet :: "Storage \<Rightarrow> bool" where
  "quiet st \<longleftrightarrow> m_db st LEDGER = m_db cert_storage LEDGER \<and> block_dbs st = block_dbs cert_storage"

lemma backup_frame_ledger [simp]:
  "m_db (saveBackup k v st) LEDGER = m_db st LEDGER" "m_db (delBackup k st) LEDGER = m_db st LEDGER" "m_db (flushBackup st) LEDGER = m_db st LEDGER"
  by (simp_all add: saveBackup_def delBackup_def flushBackup_def clearBackup_def addBatch_def batch_add_def write_batch_def clear_batch_def)

lemma quiet_simps [simp]:
  "quiet (saveBackup k v st) = quiet st" "quiet (delBackup k st) = quiet st" "quiet (flushBackup st) = quiet st"
  by (simp_all add: quiet_def)

lemma quiet_dels [simp]: "quiet (fold delBackup ids st) = quiet st"
  by (induction ids arbitrary: st) simp_all

lemma blk_serialize: "\<exists>s. serialize ext_w blk_a = Some s" "\<exists>s. serialize ext_w blk_b = Some s"
  using serialize_finalized [OF pre_ok(1)] serialize_finalized [OF pre_ok(2)]
  by (simp_all add: blk_a_def blk_b_def pre_defs MAX_MERKLE_LEAVES_def)

text \<open>What \<open>backupPool\<close> leaves in the storage.\<close>

definition backed_up :: "UnresolvedBlockPool \<Rightarrow> Storage" where
  "backed_up p = pool_storage (the (backupPool ext_w p))"

lemma backup_w:
  assumes "set (map ub_block (concat (m_block_pool p))) \<subseteq> {blk_a, blk_b}"
  shows "backupPool ext_w p = Some (set_pool_storage (backed_up p) p)" "quiet (pool_storage p) \<Longrightarrow> quiet (backed_up p)"
proof -
  let ?f = "\<lambda>b st. do { s \<leftarrow> serialize ext_w b; Some (saveBackup (getBlockIdB64 ext_w b) s st) }"
  have "\<exists>st. fold_opt ?f bs st0 = Some st \<and> (quiet st0 \<longrightarrow> quiet st)" if "set bs \<subseteq> {blk_a, blk_b}" for bs st0
    using that
  proof (induction bs arbitrary: st0)
    case (Cons b bs)
    obtain s where s: "serialize ext_w b = Some s" using Cons.prems blk_serialize by auto
    from Cons.IH [of "saveBackup (getBlockIdB64 ext_w b) s st0"] Cons.prems s show ?case by simp
  qed simp
  from this [OF assms, of "pool_storage p"] obtain st where
    "fold_opt ?f (map ub_block (concat (m_block_pool p))) (pool_storage p) = Some st" "quiet (pool_storage p) \<longrightarrow> quiet st" by blast
  then show "backupPool ext_w p = Some (set_pool_storage (backed_up p) p)" "quiet (pool_storage p) \<Longrightarrow> quiet (backed_up p)"
    by (simp_all add: backupPool_def backed_up_def pool_storage_def set_pool_storage_def)
qed

lemma blk_ledger: "procLedgerBlock ext_w (getBlockTXsAsJson ext_w blk_a) bid layer ls = Some ls"
  "procLedgerBlock ext_w (getBlockTXsAsJson ext_w blk_b) bid layer ls = Some ls"
  by (simp_all add: procLedgerBlock_certificates procBlock_def getBlockTXsAsJson_def blk_fields tx_getJson_def tx_a_ok
      txTypeToStr_def TXTYPE_CERTIFICATES_def TXTYPE_DIGESTS_def)

definition id_a :: string where "id_a = encodeBase64 ext_w [1]"
definition id_b :: string where "id_b = encodeBase64 ext_w [9]"

lemma ids_w: "getBlockIdB64 ext_w blk_a = id_a" "getBlockIdB64 ext_w blk_b = id_b" "id_a \<noteq> []" "id_b \<noteq> []" "id_a \<noteq> id_b" "id_b \<noteq> id_a"
  using base64_empty_iff [OF ext_w_laws(1)] base64_inj [OF ext_w_laws(1)]
  by (simp_all add: getBlockIdB64_def blk_fields encodeBase64_def id_a_def id_b_def)

definition pool_1 :: "Storage \<Rightarrow> UnresolvedBlockPool" where
  "pool_1 st = (new_pool \<lparr>m_storage = st, m_mem_ledger = [], m_block_layer = [id_a]\<rparr>)\<lparr>m_block_pool := [[entry_w 0 blk_a]],
     m_height_range_max := 1, m_cache_possible_block_layer := Some [id_a], m_cache_possible_pos := Some (1, 0)\<rparr>"

lemmas pool_steps = push_def push_at_def prepareBins_def bin_of_def cast_int_def find_prev_def block_eq_def BP_INTERVAL_def
  getBlockLayer_def walk_layer.simps block_at_def forwardBlocksToLedgerFrom_def forwardBlockToLedgerAt_def upd_block_def
  invalidateCaches_def getMostPossibleBlockLayer_def getLongestBlockPos_def longest_pos_def relax_pos_def walk_ids.simps
  set_pool_storage_def pool_storage_def setBlockLayer_def new_pool_def entry_w_def cert_ls_def Let_def

lemma push_1: "\<exists>st. push ext_w 100 blk_a False (new_pool cert_ls) =
    Some (\<lparr>res_linked = True, res_duplicated = False, res_height = 1, res_block_layer = []\<rparr>, pool_1 st) \<and> quiet st"
proof -
  let ?q = "(new_pool cert_ls)\<lparr>m_block_pool := [[entry_w 0 blk_a]]\<rparr>"
  have "quiet (pool_storage ?q)" by (simp add: pool_storage_def new_pool_def cert_ls_def quiet_def)
  then have "quiet (backed_up ?q)" by (rule backup_w(2) [rotated]) (simp add: entry_w_def)
  moreover have "push ext_w 100 blk_a False (new_pool cert_ls) =
    Some (\<lparr>res_linked = True, res_duplicated = False, res_height = 1, res_block_layer = []\<rparr>, pool_1 (backed_up ?q))"
    by (simp add: pool_steps blk_fields backup_w(1) blk_ledger ids_w pool_1_def)
  ultimately show ?thesis by blast
qed

text \<open>Taking out resolved blocks changes the backup only.\<close>

lemma getResolved_w:
  assumes "resolve_loop ext_w p [] [] = (q, rs, ds)" "quiet (pool_storage q)"
  shows "\<exists>st. getResolvedBlocks ext_w p = ((rs, ds), set_pool_storage st q) \<and> quiet st"
proof (cases "json_empty (readBackupIds ext_w (pool_storage q)) \<or> \<not> is_array (readBackupIds ext_w (pool_storage q))")
  case True
  have "set_pool_storage (pool_storage q) q = q" by (simp add: set_pool_storage_def pool_storage_def)
  with True assms show ?thesis by (intro exI [of _ "pool_storage q"]) (simp add: getResolvedBlocks_def)
next
  case False
  then show ?thesis
    unfolding getResolvedBlocks_def assms(1) Let_def prod.case using assms(2)
    by (simp del: fold_append) (intro exI conjI, rule refl, simp)
qed

lemma accept_w:
  assumes "getMostPossibleLink (ub_pool a) = Some (l, p)" "procResolvedBlocksIf ext_w p = Some p2"
    "getUnresolvedLowestLink p2 = Some ((0, x), p3)" "tp_inv h (app_transaction_pool a)"
  shows "\<exists>a'. accept_block ext_w st h body b True a = Some a' \<and> ub_pool a' = p3 \<and> tp_inv h (app_transaction_pool a')"
proof -
  obtain txp where "removeDuplicatedTransactions h (getTxIds b) (app_transaction_pool a) = Some txp" "tp_inv h txp"
    using remove_pending [OF assms(4)] by blast
  then show ?thesis
    using assms(1-3)
    by (simp add: accept_block_def announce_link_def bp_getMostPossibleLink_def tryResolveUnresolvedBlocksIf_def Let_def
        app_send_def set_ub_pool_def ub_pool_def)
qed

definition entry_a :: UnresolvedBlock where
  "entry_a = (entry_w 0 blk_a)\<lparr>confirm_level := 3\<rparr>"

definition pool_2 :: "nth_link_type \<Rightarrow> Storage \<Rightarrow> UnresolvedBlockPool" where
  "pool_2 l st = (pool_1 st)\<lparr>m_block_pool := [[entry_a]], m_cache_possible_link := Some l\<rparr>"

lemma link_1: "\<exists>l. getMostPossibleLink (pool_1 st) = Some (l, (pool_1 st)\<lparr>m_cache_possible_link := Some l\<rparr>)"
  by (simp add: getMostPossibleLink_def pool_1_def pool_steps)

lemma resolved_1:
  assumes "quiet st"
  shows "\<exists>st'. procResolvedBlocksIf ext_w ((pool_1 st)\<lparr>m_cache_possible_link := Some l\<rparr>) = Some (pool_2 l st') \<and> quiet st'"
proof -
  let ?p = "(pool_1 st)\<lparr>m_cache_possible_link := Some l\<rparr>"
  have loop: "resolve_loop ext_w ?p [] [] = (updateConfirmLevel ?p, [], [])" by (rule resolve_short) (simp add: pool_1_def)
  have u: "updateConfirmLevel ?p = pool_2 l st"
    by (simp add: updateConfirmLevel_def pool_2_def pool_1_def entry_a_def entry_w_def new_pool_def blk_fields)
  have "quiet (pool_storage (pool_2 l st))" using assms by (simp add: pool_2_def pool_1_def pool_storage_def new_pool_def)
  from getResolved_w [OF loop [unfolded u] this] obtain st' where
    g: "getResolvedBlocks ext_w ?p = (([], []), set_pool_storage st' (pool_2 l st))" "quiet st'" by blast
  have "set_pool_storage st' (pool_2 l st) = pool_2 l st'" by (simp add: set_pool_storage_def pool_2_def pool_1_def new_pool_def)
  then show ?thesis using g by (auto simp: procResolvedBlocksIf_def)
qed

lemma lowest_2: "getUnresolvedLowestLink (pool_2 l st) = Some ((0, []), pool_2 l st)"
  by (simp add: getUnresolvedLowestLink_def getLongestBlockPos_def pool_2_def pool_1_def new_pool_def)

definition msg_w :: "Block \<Rightarrow> InputMsgEntry" where
  "msg_w b = \<lparr>in_type = MSG_BLOCK, in_body = body_w b\<rparr>"

lemma first_message:
  "\<exists>a l st. bp_handleMessage ext_w [] new_setting certs_w (\<lambda>_. 0) 100 (msg_w blk_a) (node_w (new_pool cert_ls)) = Some a \<and>
     ub_pool a = pool_2 l st \<and> quiet st \<and> tp_inv (\<lambda>_. 0) (app_transaction_pool a)"
proof -
  obtain st where p: "push ext_w 100 blk_a False (new_pool cert_ls) =
    Some (\<lparr>res_linked = True, res_duplicated = False, res_height = 1, res_block_layer = []\<rparr>, pool_1 st)" "quiet st" using push_1 by blast
  obtain l where l: "getMostPossibleLink (pool_1 st) = Some (l, (pool_1 st)\<lparr>m_cache_possible_link := Some l\<rparr>)" using link_1 by blast
  obtain st' where st': "procResolvedBlocksIf ext_w ((pool_1 st)\<lparr>m_cache_possible_link := Some l\<rparr>) = Some (pool_2 l st')" "quiet st'"
    using resolved_1 [OF p(2)] by blast
  let ?a = "set_ub_pool (pool_1 st) (node_w (new_pool cert_ls))"
  have "tp_inv (\<lambda>_. 0) (app_transaction_pool ?a)" by (simp add: set_ub_pool_def node_w_def tp_inv_new)
  from accept_w [where a = ?a and st = new_setting and body = "body_w blk_a" and b = blk_a, OF _ st'(1) lowest_2 this] l obtain a' where
    "accept_block ext_w new_setting (\<lambda>_. 0) (body_w blk_a) blk_a True ?a = Some a'" "ub_pool a' = pool_2 l st'"
    "tp_inv (\<lambda>_. 0) (app_transaction_pool a')" by auto
  moreover have "ub_pool (node_w (new_pool cert_ls)) = new_pool cert_ls" by (simp add: ub_pool_def node_w_def)
  ultimately show ?thesis
    using p(1) st'(2) by (auto simp: bp_handleMessage_def msg_w_def handleMsgBlock_def blk_parsed blk_early)
qed

definition pool_3 :: "Storage \<Rightarrow> UnresolvedBlockPool" where
  "pool_3 st = (new_pool \<lparr>m_storage = st, m_mem_ledger = [], m_block_layer = [id_b, id_a]\<rparr>)\<lparr>m_block_pool :=
     [[entry_a], [(entry_w 0 blk_b)\<lparr>ub_block_layer := [id_a]\<rparr>]], m_height_range_max := 2,
     m_cache_possible_block_layer := Some [id_b, id_a], m_cache_possible_pos := Some (2, 0)\<rparr>"

lemma push_2:
  assumes "quiet st"
  shows "\<exists>st'. push ext_w 200 blk_b False (pool_2 l st) =
    Some (\<lparr>res_linked = True, res_duplicated = False, res_height = 2, res_block_layer = [id_a]\<rparr>, pool_3 st') \<and> quiet st'"
proof -
  let ?q = "(pool_2 l st)\<lparr>m_block_pool := [[entry_a], [(entry_w 0 blk_b)\<lparr>ub_block_layer := [id_a]\<rparr>]]\<rparr>"
  have "quiet (pool_storage ?q)" using assms by (simp add: pool_storage_def pool_2_def pool_1_def new_pool_def)
  then have "quiet (backed_up ?q)" by (rule backup_w(2) [rotated]) (simp add: entry_a_def entry_w_def)
  moreover have "push ext_w 200 blk_b False (pool_2 l st) =
    Some (\<lparr>res_linked = True, res_duplicated = False, res_height = 2, res_block_layer = [id_a]\<rparr>, pool_3 (backed_up ?q))"
    by (simp add: pool_steps blk_fields backup_w(1) blk_ledger ids_w pool_2_def pool_1_def pool_3_def entry_a_def)
  ultimately show ?thesis by blast
qed

lemma link_3: "\<exists>l. getMostPossibleLink (pool_3 st) = Some (l, (pool_3 st)\<lparr>m_cache_possible_link := Some l\<rparr>)"
  by (simp add: getMostPossibleLink_def pool_3_def pool_steps)

text \<open>The first block is taken out.\<close>

lemma loop_3:
  "\<exists>u q. resolve_loop ext_w ((pool_3 st)\<lparr>m_cache_possible_link := Some l\<rparr>) [] [] = (q, [u], []) \<and> ub_block u = blk_a \<and>
     length (m_block_pool q) = 1 \<and> m_last_height q = 1 \<and> m_cache_possible_pos q = Some (2, 0) \<and>
     m_layered_storage q = m_layered_storage (pool_3 st)"
proof -
  let ?p = "(pool_3 st)\<lparr>m_cache_possible_link := Some l\<rparr>"
  obtain u q where u: "resolveBlocksStepByStep ext_w ?p = (q, Some (u, []))" "ub_block u = blk_a" "length (m_block_pool q) = 1"
    "m_last_height q = 1" "m_cache_possible_pos q = Some (2, 0)" "m_layered_storage q = m_layered_storage (pool_3 st)"
    by (simp add: resolveBlocksStepByStep_def updateConfirmLevel_def add_levels_def pick_resolved_def BLOCK_CONFIRM_LEVEL_def resolve_at_def
      relink_def dropped_ids_def pool_3_def new_pool_def entry_w_def entry_a_def blk_fields Let_def)
  then have "resolve_loop ext_w ?p [] [] = (updateConfirmLevel q, [u], [])" by (subst resolve_loop.simps) (simp add: resolve_short)
  with u show ?thesis by (simp add: updateConfirmLevel_def)
qed

lemma quiet_saved:
  assumes "quiet (m_storage ls)" "m_mem_ledger ls = []" "ub_block u = blk_a"
  shows "\<exists>ls'. save_resolved ext_w u ls = Some ls' \<and> getNthBlockIdB64 1 (m_storage ls') = id_a"
proof -
  have late: "isValidLate ext_w (\<lambda>id_b64 t. getCertificate ext_w id_b64 t ls) (ub_block u) = Some True"
    using assms by (simp add: blk_late has_cert_def quiet_def)
  have dbs: "block_dbs (m_storage ls) = block_dbs cert_storage" using assms(1) by (simp add: quiet_def)
  have up: "stored_up_to ext_w 0 (m_storage ls)"
    using cert_storage_reads(3) block_dbs_batches [OF dbs] block_dbs_link [OF dbs] by (simp add: stored_up_to_def)
  then obtain l where l: "batches_empty (m_storage ls)" "getNthBlockLinkInfo ext_w 0 (m_storage ls) = Some l" "link_height l = 0"
    by (auto simp: stored_up_to_def)
  obtain body st' where "getBlockBodyJson ext_w blk_a = Some body"
    "saveBlock ext_w (m_block_raw blk_a) (getBlockHeaderJson ext_w blk_a) body (m_storage ls) = Some (True, st')"
    using saveable_saved [OF blk_saveable(1) ext_w_laws(1) l(1,2)] l(3) by (auto simp: blk_fields)
  then obtain ls' where saved: "save_resolved ext_w u ls = Some ls'" using late by (simp add: save_resolved_def assms(3))
  from save_resolved_step(2) [OF saved _ ext_w_laws(1) up _ late] blk_saveable(1) saved show ?thesis
    by (simp add: assms(3) blk_fields ids_w)
qed

lemma resolved_3:
  assumes "quiet st"
  shows "\<exists>p'. procResolvedBlocksIf ext_w ((pool_3 st)\<lparr>m_cache_possible_link := Some l\<rparr>) = Some p' \<and>
    getUnresolvedLowestLink p' = Some ((0, []), p') \<and> getNthBlockIdB64 1 (pool_storage p') = id_a"
proof -
  let ?p = "(pool_3 st)\<lparr>m_cache_possible_link := Some l\<rparr>"
  obtain u q where u: "resolve_loop ext_w ?p [] [] = (q, [u], [])" "ub_block u = blk_a" "length (m_block_pool q) = 1" "m_last_height q = 1"
    "m_cache_possible_pos q = Some (2, 0)" "m_layered_storage q = m_layered_storage (pool_3 st)" using loop_3 by blast
  have "quiet (pool_storage q)" using assms u(6) by (simp add: pool_storage_def pool_3_def new_pool_def)
  from getResolved_w [OF u(1) this] obtain st' where
    g: "getResolvedBlocks ext_w ?p = (([u], []), set_pool_storage st' q)" "quiet st'" by blast
  let ?ls = "m_layered_storage (set_pool_storage st' q)"
  have "quiet (m_storage ?ls)" "m_mem_ledger ?ls = []" using g(2) u(6) by (simp_all add: set_pool_storage_def pool_3_def new_pool_def)
  from quiet_saved [OF this u(2)] obtain ls' where ls': "save_resolved ext_w u ?ls = Some ls'" "getNthBlockIdB64 1 (m_storage ls') = id_a" by blast
  let ?p' = "(set_pool_storage st' q)\<lparr>m_layered_storage := ls'\<rparr>"
  have "procResolvedBlocksIf ext_w ?p = Some ?p'" using g(1) ls'(1) by (simp add: procResolvedBlocksIf_def)
  moreover have "getUnresolvedLowestLink ?p' = Some ((0, []), ?p')"
    using u(3-5) by (simp add: getUnresolvedLowestLink_def getLongestBlockPos_def set_pool_storage_def)
  moreover have "getNthBlockIdB64 1 (pool_storage ?p') = id_a" using ls'(2) by (simp add: pool_storage_def)
  ultimately show ?thesis by blast
qed

lemma second_message:
  assumes "ub_pool a = pool_2 l st" "quiet st" "tp_inv (\<lambda>_. 0) (app_transaction_pool a)"
  shows "\<exists>a'. bp_handleMessage ext_w [] new_setting certs_w (\<lambda>_. 0) 200 (msg_w blk_b) a = Some a' \<and>
    getNthBlockIdB64 1 (pool_storage (ub_pool a')) = id_a"
proof -
  obtain st1 where p: "push ext_w 200 blk_b False (pool_2 l st) =
    Some (\<lparr>res_linked = True, res_duplicated = False, res_height = 2, res_block_layer = [id_a]\<rparr>, pool_3 st1)" "quiet st1"
    using push_2 [OF assms(2)] by blast
  obtain l1 where l: "getMostPossibleLink (pool_3 st1) = Some (l1, (pool_3 st1)\<lparr>m_cache_possible_link := Some l1\<rparr>)" using link_3 by blast
  obtain p' where p': "procResolvedBlocksIf ext_w ((pool_3 st1)\<lparr>m_cache_possible_link := Some l1\<rparr>) = Some p'"
    "getUnresolvedLowestLink p' = Some ((0, []), p')" "getNthBlockIdB64 1 (pool_storage p') = id_a"
    using resolved_3 [OF p(2)] by blast
  let ?a = "set_ub_pool (pool_3 st1) a"
  have "tp_inv (\<lambda>_. 0) (app_transaction_pool ?a)" using assms(3) by (simp add: set_ub_pool_def)
  from accept_w [where a = ?a and st = new_setting and body = "body_w blk_b" and b = blk_b, OF _ p'(1,2) this] l obtain a' where
    "accept_block ext_w new_setting (\<lambda>_. 0) (body_w blk_b) blk_b True ?a = Some a'" "ub_pool a' = p'" by auto
  then show ?thesis
    using p(1) p'(3) assms(1) by (auto simp: bp_handleMessage_def msg_w_def handleMsgBlock_def blk_parsed blk_early)
qed

theorem stored_blocks_checked_witness:
  "\<exists>a' b. bp_run ext_w [] new_setting certs_w (\<lambda>_. 0) [(100, msg_w blk_a), (200, msg_w blk_b)] (node_w (new_pool cert_ls)) = Some a' \<and>
     received ext_w [] certs_w [(100, msg_w blk_a), (200, msg_w blk_b)] b \<and>
     checked_late ext_w [] new_setting certs_w (\<lambda>_. 0) [(100, msg_w blk_a), (200, msg_w blk_b)] (node_w (new_pool cert_ls)) b \<and>
     getBlockIdB64 ext_w b = id_a \<and> getValueByKey BLOCK_RAW id_a (pool_storage (ub_pool a')) = bytesToString (m_block_raw b)"
proof -
  obtain a l st where a: "bp_handleMessage ext_w [] new_setting certs_w (\<lambda>_. 0) 100 (msg_w blk_a) (node_w (new_pool cert_ls)) = Some a"
    "ub_pool a = pool_2 l st" "quiet st" "tp_inv (\<lambda>_. 0) (app_transaction_pool a)" using first_message by blast
  obtain a' where a': "bp_handleMessage ext_w [] new_setting certs_w (\<lambda>_. 0) 200 (msg_w blk_b) a = Some a'"
    "getNthBlockIdB64 1 (pool_storage (ub_pool a')) = id_a" using second_message [OF a(2-4)] by blast
  have run: "bp_run ext_w [] new_setting certs_w (\<lambda>_. 0) [(100, msg_w blk_a), (200, msg_w blk_b)] (node_w (new_pool cert_ls)) = Some a'"
    using a(1) a'(1) by (simp add: bp_run_def)
  have p: "m_block_pool (ub_pool (node_w (new_pool cert_ls))) = []" "pool_storage (ub_pool (node_w (new_pool cert_ls))) = cert_storage"
    by (simp_all add: ub_pool_def node_w_def new_pool_def pool_storage_def cert_ls_def)
  have key: "getValueByKey BLOCK_HEIGHT (to_string (unat (1 :: u64))) (pool_storage (ub_pool a')) = id_a"
    using a'(2) by (simp add: getNthBlockIdB64_def)
  from stored_blocks_checked [OF run ext_w_laws(6) p(1)] cert_storage_reads(1,2) p(2) key ids_w(3) run show ?thesis
    by (simp, elim conjE allE [of _ "to_string (unat (1 :: u64))"]) auto
qed

end
