(* ===== verification/Spec2Isabelle.thy ===== *)
theory Spec2Isabelle
  imports Bootstrap Merger_Server Merger_Node Periodic_Task Argv_Parser Chain_Example
begin

text \<open>
  A verification library for the merger node of the Gruut permissioned block chain, the C++ program under \<open>src/src\<close>.

  \<^bold>\<open>The program.\<close> A merger collects transactions, asks signers for support signatures and makes blocks; mergers exchange
  blocks and agree on who makes the next one; signers join by a challenge and response with a key exchange; the tracker
  and the service endpoints are reached over HTTP. Messages come in through a gRPC server, are unpacked and queued, taken by
  a fetcher, checked by a filter and handed to the component they are for. The components share a few singletons: the
  storage over LevelDB, the pools of signers and certificates, the settings, and the two queues.

  \<^bold>\<open>Theories, from the bottom.\<close>

  \<^item> \<open>Prelude\<close>: machine types, conversions of the C++ library, searches over sequences, folds that may fail, and the
    interfaces of machines that keep an invariant and of fixed-width codecs. \<open>Chain_Types\<close>: enumerations, structures and constants
    of \<open>chain/types.hpp\<close> and \<open>config/config.hpp\<close>. \<open>Json\<close>: JSON values, and the record \<open>ext\<close> of third-party routines with
    the laws assumed of them. \<open>Ext_Instance\<close>: an instance of \<open>ext\<close> for which all laws hold, used by the witnesses. \<open>Utils\<close>:
    the converters, builders, safe readers, compression and signatures of \<open>utils\<close>.
  \<^item> Data: \<open>Merkle_Tree\<close>, \<open>Transaction\<close>, \<open>Block\<close> (\<open>chain/*.hpp\<close>); \<open>Storage\<close> (\<open>services/storage.cpp\<close>); \<open>Ledger\<close>
    (\<open>chain/mem_ledger.hpp\<close>, \<open>services/layered_storage.hpp\<close>, \<open>ledger/*.hpp\<close>). Their lemmas are round trips (encoding, saving
    and reading back), that audit paths are accepted, that equal roots mean equal padded leaves or a collision, roll back of
    failed saves, and that moving a layer with one record for each key to disk does not change what is read.
  \<^item> Blocks of others: \<open>Unresolved_Block_Pool\<close> with \<open>Pool_Invariant\<close> and \<open>Pool_Chain\<close>, \<open>Block_Processor\<close> with \<open>Processor_Safety\<close>
    (\<open>modules/block_processor\<close>). Links of the pool are an invariant; resolved blocks form a chain; the layer that is chosen is a
    longest chain when it is computed anew; every stored block was parsed from a message with the early check and passed
    the late check against the ledger at the time it was resolved, over every sequence of messages; the storage follows the pool up to the
    last block that passes. \<open>Chain_Example\<close> runs a concrete node through two blocks and holds the witnesses of these properties.
  \<^item> Making blocks: \<open>Omp_Hash_Map\<close> (\<open>include/omp_hash_map.h\<close>), \<open>Transaction_Pool\<close>, \<open>Signature_Pool\<close>, \<open>Block_Production\<close> (the
    requester of signatures and the generator), \<open>Transaction_Collector\<close>, \<open>Bp_Scheduler\<close>. The pool of transactions refines a stack, including \<open>clear\<close>
    for a table that has not grown; a made block carries verified signatures; blocks are made exactly in the slots of the reference; mergers with the same
    table agree on the producers.
  \<^item> Signers: \<open>Signer_Pool\<close> refines a map; \<open>Signer_Join\<close>: whoever is in the pool has proved its key, and an honest signer joins.
  \<^item> Messages: \<open>Json_Schema\<close>, \<open>Message_Codec\<close>, \<open>Message_Validator\<close> (in), \<open>Conn_Manager\<close>, \<open>Merger_Client\<close> (out), \<open>Merger_Server\<close> (calls
    as state machines). What is packed unpacks to the same message; what is queued has passed its checks; what the
    output loop sends is given exactly. The runs of the server contain the writes of the sending thread, failed operations, and the
    branch of \<open>recvMessage\<close> for exceptions with the restart: it listens on each service outside that branch, and only a
    write can be left pending for a deleted channel, which does happen.
  \<^item> Start: \<open>Argv_Parser\<close>, \<open>Setting\<close>, \<open>Health_Checker\<close>, \<open>Bootstrap\<close> (synchroniser, bootstrapper, stages), \<open>Task_On_Time\<close> and
    \<open>Periodic_Task\<close> (timers). The health check is exact, and a synchronisation that its control ends has every announced block. The
    stages start in order for all exit codes, with the jobs that no longer run once the io service is stopped.
  \<^item> \<open>Merger_Node\<close>: all components of a running node on the shared state, with the fetcher, the dispatch of messages and the timers
    as steps of one relation; the properties of signers and signatures hold for the whole node.

  \<^bold>\<open>How code becomes definitions.\<close> A class is a record with the members that its operations use and keeps their names, an operation is
  a function from the state to the new state, in the order of the source. An exception that nothing catches, an access out of
  range and a null pointer are \<^const>\<open>None\<close> of an option; an error the code handles is a value. Unsigned integers of 64, 32
  and 8 bits are words and wrap; casts are written out. Memory that is read before it is written is an argument (\<open>mem\<close>). The
  clock, random values and shuffles, answers of the network and lines typed by the user are arguments or parts of an
  event. Strings are lists of characters, maps of the library are functions or ordered association lists where order is seen.

  \<^bold>\<open>Assumptions about code outside the repository\<close> are named laws, stated where they are used as hypotheses: decoding inverts
  encoding for Base64, JSON text (an idealisation: the library refuses to print strings that are not UTF-8, so the law is about
  values whose strings are), CBOR and LZ4 (with its capacity), a digest has 32 bytes, a signature verifies under the
  certificate of its key, the table of precomputed digests holds digests, and Base64 has no underscore. No law says that digests do not collide or
  that signatures cannot be forged: statements that depend on it say what was verified.

  \<^bold>\<open>Interfaces.\<close> \<open>invariant_machine\<close> (signer pool, fixed-size builder), \<open>fixed_codec\<close> (64-bit numbers), \<open>kv_store\<close> (ledger and backup
  keys), \<open>key_table\<close> (the hash map under the pool of transactions), \<open>ledger_frame\<close> (what the ledger leaves alone in the block pool),
  \<open>node_table\<close> (mergers and service endpoints).

  \<^bold>\<open>Loops and bounds.\<close> Loops over data are structural or have a measure; the loop of the output fetcher is a partial function that is
  shown to end; the prompt for a password runs over the typed lines. No fuel is used. Steps that run at any time (timers,
  posted work, the network) are rules of an inductive relation or elements of a sequence that is universally quantified. A round
  of signatures begins only when the one before is over, which the timing of the slots gives.

  \<^bold>\<open>Not modelled.\<close> Threads, mutexes and strands: a handler runs as one step, so races inside a handler are not seen (double
  unlocks are listed as findings). LevelDB, gRPC, libcurl, Botan, LZ4, the JSON library, \<open>cxxopts\<close>, the concurrent queue and
  the logger are vendored or linked libraries, of which only the observable behaviour the sources rely on is a parameter or is modelled
  (the schema validator for the keywords in use). \<open>HttpClient\<close>, reading passwords and files and \<open>main\<close> are input and output.
  Members that nothing calls are left out (\<open>digitBytesToIntegerStr\<close>, \<open>isValidCert\<close>, the RSA wrapper).
\<close>

end
